theory Spec2Isabelle
  imports Main "HOL-Library.Sublist" "HOL-Library.Code_Target_Nat"
begin

chapter \<open>The model\<close>

section \<open>JavaScript strings\<close>

text \<open>
  A JavaScript string is modelled as a \<^typ>\<open>string\<close>: a list of 8-bit characters, read as
  the code units U+0000 to U+00FF. Characters beyond that range (the dashes U+2013 and
  U+2014 and the bullet U+2022 that some patterns of the source mention) have no
  counterpart in the model; every other member of a character class is kept.
\<close>

definition isDigit :: "char \<Rightarrow> bool" where
  "isDigit c = (c \<in> set ''0123456789'')"

definition isUpperAZ :: "char \<Rightarrow> bool" where
  "isUpperAZ c = (c \<in> set ''ABCDEFGHIJKLMNOPQRSTUVWXYZ'')"

definition isLowerAZ :: "char \<Rightarrow> bool" where
  "isLowerAZ c = (c \<in> set ''abcdefghijklmnopqrstuvwxyz'')"

definition isWordChar :: "char \<Rightarrow> bool" where
  \<comment> \<open>the class \<open>\w\<close>\<close>
  "isWordChar c = (isDigit c \<or> isUpperAZ c \<or> isLowerAZ c \<or> c = CHR ''_'')"

definition isSpace :: "char \<Rightarrow> bool" where
  \<comment> \<open>the class \<open>\s\<close>, also what \<open>trim\<close> removes: TAB, LF, VT, FF, CR, space, NBSP\<close>
  "isSpace c = (c \<in> set [CHR 0x09, CHR 0x0A, CHR 0x0B, CHR 0x0C, CHR 0x0D, CHR 0x20, CHR 0xA0])"

definition lowerChar :: "char \<Rightarrow> char" where
  "lowerChar c =
     (let n = (of_char c :: nat)
      in if (65 \<le> n \<and> n \<le> 90) \<or> (192 \<le> n \<and> n \<le> 222 \<and> n \<noteq> 215)
         then char_of (n + 32) else c)"

definition upperChar :: "char \<Rightarrow> char" where
  "upperChar c =
     (let n = (of_char c :: nat)
      in if (97 \<le> n \<and> n \<le> 122) \<or> (224 \<le> n \<and> n \<le> 254 \<and> n \<noteq> 247)
         then char_of (n - 32) else c)"

definition toLowerCase :: "string \<Rightarrow> string" where
  "toLowerCase s = map lowerChar s"

definition trim :: "string \<Rightarrow> string" where
  "trim s = rev (dropWhile isSpace (rev (dropWhile isSpace s)))"

definition includesStr :: "string \<Rightarrow> string \<Rightarrow> bool" where
  \<comment> \<open>\<open>s.includes(t)\<close>\<close>
  "includesStr s t = sublist t s"

definition startsWith :: "string \<Rightarrow> string \<Rightarrow> bool" where
  "startsWith s t = prefix t s"

definition endsWith :: "string \<Rightarrow> string \<Rightarrow> bool" where
  "endsWith s t = suffix t s"

fun splitChar :: "char \<Rightarrow> string \<Rightarrow> string list" where
  \<comment> \<open>\<open>s.split(c)\<close> for a one-character separator: never the empty list\<close>
  "splitChar sep [] = [[]]"
| "splitChar sep (c # cs) =
     (if c = sep then [] # splitChar sep cs
      else (case splitChar sep cs of
              [] \<Rightarrow> [[c]]
            | p # ps \<Rightarrow> (c # p) # ps))"

section \<open>Regular expressions\<close>

text \<open>
  The source finds its candidates with JavaScript regular expressions. They are modelled by
  a backtracking matcher over the syntax below: a match state is the character before the
  current position (\<open>None\<close> at the start of the text), the rest of the text and the
  captures made so far; matching a pattern gives every state it can end in, in the order
  in which backtracking tries them, so the head of the list is the match the engine
  reports. Alternatives are tried left to right, a greedy repetition tries the longest
  run first, a lazy one the shortest; once the minimum count is reached, an iteration
  that consumes nothing is not repeated.
\<close>

type_synonym caps = "(nat \<times> string) list"
type_synonym mstate = "char option \<times> string \<times> caps"

datatype re =
    Eps
  | Cls "char \<Rightarrow> bool"
  | Seq re re
  | Alt re re
  | Rep nat "nat option" bool re
  | Grp nat re
  | WordB
  | Bol
  | Eol

definition Chr :: "char \<Rightarrow> re" where
  "Chr c = Cls (\<lambda>x. x = c)"

definition OneOf :: "string \<Rightarrow> re" where
  "OneOf cs = Cls (\<lambda>x. x \<in> set cs)"

fun Lit :: "string \<Rightarrow> re" where
  "Lit [] = Eps"
| "Lit (c # cs) = Seq (Chr c) (Lit cs)"

fun Seqs :: "re list \<Rightarrow> re" where
  "Seqs [] = Eps"
| "Seqs [r] = r"
| "Seqs (r # rs) = Seq r (Seqs rs)"

fun Alts :: "re list \<Rightarrow> re" where
  "Alts [] = Cls (\<lambda>x. False)"
| "Alts [r] = r"
| "Alts (r # rs) = Alt r (Alts rs)"

definition Star :: "re \<Rightarrow> re" where "Star r = Rep 0 None True r"
definition Plus :: "re \<Rightarrow> re" where "Plus r = Rep 1 None True r"
definition PlusLazy :: "re \<Rightarrow> re" where "PlusLazy r = Rep 1 None False r"
definition Opt :: "re \<Rightarrow> re" where "Opt r = Rep 0 (Some 1) True r"
definition Times :: "nat \<Rightarrow> nat \<Rightarrow> re \<Rightarrow> re" where "Times m n r = Rep m (Some n) True r"
definition AtLeast :: "nat \<Rightarrow> re \<Rightarrow> re" where "AtLeast m r = Rep m None True r"

definition clsOk :: "bool \<Rightarrow> (char \<Rightarrow> bool) \<Rightarrow> char \<Rightarrow> bool" where
  \<comment> \<open>with the flag \<open>i\<close> a character matches a class when its other case does\<close>
  "clsOk ic P x = (P x \<or> (ic \<and> (P (lowerChar x) \<or> P (upperChar x))))"

definition restLen :: "mstate \<Rightarrow> nat" where
  "restLen s = length (fst (snd s))"

definition decMax :: "nat option \<Rightarrow> nat option" where
  "decMax mx = (case mx of None \<Rightarrow> None | Some k \<Rightarrow> Some (k - 1))"

function repeat :: "(mstate \<Rightarrow> mstate list) \<Rightarrow> bool \<Rightarrow> nat \<Rightarrow> nat option \<Rightarrow> mstate \<Rightarrow> mstate list" where
  "repeat step g mn mx s =
     (if mx = Some 0 then [s]
      else if mn > 0
      then concat (map (repeat step g (mn - 1) (decMax mx))
                       (filter (\<lambda>s'. restLen s' \<le> restLen s) (step s)))
      else (let more = concat (map (repeat step g 0 (decMax mx))
                                   (filter (\<lambda>s'. restLen s' < restLen s) (step s)))
            in if g then more @ [s] else s # more))"
  by pat_completeness auto
termination
  by (relation "measure (\<lambda>(step, g, mn, mx, s). mn + restLen s)") auto

definition wordBoundary :: "mstate \<Rightarrow> bool" where
  "wordBoundary s =
     (let wordLeft = (case fst s of None \<Rightarrow> False | Some x \<Rightarrow> isWordChar x);
          wordRight = (case fst (snd s) of [] \<Rightarrow> False | x # _ \<Rightarrow> isWordChar x)
      in wordLeft \<noteq> wordRight)"

primrec rmatch :: "bool \<Rightarrow> re \<Rightarrow> mstate \<Rightarrow> mstate list" where
  "rmatch ic Eps s = [s]"
| "rmatch ic (Cls P) s =
     (case fst (snd s) of
        [] \<Rightarrow> []
      | x # xs \<Rightarrow> if clsOk ic P x then [(Some x, xs, snd (snd s))] else [])"
| "rmatch ic (Seq a b) s = concat (map (rmatch ic b) (rmatch ic a s))"
| "rmatch ic (Alt a b) s = rmatch ic a s @ rmatch ic b s"
| "rmatch ic (Rep mn mx g r) s = repeat (rmatch ic r) g mn mx s"
| "rmatch ic (Grp k r) s =
     map (\<lambda>s'. (fst s', fst (snd s'),
                 (k, take (restLen s - restLen s') (fst (snd s))) # snd (snd s')))
         (rmatch ic r s)"
| "rmatch ic WordB s = (if wordBoundary s then [s] else [])"
| "rmatch ic Bol s = (if fst s = None then [s] else [])"
| "rmatch ic Eol s = (if fst (snd s) = [] then [s] else [])"

text \<open>
  A regular expression of the source is a pattern with its \<open>i\<close> flag. A match is the
  matched text with its captures; \<open>group m k\<close> is \<open>m[k]\<close>, \<open>None\<close> when group \<open>k\<close> did not
  take part in the match.
\<close>

type_synonym regex = "bool \<times> re"
type_synonym rmatch = "string \<times> caps"

definition group :: "rmatch \<Rightarrow> nat \<Rightarrow> string option" where
  "group m k = (if k = 0 then Some (fst m) else map_of (snd m) k)"

definition groupOr0 :: "rmatch \<Rightarrow> string" where
  \<comment> \<open>\<open>m[1] || m[0]\<close>: an empty capture is falsy as well\<close>
  "groupOr0 m = (case group m 1 of None \<Rightarrow> fst m | Some g \<Rightarrow> if g = [] then fst m else g)"

definition execAt :: "regex \<Rightarrow> char option \<Rightarrow> string \<Rightarrow> (nat \<times> caps) option" where
  "execAt rx p rest =
     (case rmatch (fst rx) (snd rx) (p, rest, []) of
        [] \<Rightarrow> None
      | s' # _ \<Rightarrow> Some (length rest - restLen s', snd (snd s')))"

fun searchFrom :: "regex \<Rightarrow> char option \<Rightarrow> string \<Rightarrow> (nat \<times> nat \<times> caps) option" where
  "searchFrom rx p [] =
     (case execAt rx p [] of None \<Rightarrow> None | Some (n, c) \<Rightarrow> Some (0, n, c))"
| "searchFrom rx p (x # xs) =
     (case execAt rx p (x # xs) of
        Some (n, c) \<Rightarrow> Some (0, n, c)
      | None \<Rightarrow> (case searchFrom rx (Some x) xs of
                   None \<Rightarrow> None
                 | Some (off, n, c) \<Rightarrow> Some (Suc off, n, c)))"

definition matchFirst :: "regex \<Rightarrow> string \<Rightarrow> rmatch option" where
  \<comment> \<open>\<open>text.match(rx)\<close> for a pattern without the flag \<open>g\<close>\<close>
  "matchFirst rx text =
     (case searchFrom rx None text of
        None \<Rightarrow> None
      | Some (off, n, c) \<Rightarrow> Some (take n (drop off text), c))"

definition test :: "regex \<Rightarrow> string \<Rightarrow> bool" where
  "test rx text = (searchFrom rx None text \<noteq> None)"

function matchAllFrom :: "regex \<Rightarrow> char option \<Rightarrow> string \<Rightarrow> rmatch list" where
  "matchAllFrom rx p rest =
     (case searchFrom rx p rest of
        None \<Rightarrow> []
      | Some (off, n, c) \<Rightarrow>
          (take n (drop off rest), c) #
          (let adv = off + (if n = 0 then 1 else n)
           in if adv > length rest then []
              else matchAllFrom rx (Some (rest ! (adv - 1))) (drop adv rest)))"
  by pat_completeness auto
termination
  by (relation "measure (\<lambda>(rx, p, rest). length rest)") auto

definition matchAll :: "regex \<Rightarrow> string \<Rightarrow> rmatch list" where
  \<comment> \<open>\<open>text.matchAll(rx)\<close> and the matches behind \<open>text.match(rx)\<close> with the flag \<open>g\<close>\<close>
  "matchAll rx text = matchAllFrom rx None text"

function replaceAllFrom :: "regex \<Rightarrow> string \<Rightarrow> char option \<Rightarrow> string \<Rightarrow> string" where
  "replaceAllFrom rx repl p rest =
     (case searchFrom rx p rest of
        None \<Rightarrow> rest
      | Some (off, n, c) \<Rightarrow>
          take off rest @ repl @
          (if n = 0
           then (if off < length rest
                 then rest ! off # replaceAllFrom rx repl (Some (rest ! off)) (drop (Suc off) rest)
                 else [])
           else (if off + n > length rest then []
                 else replaceAllFrom rx repl (Some (rest ! (off + n - 1))) (drop (off + n) rest))))"
  by pat_completeness auto
termination
  by (relation "measure (\<lambda>(rx, repl, p, rest). length rest)") auto

definition replaceAll :: "regex \<Rightarrow> string \<Rightarrow> string \<Rightarrow> string" where
  \<comment> \<open>\<open>text.replace(rx, repl)\<close> with the flag \<open>g\<close> and a replacement without \<open>$\<close>\<close>
  "replaceAll rx repl text = replaceAllFrom rx repl None text"

definition replaceFirst :: "regex \<Rightarrow> string \<Rightarrow> string \<Rightarrow> string" where
  \<comment> \<open>\<open>text.replace(rx, repl)\<close> without the flag \<open>g\<close>\<close>
  "replaceFirst rx repl text =
     (case searchFrom rx None text of
        None \<Rightarrow> text
      | Some (off, n, c) \<Rightarrow> take off text @ repl @ drop (off + n) text)"

section \<open>Shared helpers of the extractors\<close>

definition setAdd :: "string list \<Rightarrow> string \<Rightarrow> string list" where
  \<comment> \<open>\<open>Set.add\<close> on an insertion-ordered set; \<open>Array.from\<close> is the list itself\<close>
  "setAdd xs x = (if x \<in> set xs then xs else xs @ [x])"

function collapseRuns :: "(char \<Rightarrow> bool) \<Rightarrow> string \<Rightarrow> string" where
  \<comment> \<open>\<open>text.replace(/[...]+/g, ' ')\<close> for a character class given as a predicate\<close>
  "collapseRuns P [] = []"
| "collapseRuns P (c # cs) =
     (if P c then CHR '' '' # collapseRuns P (dropWhile P cs)
      else c # collapseRuns P cs)"
  by pat_completeness auto
termination
  by (relation "measure (\<lambda>(P, s). length s)") (auto simp: length_dropWhile_le less_Suc_eq_le)

definition collapseSpaces :: "string \<Rightarrow> string" where
  \<comment> \<open>\<open>text.replace(/\s+/g, ' ')\<close>\<close>
  "collapseSpaces text = collapseRuns isSpace text"

definition newline :: char where
  "newline = CHR 0x0A"

definition splitLines :: "string \<Rightarrow> string list" where
  \<comment> \<open>\<open>text.split('\n')\<close>\<close>
  "splitLines text = splitChar newline text"

definition window3 :: "string list \<Rightarrow> nat \<Rightarrow> string list" where
  \<comment> \<open>the lines \<open>lines[j]\<close> for \<open>j = i, ..., min(i + 3, lines.length) - 1\<close>\<close>
  "window3 lines i = map (\<lambda>j. lines ! j) [i ..< min (i + 3) (length lines)]"

section \<open>Phone extraction (\<open>contactExtractor.ts\<close>)\<close>

definition allSameDigit :: "string \<Rightarrow> bool" where
  \<comment> \<open>\<open>/^(\d)\1+$/.test(digits)\<close>\<close>
  "allSameDigit digits =
     (case digits of
        [] \<Rightarrow> False
      | d # rest \<Rightarrow> isDigit d \<and> rest \<noteq> [] \<and> (\<forall>x \<in> set rest. x = d))"

definition starts6to9 :: "string \<Rightarrow> bool" where
  \<comment> \<open>\<open>/^[6-9]/.test(s)\<close>\<close>
  "starts6to9 s = (s \<noteq> [] \<and> hd s \<in> set ''6789'')"

definition fakeSequences :: "string list" where
  "fakeSequences = [''1234567890'', ''0123456789'', ''9876543210'', ''1111111111'', ''0000000000'']"

definition isValidPhone :: "string \<Rightarrow> string \<Rightarrow> bool" where
  "isValidPhone phone digits =
     (if \<not> (phone \<noteq> [] \<and> (hd phone = CHR ''+'' \<or> isDigit (hd phone))) then False
      else if length (filter (\<lambda>c. c = CHR ''+'') phone) > 1 then False
      else if allSameDigit digits then False
      else if digits \<in> set fakeSequences then False
      else if startsWith digits ''91'' \<and> length digits = 12 \<and> \<not> starts6to9 (drop 2 digits) then False
      else if length digits = 10 \<and> \<not> starts6to9 digits then False
      else if length digits = 11 \<and> \<not> startsWith digits ''1'' then False
      else True)"

definition formatPhone :: "string \<Rightarrow> string \<Rightarrow> string" where
  "formatPhone phone digits =
     (if startsWith phone ''+'' then phone
      else if length digits = 10 \<and> starts6to9 digits then ''+91'' @ digits
      else if length digits = 12 \<and> startsWith digits ''91'' then ''+'' @ digits
      else if length digits = 11 \<and> startsWith digits ''1'' then ''+'' @ digits
      else if length digits > 10 \<and> length digits \<le> 15 then ''+'' @ digits
      else [])"

definition labels :: "string list" where
  "labels = [''phone'', ''mobile'', ''cell'', ''tel'', ''telephone'', ''contact'',
             ''ph'', ''mob'', ''number'', ''call'', ''reach'']"

definition stripLabel :: "string \<Rightarrow> string \<Rightarrow> string" where
  \<comment> \<open>\<open>cleaned.replace(new RegExp(`\\b${label}\\b`, 'gi'), '')\<close>\<close>
  "stripLabel cleaned label = replaceAll (True, Seqs [WordB, Lit label, WordB]) [] cleaned"

definition replaceLeading00 :: "string \<Rightarrow> string" where
  \<comment> \<open>\<open>cleaned.replace(/^00/, '+')\<close>\<close>
  "replaceLeading00 s = (if prefix ''00'' s then CHR ''+'' # drop 2 s else s)"

definition cleanPhone :: "string \<Rightarrow> string" where
  "cleanPhone phone =
     (let cleaned0 = foldl stripLabel (toLowerCase phone) labels;
          cleaned1 = filter (\<lambda>c. isDigit c \<or> c = CHR ''+'') cleaned0;
          cleaned = replaceLeading00 cleaned1;
          digits = filter isDigit cleaned;
          digitCount = length digits
      in if digitCount < 10 \<or> digitCount > 15 then []
         else if \<not> isValidPhone cleaned digits then []
         else formatPhone cleaned digits)"

definition digitRe :: re where "digitRe = Cls isDigit"
definition sepRe :: re where
  \<comment> \<open>\<open>[\s.-]\<close>\<close>
  "sepRe = Cls (\<lambda>c. isSpace c \<or> c \<in> set ''.-'')"
definition spaceRe :: re where "spaceRe = Cls isSpace"
definition phoneCharRe :: re where
  \<comment> \<open>\<open>[+\d\s().-]\<close>\<close>
  "phoneCharRe = Cls (\<lambda>c. isDigit c \<or> isSpace c \<or> c \<in> set ''+().-'')"
definition range6to9 :: re where "range6to9 = OneOf ''6789''"

text \<open>
  The eight patterns that both phone extractors of the repository share, in the order of
  the source:
  \<^enum> \<^verbatim>\<open>/\+?\d{1,3}[\s.-]?\(?\d{2,4}\)?[\s.-]?\d{3,4}[\s.-]?\d{3,4}/g\<close>
  \<^enum> \<^verbatim>\<open>/\+91[\s.-]?[6-9]\d{9}/g\<close>
  \<^enum> \<^verbatim>\<open>/(?:^|[\s,;(])[6-9]\d{9}(?:[\s,;)]|$)/g\<close>
  \<^enum> \<^verbatim>\<open>/\(\d{3}\)[\s.-]?\d{3}[\s.-]?\d{4}/g\<close>
  \<^enum> \<^verbatim>\<open>/\d{3}[\s.-]\d{3}[\s.-]\d{4}/g\<close>
  \<^enum> \<^verbatim>\<open>/(?:phone|mobile|cell|tel|telephone|contact|ph|mob)[\s:]*([+\d\s().-]{10,20})/gi\<close>
  \<^enum> \<^verbatim>\<open>/\+\d{1,3}[\s]?\d{5}[\s]?\d{5}/g\<close>
  \<^enum> \<^verbatim>\<open>/\+\d{1,3}[\s]?\(\d{3}\)[\s]?\d{3}[\s.-]?\d{4}/g\<close>
\<close>

definition phonePatternsCommon :: "regex list" where
  "phonePatternsCommon =
    [ (False, Seqs [Opt (Chr CHR ''+''), Times 1 3 digitRe, Opt sepRe, Opt (Chr CHR ''(''),
                    Times 2 4 digitRe, Opt (Chr CHR '')''), Opt sepRe, Times 3 4 digitRe,
                    Opt sepRe, Times 3 4 digitRe]),
      (False, Seqs [Lit ''+91'', Opt sepRe, range6to9, Times 9 9 digitRe]),
      (False, Seqs [Alt Bol (Cls (\<lambda>c. isSpace c \<or> c \<in> set '',;('')), range6to9,
                    Times 9 9 digitRe, Alt (Cls (\<lambda>c. isSpace c \<or> c \<in> set '',;)'')) Eol]),
      (False, Seqs [Chr CHR ''('', Times 3 3 digitRe, Chr CHR '')'', Opt sepRe,
                    Times 3 3 digitRe, Opt sepRe, Times 4 4 digitRe]),
      (False, Seqs [Times 3 3 digitRe, sepRe, Times 3 3 digitRe, sepRe, Times 4 4 digitRe]),
      (True, Seqs [Alts (map Lit [''phone'', ''mobile'', ''cell'', ''tel'', ''telephone'',
                                    ''contact'', ''ph'', ''mob'']),
                   Star (Cls (\<lambda>c. isSpace c \<or> c = CHR '':'')),
                   Grp 1 (Times 10 20 phoneCharRe)]),
      (False, Seqs [Chr CHR ''+'', Times 1 3 digitRe, Opt spaceRe, Times 5 5 digitRe,
                    Opt spaceRe, Times 5 5 digitRe]),
      (False, Seqs [Chr CHR ''+'', Times 1 3 digitRe, Opt spaceRe, Chr CHR ''('',
                    Times 3 3 digitRe, Chr CHR '')'', Opt spaceRe, Times 3 3 digitRe,
                    Opt sepRe, Times 4 4 digitRe]) ]"

definition tenDigitRx :: regex where
  \<comment> \<open>\<open>/\b\d{10}\b/g\<close>\<close>
  "tenDigitRx = (False, Seqs [WordB, Times 10 10 digitRe, WordB])"

definition phonePatterns :: "regex list" where
  "phonePatterns = phonePatternsCommon @ [tenDigitRx]"

definition phoneKeywordRx :: regex where
  \<comment> \<open>\<open>/\b(?:phone|mobile|cell|tel|contact|number|call|reach)\b/i\<close>\<close>
  "phoneKeywordRx =
     (True, Seqs [WordB, Alts (map Lit [''phone'', ''mobile'', ''cell'', ''tel'', ''contact'',
                                          ''number'', ''call'', ''reach'']), WordB])"

definition digitRunRx :: regex where
  \<comment> \<open>\<open>/[+\d\s().-]{10,20}/g\<close>\<close>
  "digitRunRx = (False, Times 10 20 phoneCharRe)"

definition addPhone :: "string list \<Rightarrow> string \<Rightarrow> string list" where
  \<comment> \<open>\<open>const cleaned = cleanPhone(phone); if (cleaned) phones.add(cleaned)\<close>\<close>
  "addPhone phones phone =
     (let cleaned = cleanPhone phone in if cleaned \<noteq> [] then setAdd phones cleaned else phones)"

definition extractPhonesFromText :: "string \<Rightarrow> string list" where
  "extractPhonesFromText text =
     (let cleanedText = collapseSpaces text;
          phones1 = foldl (\<lambda>phones pattern.
                             foldl (\<lambda>ph m. addPhone ph (trim (groupOr0 m)))
                                   phones (matchAll pattern cleanedText))
                          [] phonePatterns;
          lines = splitLines text;
          phones2 = foldl (\<lambda>phones i.
                             if test phoneKeywordRx (toLowerCase (lines ! i))
                             then foldl (\<lambda>ph line. foldl addPhone ph (map fst (matchAll digitRunRx line)))
                                        phones (window3 lines i)
                             else phones)
                          phones1 [0 ..< length lines];
          headerLines = take 30 lines
      in foldl (\<lambda>phones line. foldl addPhone phones (map fst (matchAll tenDigitRx line)))
               phones2 headerLines)"

section \<open>Phone extraction (the document parser, \<open>src/unnamed/part_000\<close>)\<close>

definition isValidPhone_dp :: "string \<Rightarrow> string \<Rightarrow> bool" where
  "isValidPhone_dp phone digits =
     (if \<not> (phone \<noteq> [] \<and> (hd phone = CHR ''+'' \<or> isDigit (hd phone))) then False
      else if length (filter (\<lambda>c. c = CHR ''+'') phone) > 1 then False
      else if allSameDigit digits then False
      else if digits \<in> set [''0123456789'', ''1234567890'', ''9876543210''] then False
      else if startsWith digits ''91'' \<and> length digits = 12 \<and> \<not> starts6to9 (drop 2 digits) then False
      else if length digits = 10 \<and> \<not> starts6to9 digits then False
      else True)"

definition labels_dp :: "string list" where
  "labels_dp = [''phone'', ''mobile'', ''cell'', ''tel'', ''telephone'', ''contact'',
                ''ph'', ''mob'', ''number'']"

definition stripLabel_dp :: "string \<Rightarrow> string \<Rightarrow> string" where
  \<comment> \<open>\<open>cleaned.replace(new RegExp(label, 'gi'), '')\<close>\<close>
  "stripLabel_dp cleaned label = replaceAll (True, Lit label) [] cleaned"

definition cleanPhone_dp :: "string \<Rightarrow> string" where
  \<comment> \<open>\<open>formatPhone\<close> is the same function in both files\<close>
  "cleanPhone_dp phone =
     (let cleaned0 = foldl stripLabel_dp (toLowerCase phone) labels_dp;
          cleaned1 = filter (\<lambda>c. isDigit c \<or> c \<in> set ''+()'') cleaned0;
          cleaned2 = filter (\<lambda>c. c \<notin> set ''()'') cleaned1;
          cleaned = replaceLeading00 cleaned2;
          digits = filter isDigit cleaned;
          digitCount = length digits
      in if digitCount < 10 \<or> digitCount > 15 then []
         else if \<not> isValidPhone_dp cleaned digits then []
         else formatPhone cleaned digits)"

definition phoneKeywordRx_dp :: regex where
  \<comment> \<open>\<open>/phone|mobile|cell|tel|contact|number/i\<close>\<close>
  "phoneKeywordRx_dp =
     (True, Alts (map Lit [''phone'', ''mobile'', ''cell'', ''tel'', ''contact'', ''number'']))"

definition digitRunRx_dp :: regex where
  \<comment> \<open>\<open>/[+\d\s().-]+/g\<close>\<close>
  "digitRunRx_dp = (False, Plus phoneCharRe)"

definition addPhone_dp :: "string list \<Rightarrow> string \<Rightarrow> string list" where
  "addPhone_dp phones phone =
     (let cleaned = cleanPhone_dp phone in if cleaned \<noteq> [] then setAdd phones cleaned else phones)"

definition extractPhones_dp :: "string \<Rightarrow> string list" where
  "extractPhones_dp text =
     (let cleanedText = collapseSpaces text;
          phones1 = foldl (\<lambda>phones pattern.
                             foldl (\<lambda>ph m. addPhone_dp ph (trim (groupOr0 m)))
                                   phones (matchAll pattern cleanedText))
                          [] phonePatternsCommon;
          lines = splitLines text
      in foldl (\<lambda>phones i.
                  if test phoneKeywordRx_dp (toLowerCase (lines ! i))
                  then foldl (\<lambda>ph line. foldl addPhone_dp ph (map fst (matchAll digitRunRx_dp line)))
                             phones (window3 lines i)
                  else phones)
               phones1 [0 ..< length lines])"

section \<open>Experience qualification\<close>

text \<open>
  \<open>parseInt(s)\<close> with no radix: leading white space is skipped, one sign is read, a
  \<open>0x\<close> prefix selects base 16, and the longest run of digits is read as an integer. No
  digit at all gives \<open>NaN\<close>, modelled as \<open>None\<close>. The result is a double: the integer
  read is rounded to the nearest number with a 53-bit significand, a tie going to the even
  one (\<open>toNumber\<close>), every digit taken into account. The doubles met here are integers or
  infinite, and such a double is held as an \<^typ>\<open>int\<close>: a finite one as itself, \<open>Infinity\<close> as
  \<open>2 ^ 1024\<close>, which is what the rounding gives when the exponent is not bounded, and
  \<open>-Infinity\<close> as \<open>- (2 ^ 1024)\<close>. Comparing two such doubles is comparing the integers; the
  difference of two equal infinities is \<open>NaN\<close> (\<open>absDifference\<close>).
\<close>

fun bitLength :: "nat \<Rightarrow> nat" where
  "bitLength n = (if n = 0 then 0 else Suc (bitLength (n div 2)))"

declare bitLength.simps [simp del]

definition roundHalfEven :: "nat \<Rightarrow> nat \<Rightarrow> nat" where
  \<comment> \<open>the integer nearest to \<open>num / den\<close>, a tie going to the even one\<close>
  "roundHalfEven num den =
     (let q = num div den; r = num mod den
      in if 2 * r < den then q
         else if 2 * r > den then q + 1
         else if even q then q else q + 1)"

definition infinity :: int where
  "infinity = 2 ^ 1024"

definition toNumber :: "nat \<Rightarrow> nat" where
  \<comment> \<open>the double nearest to a natural number; \<open>2 ^ 1024\<close> when that is infinite, which is
      from \<open>2 ^ 1024 - 2 ^ 970\<close> on\<close>
  "toNumber n =
     (let l = bitLength n
      in if l \<le> 53 then n
         else (let m = roundHalfEven n (2 ^ (l - 53))
               in if l > 1024 \<or> (l = 1024 \<and> m = 2 ^ 53) then 2 ^ 1024
                  else m * 2 ^ (l - 53)))"

definition digitValue :: "char \<Rightarrow> nat" where
  "digitValue c =
     (let n = (of_char c :: nat)
      in if isDigit c then n - 48
         else if isLowerAZ c then n - 87
         else if isUpperAZ c then n - 55
         else 36)"

definition isRadixDigit :: "nat \<Rightarrow> char \<Rightarrow> bool" where
  "isRadixDigit radix c = (digitValue c < radix)"

definition parseInt :: "string \<Rightarrow> int option" where
  "parseInt s =
     (let s1 = dropWhile isSpace s;
          neg = (s1 \<noteq> [] \<and> hd s1 = CHR ''-'');
          s2 = (if s1 \<noteq> [] \<and> (hd s1 = CHR ''+'' \<or> hd s1 = CHR ''-'') then tl s1 else s1);
          hex = (prefix ''0x'' s2 \<or> prefix ''0X'' s2);
          radix = (if hex then 16 else 10);
          s3 = (if hex then drop 2 s2 else s2);
          z = takeWhile (isRadixDigit radix) s3;
          v = int (toNumber (foldl (\<lambda>a c. a * radix + digitValue c) 0 z))
      in if z = [] then None else Some (if neg then - v else v))"

definition orZero :: "int option \<Rightarrow> int" where
  \<comment> \<open>\<open>x || 0\<close> on a number: \<open>NaN\<close> and \<open>0\<close> both give \<open>0\<close>, an infinity stays\<close>
  "orZero v = (case v of None \<Rightarrow> 0 | Some n \<Rightarrow> n)"

definition getExperienceResult :: "string \<Rightarrow> string \<Rightarrow> string" where
  \<comment> \<open>\<open>CandidateTable.tsx\<close>\<close>
  "getExperienceResult candidateExp jdExp =
     (let candidateYears = orZero (parseInt candidateExp);
          jdYears = orZero (parseInt jdExp)
      in if candidateYears \<ge> jdYears then ''Qualified'' else ''Not Qualified'')"

definition absDifference :: "int \<Rightarrow> int \<Rightarrow> int option" where
  \<comment> \<open>\<open>Math.abs(a - b)\<close>: \<open>NaN\<close> when \<open>a\<close> and \<open>b\<close> are the same infinity. The difference of
      two finite doubles is kept exact; it is an integer, so it is at most 1 exactly when
      the double nearest to it is\<close>
  "absDifference a b = (if a = b \<and> \<bar>a\<bar> = infinity then None else Some \<bar>a - b\<bar>)"

definition getExperienceResult_history :: "string \<Rightarrow> string \<Rightarrow> string" where
  \<comment> \<open>\<open>ParsingHistory.tsx\<close>\<close>
  "getExperienceResult_history candidateExp jdExp =
     (let candidateYears = orZero (parseInt candidateExp);
          jdYears = orZero (parseInt jdExp)
      in if (case absDifference candidateYears jdYears of None \<Rightarrow> False | Some d \<Rightarrow> d \<le> 1)
         then ''Qualified'' else ''Not Qualified'')"

definition orString :: "string \<Rightarrow> string \<Rightarrow> string" where
  \<comment> \<open>\<open>s || d\<close> on a string: the empty string is falsy\<close>
  "orString s d = (if s = [] then d else s)"

definition numGe :: "int option \<Rightarrow> int option \<Rightarrow> bool" where
  \<comment> \<open>\<open>a >= b\<close> on numbers: false as soon as one side is \<open>NaN\<close>\<close>
  "numGe a b = (case (a, b) of (Some x, Some y) \<Rightarrow> x \<ge> y | _ \<Rightarrow> False)"

definition experienceResult :: "string \<Rightarrow> string \<Rightarrow> string" where
  \<comment> \<open>the report rows of \<open>handleParse\<close> in \<open>geminiParser.ts\<close>\<close>
  "experienceResult candidate_experience jd_experience =
     (let candidateExp = parseInt (orString candidate_experience ''0'');
          jdExp = parseInt (orString jd_experience ''0'')
      in if numGe candidateExp jdExp then ''Qualified'' else ''Not Qualified'')"

section \<open>Email validation and extraction (\<open>contactExtractor.ts\<close>)\<close>

definition localPartChar :: "char \<Rightarrow> bool" where
  \<comment> \<open>the class \<open>[A-Za-z0-9._%-]\<close>\<close>
  "localPartChar c = (isUpperAZ c \<or> isLowerAZ c \<or> isDigit c \<or> c \<in> set ''._%-'')"

definition invalidDomains :: "string list" where
  "invalidDomains = [''example.com'', ''test.com'', ''email.com'', ''domain.com'',
                     ''company.com'', ''yourcompany.com'', ''youremail.com'', ''sample.com'']"

definition isValidEmail :: "string \<Rightarrow> bool" where
  "isValidEmail email =
     (if email = [] \<or> length email < 5 \<or> length email > 100 then False
      else if length (filter (\<lambda>c. c = CHR ''@'') email) \<noteq> 1 then False
      else (case splitChar CHR ''@'' email of
              localPart # domain # _ \<Rightarrow>
                if localPart = [] \<or> length localPart > 64 then False
                else if startsWith localPart ''.'' \<or> endsWith localPart ''.'' then False
                else if includesStr localPart ''..'' then False
                else if \<not> (\<forall>c \<in> set localPart. localPartChar c) then False
                else if domain = [] \<or> length domain > 255 then False
                else if startsWith domain ''.'' \<or> endsWith domain ''.''
                        \<or> startsWith domain ''-'' \<or> endsWith domain ''-'' then False
                else if includesStr domain ''..'' then False
                else if \<not> includesStr domain ''.'' then False
                else (let domainParts = splitChar CHR ''.'' domain
                      in if length domainParts < 2 then False
                         else if length (last domainParts) < 2 then False
                         else if (\<exists>c \<in> set email. isSpace c) then False
                         else if includesStr email ''@.'' \<or> includesStr email ''.@'' then False
                         else if (\<exists>invalidDomain \<in> set invalidDomains.
                                    endsWith email invalidDomain \<and> length localPart < 3) then False
                         else True)
            | _ \<Rightarrow> False))"

definition alnumRe :: re where
  "alnumRe = Cls (\<lambda>c. isUpperAZ c \<or> isLowerAZ c \<or> isDigit c)"
definition localRe :: re where
  "localRe = Cls localPartChar"
definition domainRe :: re where
  "domainRe = Cls (\<lambda>c. isUpperAZ c \<or> isLowerAZ c \<or> isDigit c \<or> c \<in> set ''.-'')"
definition alphaRe :: re where
  "alphaRe = Cls (\<lambda>c. isUpperAZ c \<or> isLowerAZ c)"

text \<open>
  \<^verbatim>\<open>/\b[A-Za-z0-9][A-Za-z0-9._%-]*@[A-Za-z0-9][A-Za-z0-9.-]*\.[A-Z|a-z]{2,}\b/g\<close>
  (the last class holds the bar as well)
\<close>

definition emailRegex1 :: regex where
  "emailRegex1 =
     (False, Seqs [WordB, alnumRe, Star localRe, Chr CHR ''@'', alnumRe, Star domainRe,
                   Chr CHR ''.'', AtLeast 2 (Cls (\<lambda>c. isUpperAZ c \<or> c = CHR ''|'' \<or> isLowerAZ c)),
                   WordB])"

definition emailBody :: re where
  "emailBody = Seqs [alnumRe, Plus localRe, Chr CHR ''@'', alnumRe, Plus domainRe,
                     Chr CHR ''.'', AtLeast 2 alphaRe]"

text \<open>
  \<^verbatim>\<open>/(?:email|e-mail|mail|contact|id|e\.?mail)[\s:]*([A-Za-z0-9][A-Za-z0-9._%-]+@[A-Za-z0-9][A-Za-z0-9.-]+\.[A-Za-z]{2,})/gi\<close>
\<close>

definition emailRegex2 :: regex where
  "emailRegex2 =
     (True, Seqs [Alts [Lit ''email'', Lit ''e-mail'', Lit ''mail'', Lit ''contact'', Lit ''id'',
                        Seqs [Chr CHR ''e'', Opt (Chr CHR ''.''), Lit ''mail'']],
                  Star (Cls (\<lambda>c. isSpace c \<or> c = CHR '':'')),
                  Grp 1 emailBody])"

text \<open>
  \<^verbatim>\<open>/[\[\(]([A-Za-z0-9][A-Za-z0-9._%-]+@[A-Za-z0-9][A-Za-z0-9.-]+\.[A-Za-z]{2,})[\]\)]/g\<close>
\<close>

definition emailRegex3 :: regex where
  "emailRegex3 = (False, Seqs [OneOf ''[('', Grp 1 emailBody, OneOf ''])''])"

text \<open>
  \<^verbatim>\<open>/([A-Za-z0-9._%-]+)\s*@\s*([A-Za-z0-9.-]+)\s*\.\s*([A-Za-z]{2,})/g\<close>
\<close>

definition emailRegex4 :: regex where
  "emailRegex4 =
     (False, Seqs [Grp 1 (Plus localRe), Star spaceRe, Chr CHR ''@'', Star spaceRe,
                   Grp 2 (Plus domainRe), Star spaceRe, Chr CHR ''.'', Star spaceRe,
                   Grp 3 (AtLeast 2 alphaRe)])"

text \<open>
  \<^verbatim>\<open>/\b(?:email|e-mail|mail|contact|reach|write)/i\<close>
\<close>

definition emailKeywordRx :: regex where
  "emailKeywordRx =
     (True, Seqs [WordB, Alts (map Lit [''email'', ''e-mail'', ''mail'', ''contact'',
                                          ''reach'', ''write''])])"

definition groupStr :: "rmatch \<Rightarrow> nat \<Rightarrow> string" where
  \<comment> \<open>\<open>m[k]\<close> for a group that takes part in every match of its pattern\<close>
  "groupStr m k = (case group m k of None \<Rightarrow> [] | Some g \<Rightarrow> g)"

definition addEmail :: "string list \<Rightarrow> string \<Rightarrow> string list" where
  \<comment> \<open>\<open>const email = raw.toLowerCase().trim(); if (isValidEmail(email)) emails.add(email)\<close>\<close>
  "addEmail emails raw =
     (let email = trim (toLowerCase raw) in if isValidEmail email then setAdd emails email else emails)"

definition joinLines :: "string list \<Rightarrow> string" where
  \<comment> \<open>\<open>lines.join('\n')\<close>\<close>
  "joinLines ls = (case ls of [] \<Rightarrow> [] | l # rest \<Rightarrow> foldl (\<lambda>acc x. acc @ newline # x) l rest)"

definition extractEmailsFromText :: "string \<Rightarrow> string list" where
  "extractEmailsFromText text =
     (let cleanedText = collapseSpaces text;
          emails1 = foldl (\<lambda>emails pattern.
                             foldl (\<lambda>es m. addEmail es (groupOr0 m)) emails (matchAll pattern cleanedText))
                          [] [emailRegex1, emailRegex2, emailRegex3];
          emails2 = foldl (\<lambda>es m. addEmail es (groupStr m 1 @ ''@'' @ groupStr m 2 @ ''.'' @ groupStr m 3))
                          emails1 (matchAll emailRegex4 cleanedText);
          lines = splitLines text;
          emails3 = foldl (\<lambda>emails i.
                             if test emailKeywordRx (toLowerCase (lines ! i))
                             then foldl (\<lambda>es line. foldl addEmail es (map fst (matchAll emailRegex1 line)))
                                        emails (window3 lines i)
                             else emails)
                          emails2 [0 ..< length lines];
          headerLines = joinLines (take 30 lines)
      in foldl addEmail emails3 (map fst (matchAll emailRegex1 headerLines)))"

section \<open>\<open>extractContactInfo\<close>\<close>

definition contactCleanText :: "string \<Rightarrow> string" where
  \<comment> \<open>\<open>text.replace(/\s+/g, ' ').replace(/[^\S\r\n]+/g, ' ').trim()\<close>\<close>
  "contactCleanText text =
     trim (collapseRuns (\<lambda>c. isSpace c \<and> c \<noteq> CHR 0x0D \<and> c \<noteq> CHR 0x0A) (collapseSpaces text))"

record contactInfo =
  contact_email :: string
  contact_phone :: string

definition firstOrEmpty :: "string list \<Rightarrow> string" where
  \<comment> \<open>\<open>xs[0] || ''\<close>\<close>
  "firstOrEmpty xs = (case xs of [] \<Rightarrow> [] | x # _ \<Rightarrow> x)"

definition extractContactInfo :: "string \<Rightarrow> contactInfo" where
  "extractContactInfo text =
     (let cleanText = contactCleanText text;
          emails = extractEmailsFromText cleanText;
          phones = extractPhonesFromText cleanText
      in \<lparr> contact_email = firstOrEmpty emails, contact_phone = firstOrEmpty phones \<rparr>)"


section \<open>Skill extraction (the document parser, \<open>src/unnamed/part_000\<close>)\<close>

definition skillKeywords :: "string list" where
  "skillKeywords =
     [''Python'', ''Java'', ''JavaScript'', ''TypeScript'', ''C++'', ''C#'', ''PHP'',
      ''Ruby'', ''Go'', ''Rust'', ''Swift'', ''Kotlin'', ''Scala'', ''R'', ''MATLAB'',
      ''Perl'', ''Objective-C'', ''Dart'', ''Elixir'', ''React'', ''Angular'', ''Vue'',
      ''Vue.js'', ''Svelte'', ''Next.js'', ''Nuxt.js'', ''Gatsby'', ''HTML'', ''HTML5'',
      ''CSS'', ''CSS3'', ''SASS'', ''SCSS'', ''LESS'', ''Tailwind CSS'', ''Bootstrap'',
      ''Material UI'', ''Chakra UI'', ''Ant Design'', ''jQuery'', ''Webpack'', ''Vite'',
      ''Babel'', ''Redux'', ''MobX'', ''Zustand'', ''Recoil'', ''Context API'', ''Node.js'',
      ''Express'', ''Express.js'', ''Django'', ''Flask'', ''FastAPI'', ''Spring'',
      ''Spring Boot'', ''.NET'', ''.NET Core'', ''ASP.NET'', ''Laravel'', ''Symfony'',
      ''Ruby on Rails'', ''Sinatra'', ''NestJS'', ''Koa'', ''Hapi'', ''Fastify'', ''SQL'',
      ''MySQL'', ''PostgreSQL'', ''MongoDB'', ''Redis'', ''Cassandra'', ''Oracle'',
      ''SQL Server'', ''MariaDB'', ''SQLite'', ''DynamoDB'', ''Elasticsearch'', ''Neo4j'',
      ''CouchDB'', ''Firebase'', ''Supabase'', ''PlanetScale'', ''Fauna'', ''NoSQL'',
      ''AWS'', ''Azure'', ''GCP'', ''Google Cloud'', ''Docker'', ''Kubernetes'',
      ''Jenkins'', ''GitLab CI'', ''GitHub Actions'', ''CircleCI'', ''Travis CI'',
      ''Terraform'', ''Ansible'', ''Chef'', ''Puppet'', ''CloudFormation'', ''CI/CD'',
      ''DevOps'', ''Linux'', ''Unix'', ''Bash'', ''Lambda'', ''S3'', ''EC2'', ''ECS'',
      ''EKS'', ''RDS'', ''DynamoDB'', ''CloudFront'', ''Route 53'', ''API Gateway'',
      ''SQS'', ''SNS'', ''CloudWatch'', ''IAM'', ''VPC'', ''Elastic Beanstalk'',
      ''Machine Learning'', ''Deep Learning'', ''AI'', ''Artificial Intelligence'',
      ''Data Science'', ''TensorFlow'', ''PyTorch'', ''Keras'', ''Scikit-learn'',
      ''Pandas'', ''NumPy'', ''SciPy'', ''Matplotlib'', ''Seaborn'', ''NLP'',
      ''Computer Vision'', ''OpenCV'', ''NLTK'', ''spaCy'', ''Jest'', ''Mocha'', ''Chai'',
      ''Jasmine'', ''Cypress'', ''Selenium'', ''Playwright'', ''Puppeteer'', ''JUnit'',
      ''pytest'', ''unittest'', ''TestNG'', ''Karma'', ''Enzyme'', ''React Native'',
      ''Flutter'', ''iOS'', ''Android'', ''Swift'', ''Kotlin'', ''Xamarin'', ''Ionic'',
      ''Git'', ''GitHub'', ''GitLab'', ''Bitbucket'', ''SVN'', ''Mercurial'', ''Jira'',
      ''Confluence'', ''Trello'', ''Asana'', ''Slack'', ''REST'', ''REST API'', ''RESTful'',
      ''GraphQL'', ''gRPC'', ''SOAP'', ''WebSocket'', ''Socket.io'', ''JSON'', ''XML'',
      ''Microservices'', ''API Design'', ''UI/UX'', ''Figma'', ''Sketch'', ''Adobe XD'',
      ''Photoshop'', ''Illustrator'', ''InVision'', ''Zeplin'', ''Responsive Design'',
      ''Web Design'', ''Agile'', ''Scrum'', ''Kanban'', ''Waterfall'', ''TDD'', ''BDD'',
      ''DDD'', ''SOLID'', ''Blockchain'', ''Web3'', ''Solidity'', ''Smart Contracts'',
      ''Ethereum'', ''Big Data'', ''Hadoop'', ''Spark'', ''Kafka'', ''RabbitMQ'', ''Nginx'',
      ''Apache'', ''OAuth'', ''JWT'', ''GDPR'', ''Security'', ''Penetration Testing'',
      ''Cryptography'']"

definition keywordRx :: "string \<Rightarrow> regex" where
  \<comment> \<open>\<open>new RegExp(`\\b${escaped skill}\\b`, 'i')\<close>: the skill as a literal between two \<open>\b\<close>\<close>
  "keywordRx skill = (True, Seqs [WordB, Lit skill, WordB])"

definition skillCharRe :: re where
  "skillCharRe = Cls (\<lambda>c. isUpperAZ c \<or> isLowerAZ c \<or> isDigit c \<or> isSpace c \<or> c \<in> set ''.+/#-'')"

text \<open>
  The nine contextual patterns have one form,
  \<^verbatim>\<open>/HEAD\s+([A-Za-z0-9\.\+\/#\s-]+?)(?:\s+(?:TAILS))/gi\<close>,
  with these heads and tails, in the order of the source:
  \<^enum> \<^verbatim>\<open>experience\s+(?:in|with)\<close>, tails \<^verbatim>\<open>and|,|\.|;|for|to|in\s+order\<close>
  \<^enum> \<^verbatim>\<open>knowledge\s+of\<close>, tails \<^verbatim>\<open>and|,|\.|;|for|to\<close>
  \<^enum> \<^verbatim>\<open>proficient\s+(?:in|with)\<close>, the same tails
  \<^enum> \<^verbatim>\<open>skilled\s+(?:in|with)\<close>, the same tails
  \<^enum> \<^verbatim>\<open>expertise\s+(?:in|with)\<close>, the same tails
  \<^enum> \<^verbatim>\<open>familiar\s+(?:with|in)\<close>, the same tails
  \<^enum> \<^verbatim>\<open>understanding\s+of\<close>, the same tails
  \<^enum> \<^verbatim>\<open>using\<close>, tails \<^verbatim>\<open>and|,|\.|;|for|to|in\<close>
  \<^enum> \<^verbatim>\<open>worked\s+with\<close>, tails \<^verbatim>\<open>and|,|\.|;|for|to\<close>
\<close>

definition contextRx :: "re list \<Rightarrow> re list \<Rightarrow> regex" where
  "contextRx hd_res tails =
     (True, Seqs (hd_res @ [Plus spaceRe, Grp 1 (PlusLazy skillCharRe), Plus spaceRe, Alts tails]))"

definition commonTails :: "re list" where
  "commonTails = map Lit [''and'', '','', ''.'', '';'', ''for'', ''to'']"

definition experiencePatterns :: "regex list" where
  "experiencePatterns =
     [contextRx [Lit ''experience'', Plus spaceRe, Alt (Lit ''in'') (Lit ''with'')]
                (commonTails @ [Seqs [Lit ''in'', Plus spaceRe, Lit ''order'']]),
      contextRx [Lit ''knowledge'', Plus spaceRe, Lit ''of''] commonTails,
      contextRx [Lit ''proficient'', Plus spaceRe, Alt (Lit ''in'') (Lit ''with'')] commonTails,
      contextRx [Lit ''skilled'', Plus spaceRe, Alt (Lit ''in'') (Lit ''with'')] commonTails,
      contextRx [Lit ''expertise'', Plus spaceRe, Alt (Lit ''in'') (Lit ''with'')] commonTails,
      contextRx [Lit ''familiar'', Plus spaceRe, Alt (Lit ''with'') (Lit ''in'')] commonTails,
      contextRx [Lit ''understanding'', Plus spaceRe, Lit ''of''] commonTails,
      contextRx [Lit ''using''] (commonTails @ [Lit ''in'']),
      contextRx [Lit ''worked'', Plus spaceRe, Lit ''with''] commonTails]"

text \<open>
  \<open>s.split(rx)\<close> for a pattern without groups: the text is cut at every match that is not
  an empty match at the start of the current piece; no match is tried at the end of the
  text. \<open>acc\<close> is the current piece, reversed.
\<close>

function splitReFrom :: "regex \<Rightarrow> char option \<Rightarrow> string \<Rightarrow> string \<Rightarrow> string list" where
  "splitReFrom rx p acc [] = [rev acc]"
| "splitReFrom rx p acc (x # xs) =
     (case execAt rx p (x # xs) of
        None \<Rightarrow> splitReFrom rx (Some x) (x # acc) xs
      | Some (n, c) \<Rightarrow>
          if n = 0 then
            (if acc = [] then splitReFrom rx (Some x) (x # acc) xs
             else rev acc # splitReFrom rx p [] (x # xs))
          else if n > length (x # xs) then [rev acc]
          else rev acc # splitReFrom rx (Some ((x # xs) ! (n - 1))) [] (drop n (x # xs)))"
  by pat_completeness auto
termination
  by (relation "measure (\<lambda>(rx, p, acc, rest). 2 * length rest + (if acc = [] then 0 else 1))") auto

definition splitRe :: "regex \<Rightarrow> string \<Rightarrow> string list" where
  "splitRe rx s =
     (if s = [] then (if execAt rx None [] \<noteq> None then [] else [[]])
      else splitReFrom rx None [] s)"

definition listSeparatorRx :: regex where
  \<comment> \<open>the separator of \<open>potentialSkills\<close>: white space, \<open>and\<close> or \<open>or\<close>, white space; or a comma and white space\<close>
  "listSeparatorRx =
     (False, Alt (Seqs [Plus spaceRe, Alt (Lit ''and'') (Lit ''or''), Plus spaceRe])
                 (Seq (Chr CHR '','') (Star spaceRe)))"

definition potentialSkills :: "string \<Rightarrow> string list" where
  "potentialSkills g =
     filter (\<lambda>s. length s > 2 \<and> length s < 30) (map trim (splitRe listSeparatorRx g))"

definition bulletRegex :: regex where
  \<comment> \<open>a bullet (\<open>-\<close> or \<open>*\<close>), white space, and the run up to the next bullet or newline\<close>
  "bulletRegex =
     (False, Seqs [OneOf ''-*'', Star spaceRe,
                   Grp 1 (Plus (Cls (\<lambda>c. c \<noteq> newline \<and> c \<notin> set ''-*'')))])"

definition addKnownSkills :: "string list \<Rightarrow> string \<Rightarrow> string list" where
  \<comment> \<open>the loop over \<open>skillKeywords\<close> for one candidate phrase\<close>
  "addKnownSkills found skill =
     foldl (\<lambda>f knownSkill.
              if includesStr (toLowerCase skill) (toLowerCase knownSkill)
                 \<or> includesStr (toLowerCase knownSkill) (toLowerCase skill)
              then setAdd f knownSkill else f)
           found skillKeywords"

definition addBulletSkills :: "string list \<Rightarrow> rmatch \<Rightarrow> string list" where
  "addBulletSkills found bullet =
     (let bulletText = toLowerCase (groupStr bullet 1)
      in foldl (\<lambda>f skill. if includesStr bulletText (toLowerCase skill) then setAdd f skill else f)
               found skillKeywords)"

definition addContextSkills :: "string list \<Rightarrow> rmatch \<Rightarrow> string list" where
  \<comment> \<open>\<open>if (match[1]) { ... }\<close>\<close>
  "addContextSkills found m =
     (case group m 1 of
        None \<Rightarrow> found
      | Some g \<Rightarrow> if g = [] then found else foldl addKnownSkills found (potentialSkills g))"

definition extractSkillsFromText :: "string \<Rightarrow> bool \<Rightarrow> bool \<Rightarrow> string list" where
  "extractSkillsFromText text isJobDescription aggressive =
     (let found1 = foldl (\<lambda>found skill. if test (keywordRx skill) text then setAdd found skill else found)
                         [] skillKeywords
      in if aggressive
         then (let found2 = foldl (\<lambda>found pattern. foldl addContextSkills found (matchAll pattern text))
                                  found1 experiencePatterns
               in foldl addBulletSkills found2 (matchAll bulletRegex text))
         else found1)"

section \<open>Double-precision arithmetic for the score\<close>

text \<open>
  The score is \<open>Math.round((matchCount / n) * 100)\<close> on IEEE doubles: the quotient is
  rounded to the nearest double (ties to even), the product is rounded again, and
  \<open>Math.round\<close> takes the exact floor of that double plus one half. A non-negative double is
  modelled by the pair \<open>(m, s)\<close> of naturals that stands for \<open>m / 2 ^ s\<close>; \<open>toDouble a b\<close> is
  the double nearest to the exact quotient \<open>a / b\<close>, with a 53-bit significand. Subnormal
  and infinite results need quotients below \<open>2 ^ -1022\<close> or above \<open>2 ^ 1023\<close> and do not
  arise from array lengths; \<open>b = 0\<close> does not arise either (the source returns before it
  divides by an empty list's length).
\<close>

type_synonym double = "nat \<times> nat"

definition binaryExponent :: "nat \<Rightarrow> nat \<Rightarrow> int" where
  \<comment> \<open>\<open>\<lfloor>log\<^sub>2 (a / b)\<rfloor>\<close> for positive \<open>a\<close> and \<open>b\<close>\<close>
  "binaryExponent a b =
     (let k = int (bitLength a) - int (bitLength b)
      in if (if k \<ge> 0 then a \<ge> b * 2 ^ nat k else a * 2 ^ nat (- k) \<ge> b) then k else k - 1)"

definition toDouble :: "nat \<Rightarrow> nat \<Rightarrow> double" where
  "toDouble a b =
     (if a = 0 \<or> b = 0 then (0, 0)
      else (let e = binaryExponent a b - 52
            in if e \<ge> 0 then (roundHalfEven a (b * 2 ^ nat e) * 2 ^ nat e, 0)
               else (roundHalfEven (a * 2 ^ nat (- e)) b, nat (- e))))"

definition divDouble :: "nat \<Rightarrow> nat \<Rightarrow> double" where
  \<comment> \<open>\<open>a / b\<close> on two integers held exactly\<close>
  "divDouble a b = toDouble a b"

definition mulDouble :: "double \<Rightarrow> nat \<Rightarrow> double" where
  \<comment> \<open>\<open>x * c\<close> for a double and an integer held exactly\<close>
  "mulDouble x c = toDouble (fst x * c) (2 ^ snd x)"

definition mathRound :: "double \<Rightarrow> nat" where
  \<comment> \<open>\<open>Math.round(x)\<close>: \<open>\<lfloor>x + 1/2\<rfloor>\<close>\<close>
  "mathRound x = (2 * fst x + 2 ^ snd x) div (2 ^ (snd x + 1))"

definition percentage :: "nat \<Rightarrow> nat \<Rightarrow> nat" where
  \<comment> \<open>\<open>Math.round((matchCount / n) * 100)\<close>\<close>
  "percentage matchCount n = mathRound (mulDouble (divDouble matchCount n) 100)"

section \<open>The skill match scorer (\<open>geminiParser.ts\<close> and \<open>CandidateTable.tsx\<close>)\<close>

text \<open>
  The two copies of \<open>calculateMatchPercentage\<close> have the same statements; the copy in
  \<open>geminiParser.ts\<close> also prints one console line for each match, kept here as the list of
  match events. An entry of a skill array is a string or, at run time, some other value
  that the filter \<open>typeof skill === 'string'\<close> removes.
\<close>

datatype jsval = JStr string | JOther

datatype matchEvent =
    ExactMatch string
  | PartialMatch string
  | SubstantialMatch string string
  | EquivalentMatch string

record matchState =
  matchedSkills :: "string list"
  matchCount :: nat
  matchLog :: "matchEvent list"

fun stringEntries :: "jsval list \<Rightarrow> string list" where
  "stringEntries [] = []"
| "stringEntries (JStr s # vs) = s # stringEntries vs"
| "stringEntries (JOther # vs) = stringEntries vs"

definition normalizeSkills :: "jsval list \<Rightarrow> string list" where
  \<comment> \<open>\<open>.filter(skill => typeof skill === 'string').map(skill => skill.toLowerCase().trim())\<close>\<close>
  "normalizeSkills skills = map (\<lambda>skill. trim (toLowerCase skill)) (stringEntries skills)"

definition hit :: "matchState \<Rightarrow> string \<Rightarrow> matchEvent \<Rightarrow> matchState" where
  \<comment> \<open>\<open>matchCount++; matchedSkills.set(requiredSkill, true); console.log(...)\<close>\<close>
  "hit st requiredSkill ev =
     st\<lparr> matchCount := matchCount st + 1,
         matchedSkills := List.insert requiredSkill (matchedSkills st),
         matchLog := matchLog st @ [ev] \<rparr>"

definition hasAllParts :: "string list \<Rightarrow> string \<Rightarrow> bool" where
  "hasAllParts normalizedCandidateSkills requiredSkill =
     (\<exists>candidateSkill \<in> set normalizedCandidateSkills.
        \<forall>part \<in> set (splitChar CHR '' '' requiredSkill). includesStr candidateSkill part)"

definition isSubstantialMatch :: "string \<Rightarrow> string \<Rightarrow> bool" where
  "isSubstantialMatch candidateSkill requiredSkill =
     ((includesStr candidateSkill ('' '' @ requiredSkill @ '' '')
       \<or> startsWith candidateSkill (requiredSkill @ '' '')
       \<or> endsWith candidateSkill ('' '' @ requiredSkill)
       \<or> candidateSkill = requiredSkill)
      \<or> (includesStr requiredSkill ('' '' @ candidateSkill @ '' '')
          \<or> startsWith requiredSkill (candidateSkill @ '' '')
          \<or> endsWith requiredSkill ('' '' @ candidateSkill)
          \<or> requiredSkill = candidateSkill))"

definition technologyEquivalents :: "string list list" where
  "technologyEquivalents =
     [[''sql'', ''mysql'', ''postgresql'', ''ms sql'', ''sql server''],
      [''aws'', ''amazon web services''],
      [''gcp'', ''google cloud platform'', ''google cloud''],
      [''azure'', ''microsoft azure''],
      [''react'', ''react.js''],
      [''vue'', ''vue.js''],
      [''angular'', ''angular.js''],
      [''node'', ''node.js''],
      [''ml'', ''machine learning''],
      [''ai'', ''artificial intelligence''],
      [''ci/cd'', ''continuous integration'', ''continuous deployment''],
      [''k8s'', ''kubernetes'']]"

definition hasEquivalent :: "string list \<Rightarrow> string list \<Rightarrow> bool" where
  "hasEquivalent normalizedCandidateSkills equivalentGroup =
     (\<exists>candidateSkill \<in> set normalizedCandidateSkills.
        \<exists>equivalent \<in> set equivalentGroup.
          candidateSkill = equivalent
          \<or> startsWith candidateSkill (equivalent @ '' '')
          \<or> endsWith candidateSkill ('' '' @ equivalent)
          \<or> includesStr candidateSkill ('' '' @ equivalent @ '' ''))"

definition exactStep :: "string list \<Rightarrow> matchState \<Rightarrow> string \<Rightarrow> matchState" where
  \<comment> \<open>the body of the first loop\<close>
  "exactStep nc st requiredSkill =
     (if requiredSkill \<in> set nc then hit st requiredSkill (ExactMatch requiredSkill) else st)"

definition middleStep :: "string list \<Rightarrow> matchState \<Rightarrow> string \<Rightarrow> matchState" where
  \<comment> \<open>the body of the second loop: compound terms, then the scan of the candidates for a
      substantial match, which stops at the first one\<close>
  "middleStep nc st requiredSkill =
     (if requiredSkill \<in> set (matchedSkills st) then st
      else if includesStr requiredSkill '' '' \<and> hasAllParts nc requiredSkill
      then hit st requiredSkill (PartialMatch requiredSkill)
      else (case find (\<lambda>candidateSkill. isSubstantialMatch candidateSkill requiredSkill) nc of
              Some candidateSkill \<Rightarrow> hit st requiredSkill (SubstantialMatch requiredSkill candidateSkill)
            | None \<Rightarrow> st))"

definition equivalentStep :: "string list \<Rightarrow> matchState \<Rightarrow> string \<Rightarrow> matchState" where
  \<comment> \<open>the body of the third loop: the first group that holds the skill and has an
      equivalent among the candidates ends the scan of the groups\<close>
  "equivalentStep nc st requiredSkill =
     (if requiredSkill \<in> set (matchedSkills st) then st
      else (case find (\<lambda>equivalentGroup. requiredSkill \<in> set equivalentGroup
                          \<and> hasEquivalent nc equivalentGroup) technologyEquivalents of
              Some equivalentGroup \<Rightarrow> hit st requiredSkill (EquivalentMatch requiredSkill)
            | None \<Rightarrow> st))"

definition matchRun :: "string list \<Rightarrow> string list \<Rightarrow> matchState" where
  \<comment> \<open>the three loops over \<open>normalizedRequiredSkills\<close>, one after the other\<close>
  "matchRun nc nr =
     (let st0 = \<lparr> matchedSkills = [], matchCount = 0, matchLog = [] \<rparr>;
          st1 = foldl (exactStep nc) st0 nr;
          st2 = foldl (middleStep nc) st1 nr
      in foldl (equivalentStep nc) st2 nr)"

definition calculateMatchPercentage :: "jsval list \<Rightarrow> jsval list \<Rightarrow> nat" where
  "calculateMatchPercentage candidateSkills requiredSkills =
     (if requiredSkills = [] then 0
      else if candidateSkills = [] then 0
      else (let normalizedRequiredSkills = normalizeSkills requiredSkills;
                normalizedCandidateSkills = normalizeSkills candidateSkills
            in if normalizedRequiredSkills = [] then 0
               else percentage (matchCount (matchRun normalizedCandidateSkills normalizedRequiredSkills))
                               (length normalizedRequiredSkills)))"

definition matchEvents :: "jsval list \<Rightarrow> jsval list \<Rightarrow> matchEvent list" where
  \<comment> \<open>the match lines that the call prints, in order (\<open>geminiParser.ts\<close>)\<close>
  "matchEvents candidateSkills requiredSkills =
     (if requiredSkills = [] \<or> candidateSkills = [] \<or> normalizeSkills requiredSkills = [] then []
      else matchLog (matchRun (normalizeSkills candidateSkills) (normalizeSkills requiredSkills)))"


section \<open>Dates\<close>

text \<open>
  A \<open>Date\<close> is its time value: the milliseconds since the start of 1 January 1970, taken
  on the local time line, whose offset from UTC the model takes to be constant.
  \<open>new Date()\<close> reads the clock; the current time is the parameter \<open>now\<close> of the
  functions below. \<open>new Date(string)\<close> for a string that is no ISO date is left to the
  implementation by the language; it is the parameter \<open>dateParse\<close>, with \<open>None\<close> for an
  invalid date.
\<close>

definition msPerDay :: int where
  "msPerDay = 86400000"

definition daysFromCivil :: "int \<Rightarrow> int \<Rightarrow> int \<Rightarrow> int" where
  \<comment> \<open>the day number of year \<open>y\<close>, month \<open>m\<close> (1 to 12), day \<open>d\<close>; day 0 is 1 January 1970\<close>
  "daysFromCivil y m d =
     (let y1 = (if m \<le> 2 then y - 1 else y);
          era = y1 div 400;
          yoe = y1 - era * 400;
          mp = (if m > 2 then m - 3 else m + 9);
          doy = (153 * mp + 2) div 5 + d - 1;
          doe = yoe * 365 + yoe div 4 - yoe div 100 + doy
      in era * 146097 + doe - 719468)"

definition civilFromDays :: "int \<Rightarrow> int \<times> int \<times> int" where
  \<comment> \<open>year, month (1 to 12) and day of a day number\<close>
  "civilFromDays z =
     (let z1 = z + 719468;
          era = z1 div 146097;
          doe = z1 - era * 146097;
          yoe = (doe - doe div 1460 + doe div 36524 - doe div 146096) div 365;
          doy = doe - (365 * yoe + yoe div 4 - yoe div 100);
          mp = (5 * doy + 2) div 153;
          d = doy - (153 * mp + 2) div 5 + 1;
          m = (if mp < 10 then mp + 3 else mp - 9)
      in (if m \<le> 2 then yoe + era * 400 + 1 else yoe + era * 400, m, d))"

definition makeDate :: "int \<Rightarrow> int \<Rightarrow> int \<Rightarrow> int" where
  \<comment> \<open>\<open>new Date(year, monthIndex, day)\<close>: a year from 0 to 99 means 1900 + year, a month
      index outside 0 to 11 carries into the year\<close>
  "makeDate year monthIndex day =
     (let y = (if 0 \<le> year \<and> year \<le> 99 then 1900 + year else year) + monthIndex div 12;
          m = monthIndex mod 12
      in (daysFromCivil y (m + 1) 1 + (day - 1)) * msPerDay)"

definition getFullYear :: "int \<Rightarrow> int" where
  "getFullYear t = fst (civilFromDays (t div msPerDay))"

definition getMonth :: "int \<Rightarrow> int" where
  "getMonth t = fst (snd (civilFromDays (t div msPerDay))) - 1"

section \<open>The experience estimator (\<open>geminiParser.ts\<close>)\<close>

function showNat :: "nat \<Rightarrow> string" where
  "showNat n = (if n < 10 then [''0123456789'' ! n] else showNat (n div 10) @ [''0123456789'' ! (n mod 10)])"
  by pat_completeness auto
termination
  by (relation "measure id") auto

declare showNat.simps [simp del]

definition showInt :: "int \<Rightarrow> string" where
  \<comment> \<open>\<open>String(n)\<close> for an integer\<close>
  "showInt i = (if i < 0 then CHR ''-'' # showNat (nat (- i)) else showNat (nat i))"

definition dashRe :: re where
  \<comment> \<open>the class of the hyphen, the en dash and the em dash; only the hyphen is an 8-bit
      character\<close>
  "dashRe = Chr CHR ''-''"

definition nowWords :: re where
  "nowWords = Alts [Lit ''present'', Lit ''current'', Lit ''now'']"

text \<open>
  \<^verbatim>\<open>/\b(20\d{2})\s*[-\u2013\u2014]\s*(20\d{2}|present|current|now)\b/i\<close>
\<close>

definition yearRangeRx :: regex where
  "yearRangeRx =
     (True, Seqs [WordB, Grp 1 (Seq (Lit ''20'') (Times 2 2 digitRe)),
                  Star spaceRe, dashRe, Star spaceRe,
                  Grp 2 (Alt (Seq (Lit ''20'') (Times 2 2 digitRe)) nowWords),
                  WordB])"

text \<open>
  The four patterns of \<open>calculateExperienceFromWorkHistory\<close>:
  \<^enum> \<^verbatim>\<open>/(\d{1,2}\/\d{4})\s*[-\u2013\u2014]\s*(\d{1,2}\/\d{4}|present|current|now)/gi\<close>
  \<^enum> \<^verbatim>\<open>/(\d{4})\s*[-\u2013\u2014]\s*(\d{4}|present|current|now)/gi\<close>
  \<^enum> \<^verbatim>\<open>/(january|...|december)\s+\d{4}\s*[-\u2013\u2014]\s*(january|...|december)\s+\d{4}|present|current|now/gi\<close>
  \<^enum> \<^verbatim>\<open>/(jan|...|dec)\s+\d{4}\s*[-\u2013\u2014]\s*(jan|...|dec)\s+\d{4}|present|current|now/gi\<close>

  In the last two the bar binds weakest: the alternatives are a whole month range, or the
  bare word \<open>present\<close>, \<open>current\<close> or \<open>now\<close>, and the groups hold the month names only.
\<close>

definition monthYearRe :: re where
  \<comment> \<open>\<open>\d{1,2}\/\d{4}\<close>\<close>
  "monthYearRe = Seqs [Times 1 2 digitRe, Chr CHR ''/'', Times 4 4 digitRe]"

definition monthNames :: "string list" where
  "monthNames = [''january'', ''february'', ''march'', ''april'', ''may'', ''june'', ''july'',
                 ''august'', ''september'', ''october'', ''november'', ''december'']"

definition monthAbbrevs :: "string list" where
  "monthAbbrevs = [''jan'', ''feb'', ''mar'', ''apr'', ''may'', ''jun'', ''jul'', ''aug'', ''sep'',
                   ''oct'', ''nov'', ''dec'']"

definition monthRangeRx :: "string list \<Rightarrow> regex" where
  "monthRangeRx names =
     (True, Alts [Seqs [Grp 1 (Alts (map Lit names)), Plus spaceRe, Times 4 4 digitRe,
                        Star spaceRe, dashRe, Star spaceRe,
                        Grp 2 (Alts (map Lit names)), Plus spaceRe, Times 4 4 digitRe],
                  Lit ''present'', Lit ''current'', Lit ''now''])"

definition monthYearRangeRx :: regex where
  "monthYearRangeRx =
     (True, Seqs [Grp 1 monthYearRe, Star spaceRe, dashRe, Star spaceRe,
                  Grp 2 (Alt monthYearRe nowWords)])"

definition yearOnlyRangeRx :: regex where
  "yearOnlyRangeRx =
     (True, Seqs [Grp 1 (Times 4 4 digitRe), Star spaceRe, dashRe, Star spaceRe,
                  Grp 2 (Alt (Times 4 4 digitRe) nowWords)])"

definition datePatterns :: "regex list" where
  "datePatterns =
     [monthYearRangeRx, yearOnlyRangeRx, monthRangeRx monthNames, monthRangeRx monthAbbrevs]"

definition fourDigits :: "string \<Rightarrow> bool" where
  \<comment> \<open>\<open>/^\d{4}$/.test(s)\<close>\<close>
  "fourDigits s = (length s = 4 \<and> (\<forall>c \<in> set s. isDigit c))"

definition monthSlashYear :: "string \<Rightarrow> int option" where
  \<comment> \<open>\<open>const [month, year] = s.split('/'); new Date(parseInt(year), parseInt(month) - 1, 1)\<close>;
      \<open>None\<close> is the invalid date of a \<open>NaN\<close> argument\<close>
  "monthSlashYear s =
     (case splitChar CHR ''/'' s of
        month # year # _ \<Rightarrow>
          (case (parseInt year, parseInt month) of
             (Some y, Some m) \<Rightarrow> Some (makeDate y (m - 1) 1)
           | _ \<Rightarrow> None)
      | _ \<Rightarrow> None)"

definition parseStart :: "(string \<Rightarrow> int option) \<Rightarrow> string \<Rightarrow> int option" where
  "parseStart dateParse startStr =
     (if includesStr startStr ''/'' then monthSlashYear startStr
      else if fourDigits startStr
      then (case parseInt startStr of Some y \<Rightarrow> Some (makeDate y 0 1) | None \<Rightarrow> None)
      else dateParse startStr)"

definition parseEnd :: "int \<Rightarrow> (string \<Rightarrow> int option) \<Rightarrow> string \<Rightarrow> int option" where
  "parseEnd now dateParse endStr =
     (if endStr = ''present'' \<or> endStr = ''current'' \<or> endStr = ''now'' then Some now
      else if includesStr endStr ''/'' then monthSlashYear endStr
      else if fourDigits endStr
      then (case parseInt endStr of Some y \<Rightarrow> Some (makeDate y 11 31) | None \<Rightarrow> None)
      else dateParse endStr)"

type_synonym period = "int \<times> int"

definition periodOfMatch :: "int \<Rightarrow> (string \<Rightarrow> int option) \<Rightarrow> rmatch \<Rightarrow> period list" where
  \<comment> \<open>the body of the \<open>try\<close>: a group that took no part in the match makes \<open>.trim()\<close> throw,
      and the \<open>catch\<close> goes on to the next match\<close>
  "periodOfMatch now dateParse m =
     (case (group m 1, group m 2) of
        (Some g1, Some g2) \<Rightarrow>
          (let startStr = trim g1;
               endStr = toLowerCase (trim g2)
           in (case (parseStart dateParse startStr, parseEnd now dateParse endStr) of
                 (Some startDate, Some endDate) \<Rightarrow>
                   if startDate \<le> endDate then [(startDate, endDate)] else []
               | _ \<Rightarrow> []))
      | _ \<Rightarrow> [])"

definition workPeriodsOf :: "int \<Rightarrow> (string \<Rightarrow> int option) \<Rightarrow> string \<Rightarrow> period list" where
  "workPeriodsOf now dateParse text =
     concat (map (\<lambda>pattern. concat (map (periodOfMatch now dateParse) (matchAll pattern text)))
                 datePatterns)"

definition oneMonth :: int where
  "oneMonth = 30 * 24 * 60 * 60 * 1000"

fun mergeLoop :: "period \<Rightarrow> period list \<Rightarrow> period list" where
  \<comment> \<open>the merge loop with \<open>currentPeriod\<close> as its first argument\<close>
  "mergeLoop currentPeriod [] = [currentPeriod]"
| "mergeLoop currentPeriod (nextPeriod # rest) =
     (if fst nextPeriod - snd currentPeriod \<le> oneMonth
      then mergeLoop (fst currentPeriod, max (snd currentPeriod) (snd nextPeriod)) rest
      else currentPeriod # mergeLoop nextPeriod rest)"

definition periodMonths :: "period \<Rightarrow> int" where
  "periodMonths p =
     (getFullYear (snd p) - getFullYear (fst p)) * 12 + (getMonth (snd p) - getMonth (fst p)) + 1"

definition yearsString :: "int \<Rightarrow> string" where
  \<comment> \<open>\<open>const totalYears = Math.round(totalMonths / 12); return totalYears > 0 ? totalYears.toString() : ''\<close>;
      a total that is not positive rounds to at most 0\<close>
  "yearsString totalMonths =
     (let totalYears = (if totalMonths \<le> 0 then 0 else mathRound (divDouble (nat totalMonths) 12))
      in if totalYears > 0 then showNat totalYears else [])"

definition calculateExperienceFromWorkHistory :: "int \<Rightarrow> (string \<Rightarrow> int option) \<Rightarrow> string \<Rightarrow> string" where
  "calculateExperienceFromWorkHistory now dateParse text =
     (let workPeriods = workPeriodsOf now dateParse text
      in if workPeriods = [] then []
         else (let sorted = sort_key fst workPeriods;
                   mergedPeriods = mergeLoop (hd sorted) (tl sorted);
                   totalMonths = sum_list (map periodMonths mergedPeriods)
               in yearsString totalMonths))"

definition extractExperienceYears :: "int \<Rightarrow> (string \<Rightarrow> int option) \<Rightarrow> string \<Rightarrow> string" where
  "extractExperienceYears now dateParse text =
     (case matchFirst yearRangeRx text of
        Some yearRangeMatch \<Rightarrow>
          (case (parseInt (groupStr yearRangeMatch 1),
                 if test (False, nowWords) (toLowerCase (groupStr yearRangeMatch 2))
                 then Some (getFullYear now)
                 else parseInt (groupStr yearRangeMatch 2)) of
             (Some startYear, Some endYear) \<Rightarrow> showInt (endYear - startYear)
           | _ \<Rightarrow> ''NaN'')
      | None \<Rightarrow> calculateExperienceFromWorkHistory now dateParse text)"


section \<open>Vocabulary for the properties of extracted phones\<close>

definition plausibleDigits :: "string \<Rightarrow> bool" where
  \<comment> \<open>neither one of the five fake sequences nor one digit repeated\<close>
  "plausibleDigits ds = (ds \<notin> set fakeSequences \<and> \<not> allSameDigit ds)"

definition phoneShape :: "string \<Rightarrow> bool" where
  \<comment> \<open>non-empty, a leading \<open>+\<close>, and 10 to 15 digits\<close>
  "phoneShape x = (x \<noteq> [] \<and> hd x = CHR ''+''
      \<and> 10 \<le> length (filter isDigit x) \<and> length (filter isDigit x) \<le> 15)"

definition phoneOk :: "string \<Rightarrow> bool" where
  "phoneOk x = (phoneShape x \<and> plausibleDigits (filter isDigit x))"

section \<open>Vocabulary for the properties of \<open>isValidEmail\<close>\<close>

definition finalLabel :: "string \<Rightarrow> string" where
  \<comment> \<open>the part of a domain after its last dot\<close>
  "finalLabel d = rev (takeWhile (\<lambda>c. c \<noteq> CHR ''.'') (rev d))"

definition emailShape :: "string \<Rightarrow> string \<Rightarrow> bool" where
  \<comment> \<open>the shape \<open>local@domain.tld\<close> that \<open>isValidEmail\<close> asks for, placeholders apart\<close>
  "emailShape l d =
     (5 \<le> length (l @ ''@'' @ d) \<and> length (l @ ''@'' @ d) \<le> 100
      \<and> l \<noteq> [] \<and> length l \<le> 64 \<and> hd l \<noteq> CHR ''.'' \<and> last l \<noteq> CHR ''.''
      \<and> \<not> includesStr l ''..'' \<and> (\<forall>c \<in> set l. localPartChar c)
      \<and> d \<noteq> [] \<and> hd d \<notin> set ''.-'' \<and> last d \<notin> set ''.-''
      \<and> \<not> includesStr d ''..'' \<and> CHR ''.'' \<in> set d \<and> 2 \<le> length (finalLabel d)
      \<and> (\<forall>c \<in> set d. \<not> isSpace c))"

definition placeholderSuffix :: "string \<Rightarrow> bool" where
  \<comment> \<open>the address ends with one of the eight placeholder strings\<close>
  "placeholderSuffix e = (\<exists>p \<in> set invalidDomains. endsWith e p)"

section \<open>Vocabulary for the properties of the skill match scorer\<close>

datatype tier = Exact | Partial | Substantial | Equivalent

definition exactTier :: "string list \<Rightarrow> string \<Rightarrow> bool" where
  "exactTier nc r = (r \<in> set nc)"

definition partialTier :: "string list \<Rightarrow> string \<Rightarrow> bool" where
  "partialTier nc r = (includesStr r '' '' \<and> hasAllParts nc r)"

definition substantialTier :: "string list \<Rightarrow> string \<Rightarrow> bool" where
  "substantialTier nc r = (\<exists>c \<in> set nc. isSubstantialMatch c r)"

definition equivalentTier :: "string list \<Rightarrow> string \<Rightarrow> bool" where
  "equivalentTier nc r = (\<exists>g \<in> set technologyEquivalents. r \<in> set g \<and> hasEquivalent nc g)"

definition firstTier :: "string list \<Rightarrow> string \<Rightarrow> tier option" where
  \<comment> \<open>the first tier, in the order exact, partial, substantial, equivalent, that matches \<open>r\<close>\<close>
  "firstTier nc r =
     (if exactTier nc r then Some Exact
      else if partialTier nc r then Some Partial
      else if substantialTier nc r then Some Substantial
      else if equivalentTier nc r then Some Equivalent
      else None)"

definition tierEvent :: "string list \<Rightarrow> string \<Rightarrow> matchEvent" where
  \<comment> \<open>the console line of the first tier that matches \<open>r\<close>\<close>
  "tierEvent nc r =
     (if exactTier nc r then ExactMatch r
      else if partialTier nc r then PartialMatch r
      else (case find (\<lambda>c. isSubstantialMatch c r) nc of
              Some c \<Rightarrow> SubstantialMatch r c
            | None \<Rightarrow> EquivalentMatch r))"

function firsts :: "string list \<Rightarrow> string list" where
  \<comment> \<open>the list without the later copies of its elements\<close>
  "firsts [] = []"
| "firsts (x # xs) = x # firsts (filter (\<lambda>y. y \<noteq> x) xs)"
  by pat_completeness auto
termination
  by (relation "measure length") (auto simp: less_Suc_eq_le)

definition matchOrder :: "string list \<Rightarrow> string list \<Rightarrow> string list" where
  \<comment> \<open>the required skills that the three loops of the source count, in the order in which
      they count them: every entry with an exact match; then the first copy of every
      skill whose first tier is partial or substantial; then the first copy of every skill
      whose first tier is the equivalents\<close>
  "matchOrder nc nr =
     filter (\<lambda>r. firstTier nc r = Some Exact) nr
     @ firsts (filter (\<lambda>r. firstTier nc r = Some Partial \<or> firstTier nc r = Some Substantial) nr)
     @ firsts (filter (\<lambda>r. firstTier nc r = Some Equivalent) nr)"

text \<open>
  The scorer as the specification words it: four passes over the full required list, one
  tier each, a skill that an earlier pass matched being skipped.
\<close>

definition partialStep :: "string list \<Rightarrow> matchState \<Rightarrow> string \<Rightarrow> matchState" where
  "partialStep nc st requiredSkill =
     (if requiredSkill \<in> set (matchedSkills st) then st
      else if includesStr requiredSkill '' '' \<and> hasAllParts nc requiredSkill
      then hit st requiredSkill (PartialMatch requiredSkill)
      else st)"

definition substantialStep :: "string list \<Rightarrow> matchState \<Rightarrow> string \<Rightarrow> matchState" where
  "substantialStep nc st requiredSkill =
     (if requiredSkill \<in> set (matchedSkills st) then st
      else (case find (\<lambda>candidateSkill. isSubstantialMatch candidateSkill requiredSkill) nc of
              Some candidateSkill \<Rightarrow> hit st requiredSkill (SubstantialMatch requiredSkill candidateSkill)
            | None \<Rightarrow> st))"

definition fourPassRun :: "string list \<Rightarrow> string list \<Rightarrow> matchState" where
  "fourPassRun nc nr =
     (let st0 = \<lparr> matchedSkills = [], matchCount = 0, matchLog = [] \<rparr>;
          st1 = foldl (exactStep nc) st0 nr;
          st2 = foldl (partialStep nc) st1 nr;
          st3 = foldl (substantialStep nc) st2 nr
      in foldl (equivalentStep nc) st3 nr)"

definition fourPassPercentage :: "jsval list \<Rightarrow> jsval list \<Rightarrow> nat" where
  "fourPassPercentage candidateSkills requiredSkills =
     (if requiredSkills = [] then 0
      else if candidateSkills = [] then 0
      else (let normalizedRequiredSkills = normalizeSkills requiredSkills;
                normalizedCandidateSkills = normalizeSkills candidateSkills
            in if normalizedRequiredSkills = [] then 0
               else percentage (matchCount (fourPassRun normalizedCandidateSkills normalizedRequiredSkills))
                               (length normalizedRequiredSkills)))"

definition fourPassEvents :: "jsval list \<Rightarrow> jsval list \<Rightarrow> matchEvent list" where
  "fourPassEvents candidateSkills requiredSkills =
     (if requiredSkills = [] \<or> candidateSkills = [] \<or> normalizeSkills requiredSkills = [] then []
      else matchLog (fourPassRun (normalizeSkills candidateSkills) (normalizeSkills requiredSkills)))"

definition keyedStep :: "(string \<Rightarrow> bool) \<Rightarrow> (string \<Rightarrow> matchEvent) \<Rightarrow> matchState \<Rightarrow> string \<Rightarrow> matchState" where
  \<comment> \<open>the common form of every loop body after the first\<close>
  "keyedStep ok ev st r =
     (if r \<in> set (matchedSkills st) then st else if ok r then hit st r (ev r) else st)"

definition middleEvent :: "string list \<Rightarrow> string \<Rightarrow> matchEvent" where
  \<comment> \<open>the console line of the second loop of the source for a skill that it counts\<close>
  "middleEvent nc r =
     (if partialTier nc r then PartialMatch r
      else (case find (\<lambda>c. isSubstantialMatch c r) nc of
              Some c \<Rightarrow> SubstantialMatch r c
            | None \<Rightarrow> EquivalentMatch r))"

definition substantialEvent :: "string list \<Rightarrow> string \<Rightarrow> matchEvent" where
  "substantialEvent nc r =
     (case find (\<lambda>c. isSubstantialMatch c r) nc of
        Some c \<Rightarrow> SubstantialMatch r c
      | None \<Rightarrow> EquivalentMatch r)"

section \<open>Vocabulary for the properties of the experience estimator\<close>

definition noDateParse :: "string \<Rightarrow> int option" where
  \<comment> \<open>an implementation whose \<open>new Date(string)\<close> rejects every string that is no ISO date\<close>
  "noDateParse s = None"

definition adjacentJobsText :: string where
  "adjacentJobsText = ''Software Engineer 01/2018 - 06/2020, Senior Engineer 07/2020 - Present''"

section \<open>Vocabulary for the properties of \<open>extractContactInfo\<close>\<close>

fun pieces :: "string \<Rightarrow> string list" where
  \<comment> \<open>the pieces of a text between its white-space characters; never the empty list\<close>
  "pieces [] = [[]]"
| "pieces (c # cs) =
     (if isSpace c then [] # pieces cs
      else (case pieces cs of
              [] \<Rightarrow> [[c]]
            | p # ps \<Rightarrow> (c # p) # ps))"

definition wordsOf :: "string \<Rightarrow> string list" where
  \<comment> \<open>the words of a text: its maximal runs of characters that are not white space\<close>
  "wordsOf text = filter (\<lambda>w. w \<noteq> []) (pieces text)"

definition joinWords :: "string list \<Rightarrow> string" where
  \<comment> \<open>the words written one after the other with a single space between two of them\<close>
  "joinWords ws = (case ws of [] \<Rightarrow> [] | w # rest \<Rightarrow> w @ concat (map (\<lambda>x. CHR '' '' # x) rest))"

definition emailsOfLine :: "string \<Rightarrow> string list" where
  \<comment> \<open>the strategies of \<open>extractEmailsFromText\<close>, every one of them reading the same
      single line: the keyword-proximity scan tests that line and reads it, the header
      scan reads it again\<close>
  "emailsOfLine line =
     (let emails1 = foldl (\<lambda>emails pattern.
                             foldl (\<lambda>es m. addEmail es (groupOr0 m)) emails (matchAll pattern line))
                          [] [emailRegex1, emailRegex2, emailRegex3];
          emails2 = foldl (\<lambda>es m. addEmail es (groupStr m 1 @ ''@'' @ groupStr m 2 @ ''.'' @ groupStr m 3))
                          emails1 (matchAll emailRegex4 line);
          emails3 = (if test emailKeywordRx (toLowerCase line)
                     then foldl addEmail emails2 (map fst (matchAll emailRegex1 line))
                     else emails2)
      in foldl addEmail emails3 (map fst (matchAll emailRegex1 line)))"

definition phonesOfLine :: "string \<Rightarrow> string list" where
  \<comment> \<open>the strategies of \<open>extractPhonesFromText\<close>, every one of them reading the same
      single line\<close>
  "phonesOfLine line =
     (let phones1 = foldl (\<lambda>phones pattern.
                             foldl (\<lambda>ph m. addPhone ph (trim (groupOr0 m)))
                                   phones (matchAll pattern line))
                          [] phonePatterns;
          phones2 = (if test phoneKeywordRx (toLowerCase line)
                     then foldl addPhone phones1 (map fst (matchAll digitRunRx line))
                     else phones1)
      in foldl addPhone phones2 (map fst (matchAll tenDigitRx line)))"

definition fourLinesText :: string where
  \<comment> \<open>a keyword on the first line, a spaced-out number three lines below it\<close>
  "fourLinesText = ''call'' @ [CHR 0x0A, CHR 0x0A, CHR 0x0A] @ ''9 8 7 6 5 4 3 2 1 1''"


chapter \<open>Verified properties\<close>

section \<open>Experience qualification: the three call sites\<close>

lemma getExperienceResult_iff:
  "getExperienceResult c j = ''Qualified'' \<longleftrightarrow> orZero (parseInt c) \<ge> orZero (parseInt j)"
  by (simp add: getExperienceResult_def Let_def)

lemma getExperienceResult_history_iff:
  "getExperienceResult_history c j = ''Qualified'' \<longleftrightarrow>
     \<bar>orZero (parseInt c) - orZero (parseInt j)\<bar> \<le> 1
     \<and> \<not> (orZero (parseInt c) = orZero (parseInt j) \<and> \<bar>orZero (parseInt c)\<bar> = infinity)"
  by (auto simp: getExperienceResult_history_def absDifference_def Let_def)

lemma toNumber_rounds:
  "toNumber 9007199254740993 = 9007199254740992
   \<and> toNumber 9007199254740995 = 9007199254740996
   \<and> toNumber (2 ^ 1024 - 2 ^ 970 - 1) = 2 ^ 1024 - 2 ^ 971
   \<and> toNumber (2 ^ 1024 - 2 ^ 970) = 2 ^ 1024"
  by (simp add: toNumber_def bitLength.simps roundHalfEven_def Let_def)

lemma parseInt_rounds:
  "parseInt ''9007199254740993'' = Some 9007199254740992
   \<and> parseInt ''-12abc'' = Some (- 12)
   \<and> parseInt ''0x1F'' = Some 31
   \<and> getExperienceResult ''9007199254740992'' ''9007199254740993'' = ''Qualified''"
  by (simp add: getExperienceResult_def parseInt_def orZero_def isSpace_def isRadixDigit_def
      digitValue_def isDigit_def isLowerAZ_def isUpperAZ_def toNumber_def bitLength.simps
      roundHalfEven_def Let_def)

text \<open>
  C5. The candidate table reads an unparsable experience string as 0 years
  (\<open>parseInt(x) || 0\<close>); the report rows read only an empty string as 0
  (\<open>parseInt(x || '0')\<close>), so there a non-numeric entry is \<open>NaN\<close> and compares false:
  a candidate whose experience reads \<open>fresher\<close>, against a job with no stated
  requirement, is Qualified in the table and Not Qualified in the report.
\<close>

theorem experienceResult_unparsable:
  "experienceResult ''fresher'' [] = ''Not Qualified''
   \<and> getExperienceResult ''fresher'' [] = ''Qualified''
   \<and> orZero (parseInt ''fresher'') \<ge> orZero (parseInt [])"
  by (simp add: experienceResult_def getExperienceResult_def parseInt_def orString_def
      numGe_def orZero_def isSpace_def isRadixDigit_def digitValue_def isDigit_def
      isLowerAZ_def isUpperAZ_def Let_def)

section \<open>Phone extraction\<close>

subsection \<open>Loops over candidates\<close>

lemma foldl_invariant:
  assumes "P s" and "\<And>s x. P s \<Longrightarrow> x \<in> set xs \<Longrightarrow> P (f s x)"
  shows "P (foldl f s xs)"
  using assms by (induction xs arbitrary: s) auto

lemma foldl_member_intro:
  assumes "y \<in> set ys"
    and "\<And>s. x \<in> set (f s y)"
    and "\<And>s y. x \<in> set s \<Longrightarrow> x \<in> set (f s y)"
  shows "x \<in> set (foldl f s ys)"
  using assms(1)
proof (induction ys arbitrary: s)
  case Nil
  then show ?case by simp
next
  case (Cons a ys)
  show ?case
  proof (cases "a = y")
    case True
    have "x \<in> set (foldl f (f s a) ys)"
      by (rule foldl_invariant[where P = "\<lambda>s. x \<in> set s"]) (simp_all add: True assms(2,3))
    then show ?thesis by simp
  next
    case False
    with Cons show ?thesis by simp
  qed
qed

subsection \<open>What \<open>cleanPhone\<close> lets through\<close>

lemma formatPhone_shape:
  assumes d: "digits = filter isDigit cleaned"
    and lo: "10 \<le> length digits" and hi: "length digits \<le> 15"
    and ten: "length digits = 10 \<longrightarrow> starts6to9 digits"
  shows "formatPhone cleaned digits \<noteq> []
         \<and> hd (formatPhone cleaned digits) = CHR ''+''
         \<and> (filter isDigit (formatPhone cleaned digits) = digits
            \<or> filter isDigit (formatPhone cleaned digits) = ''91'' @ digits \<and> length digits = 10)"
proof (cases "startsWith cleaned ''+''")
  case True
  then obtain r where "cleaned = CHR ''+'' # r"
    by (auto simp: startsWith_def prefix_def)
  with True d show ?thesis by (simp add: formatPhone_def)
next
  case False
  have dd: "filter isDigit digits = digits" using d by simp
  have plus: "\<not> isDigit CHR ''+''" by (simp add: isDigit_def)
  have d9: "isDigit CHR ''9''" "isDigit CHR ''1''" by (simp_all add: isDigit_def)
  show ?thesis
    using False lo hi ten dd plus d9 by (auto simp: formatPhone_def)
qed

lemma not_allSame_91: "\<not> allSameDigit (''91'' @ ds)"
  by (simp add: allSameDigit_def)

lemma not_fake_91: "''91'' @ ds \<notin> set fakeSequences"
  by (simp add: fakeSequences_def)

lemma allSame_fakes: "allSameDigit ''1111111111''" "allSameDigit ''0000000000''"
  by (simp_all add: allSameDigit_def isDigit_def)

lemma isValidPhone_plausible: "isValidPhone phone digits \<Longrightarrow> plausibleDigits digits"
  by (auto simp: isValidPhone_def plausibleDigits_def split: if_splits)

lemma isValidPhone_dp_plausible: "isValidPhone_dp phone digits \<Longrightarrow> plausibleDigits digits"
  using allSame_fakes
  by (auto simp: isValidPhone_dp_def plausibleDigits_def fakeSequences_def split: if_splits)

lemma isValidPhone_ten: "isValidPhone phone digits \<Longrightarrow> length digits = 10 \<longrightarrow> starts6to9 digits"
  by (auto simp: isValidPhone_def split: if_splits)

lemma isValidPhone_dp_ten: "isValidPhone_dp phone digits \<Longrightarrow> length digits = 10 \<longrightarrow> starts6to9 digits"
  by (auto simp: isValidPhone_dp_def split: if_splits)

lemma validated_format_ok:
  assumes "digits = filter isDigit cleaned"
    and "10 \<le> length digits" and "length digits \<le> 15"
    and "length digits = 10 \<longrightarrow> starts6to9 digits"
    and "plausibleDigits digits"
  shows "phoneOk (formatPhone cleaned digits)"
  using formatPhone_shape[OF assms(1-4)] assms(2,3,5) not_allSame_91 not_fake_91
  unfolding phoneOk_def phoneShape_def plausibleDigits_def by auto

lemma cleanPhone_result:
  assumes "cleanPhone phone \<noteq> []"
  shows "phoneOk (cleanPhone phone)"
proof -
  define cleaned where "cleaned = replaceLeading00 (filter (\<lambda>c. isDigit c \<or> c = CHR ''+'')
      (foldl stripLabel (toLowerCase phone) labels))"
  define digits where "digits = filter isDigit cleaned"
  have r: "cleanPhone phone = (if length digits < 10 \<or> length digits > 15 then []
         else if \<not> isValidPhone cleaned digits then []
         else formatPhone cleaned digits)"
    by (simp add: cleanPhone_def cleaned_def digits_def Let_def)
  with assms have lo: "10 \<le> length digits" and hi: "length digits \<le> 15"
    and v: "isValidPhone cleaned digits" and f: "cleanPhone phone = formatPhone cleaned digits"
    by (auto split: if_splits)
  show ?thesis
    unfolding f
    by (rule validated_format_ok[OF digits_def lo hi isValidPhone_ten[OF v] isValidPhone_plausible[OF v]])
qed

lemma cleanPhone_dp_result:
  assumes "cleanPhone_dp phone \<noteq> []"
  shows "phoneOk (cleanPhone_dp phone)"
proof -
  define cleaned where "cleaned = replaceLeading00 (filter (\<lambda>c. c \<notin> set ''()'')
      (filter (\<lambda>c. isDigit c \<or> c \<in> set ''+()'') (foldl stripLabel_dp (toLowerCase phone) labels_dp)))"
  define digits where "digits = filter isDigit cleaned"
  have r: "cleanPhone_dp phone = (if length digits < 10 \<or> length digits > 15 then []
         else if \<not> isValidPhone_dp cleaned digits then []
         else formatPhone cleaned digits)"
    by (simp add: cleanPhone_dp_def cleaned_def digits_def Let_def)
  with assms have lo: "10 \<le> length digits" and hi: "length digits \<le> 15"
    and v: "isValidPhone_dp cleaned digits" and f: "cleanPhone_dp phone = formatPhone cleaned digits"
    by (auto split: if_splits)
  show ?thesis
    unfolding f
    by (rule validated_format_ok[OF digits_def lo hi isValidPhone_dp_ten[OF v]
          isValidPhone_dp_plausible[OF v]])
qed

subsection \<open>Every strategy adds through \<open>cleanPhone\<close>\<close>

lemma addPhone_ok: "\<forall>x \<in> set ph. phoneOk x \<Longrightarrow> \<forall>x \<in> set (addPhone ph c). phoneOk x"
  using cleanPhone_result[of c]
  by (auto simp: addPhone_def Let_def setAdd_def)

lemma addPhone_dp_ok: "\<forall>x \<in> set ph. phoneOk x \<Longrightarrow> \<forall>x \<in> set (addPhone_dp ph c). phoneOk x"
  using cleanPhone_dp_result[of c]
  by (auto simp: addPhone_dp_def Let_def setAdd_def)

lemma foldl_addPhone_ok:
  "\<forall>x \<in> set ph. phoneOk x \<Longrightarrow> \<forall>x \<in> set (foldl addPhone ph cs). phoneOk x"
  by (rule foldl_invariant[where P = "\<lambda>ph. \<forall>x \<in> set ph. phoneOk x"]) (auto dest: addPhone_ok)

lemma foldl_addPhone_dp_ok:
  "\<forall>x \<in> set ph. phoneOk x \<Longrightarrow> \<forall>x \<in> set (foldl addPhone_dp ph cs). phoneOk x"
  by (rule foldl_invariant[where P = "\<lambda>ph. \<forall>x \<in> set ph. phoneOk x"]) (auto dest: addPhone_dp_ok)

lemma pattern_scan_ok:
  "\<forall>x \<in> set ph. phoneOk x \<Longrightarrow>
   \<forall>x \<in> set (foldl (\<lambda>ph m. addPhone ph (trim (groupOr0 m))) ph ms). phoneOk x"
  by (rule foldl_invariant[where P = "\<lambda>ph. \<forall>x \<in> set ph. phoneOk x"]) (auto dest: addPhone_ok)

lemma pattern_scan_dp_ok:
  "\<forall>x \<in> set ph. phoneOk x \<Longrightarrow>
   \<forall>x \<in> set (foldl (\<lambda>ph m. addPhone_dp ph (trim (groupOr0 m))) ph ms). phoneOk x"
  by (rule foldl_invariant[where P = "\<lambda>ph. \<forall>x \<in> set ph. phoneOk x"]) (auto dest: addPhone_dp_ok)

lemma extractPhonesFromText_ok: "\<forall>x \<in> set (extractPhonesFromText text). phoneOk x"
proof -
  let ?I = "\<lambda>ph. \<forall>x \<in> set ph. phoneOk x"
  define phones1 where "phones1 = foldl (\<lambda>phones pattern.
        foldl (\<lambda>ph m. addPhone ph (trim (groupOr0 m))) phones (matchAll pattern (collapseSpaces text)))
      [] phonePatterns"
  define phones2 where "phones2 = foldl (\<lambda>phones i.
        if test phoneKeywordRx (toLowerCase (splitLines text ! i))
        then foldl (\<lambda>ph line. foldl addPhone ph (map fst (matchAll digitRunRx line)))
               phones (window3 (splitLines text) i)
        else phones) phones1 [0 ..< length (splitLines text)]"
  have 1: "?I phones1"
    unfolding phones1_def
    by (rule foldl_invariant[where P = ?I]) (simp_all add: pattern_scan_ok)
  have 2: "?I phones2"
    unfolding phones2_def
  proof (rule foldl_invariant[where P = ?I, OF 1])
    fix s i assume s: "?I s"
    have "?I (foldl (\<lambda>ph line. foldl addPhone ph (map fst (matchAll digitRunRx line)))
               s (window3 (splitLines text) i))"
      by (rule foldl_invariant[where P = ?I, OF s]) (rule foldl_addPhone_ok)
    with s show "?I (if test phoneKeywordRx (toLowerCase (splitLines text ! i))
        then foldl (\<lambda>ph line. foldl addPhone ph (map fst (matchAll digitRunRx line)))
               s (window3 (splitLines text) i)
        else s)" by simp
  qed
  have "?I (foldl (\<lambda>phones line. foldl addPhone phones (map fst (matchAll tenDigitRx line)))
               phones2 (take 30 (splitLines text)))"
    by (rule foldl_invariant[where P = ?I, OF 2]) (rule foldl_addPhone_ok)
  then show ?thesis
    by (simp add: extractPhonesFromText_def Let_def phones1_def phones2_def)
qed

lemma extractPhones_dp_ok: "\<forall>x \<in> set (extractPhones_dp text). phoneOk x"
proof -
  let ?I = "\<lambda>ph. \<forall>x \<in> set ph. phoneOk x"
  define phones1 where "phones1 = foldl (\<lambda>phones pattern.
        foldl (\<lambda>ph m. addPhone_dp ph (trim (groupOr0 m))) phones (matchAll pattern (collapseSpaces text)))
      [] phonePatternsCommon"
  have 1: "?I phones1"
    unfolding phones1_def
    by (rule foldl_invariant[where P = ?I]) (simp_all add: pattern_scan_dp_ok)
  have "?I (foldl (\<lambda>phones i.
        if test phoneKeywordRx_dp (toLowerCase (splitLines text ! i))
        then foldl (\<lambda>ph line. foldl addPhone_dp ph (map fst (matchAll digitRunRx_dp line)))
               phones (window3 (splitLines text) i)
        else phones) phones1 [0 ..< length (splitLines text)])"
  proof (rule foldl_invariant[where P = ?I, OF 1])
    fix s i assume s: "?I s"
    have "?I (foldl (\<lambda>ph line. foldl addPhone_dp ph (map fst (matchAll digitRunRx_dp line)))
               s (window3 (splitLines text) i))"
      by (rule foldl_invariant[where P = ?I, OF s]) (rule foldl_addPhone_dp_ok)
    with s show "?I (if test phoneKeywordRx_dp (toLowerCase (splitLines text ! i))
        then foldl (\<lambda>ph line. foldl addPhone_dp ph (map fst (matchAll digitRunRx_dp line)))
               s (window3 (splitLines text) i)
        else s)" by simp
  qed
  then show ?thesis
    by (simp add: extractPhones_dp_def Let_def phones1_def)
qed

subsection \<open>Candidates that do reach the result\<close>

lemma addPhone_keeps: "x \<in> set ph \<Longrightarrow> x \<in> set (addPhone ph c)"
  by (simp add: addPhone_def Let_def setAdd_def)

lemma addPhone_adds: "cleanPhone c \<noteq> [] \<Longrightarrow> cleanPhone c \<in> set (addPhone ph c)"
  by (simp add: addPhone_def Let_def setAdd_def)

lemma foldl_addPhone_keeps: "x \<in> set ph \<Longrightarrow> x \<in> set (foldl addPhone ph cs)"
  by (rule foldl_invariant[where P = "\<lambda>s. x \<in> set s"]) (simp_all add: addPhone_keeps)

lemma foldl_addPhone_adds:
  "c \<in> set cs \<Longrightarrow> cleanPhone c \<noteq> [] \<Longrightarrow> cleanPhone c \<in> set (foldl addPhone ph cs)"
  by (rule foldl_member_intro[where y = c]) (simp_all add: addPhone_keeps addPhone_adds)

lemma header_scan_finds:
  assumes "line \<in> set (take 30 (splitLines text))"
    and "c \<in> set (map fst (matchAll tenDigitRx line))"
    and "cleanPhone c \<noteq> []"
  shows "cleanPhone c \<in> set (extractPhonesFromText text)"
  unfolding extractPhonesFromText_def Let_def
proof (rule foldl_member_intro[where y = line])
  show "line \<in> set (take 30 (splitLines text))" by (rule assms(1))
  show "\<And>s. cleanPhone c \<in> set (foldl addPhone s (map fst (matchAll tenDigitRx line)))"
    by (rule foldl_addPhone_adds[OF assms(2,3)])
  show "\<And>s y. cleanPhone c \<in> set s \<Longrightarrow>
      cleanPhone c \<in> set (foldl addPhone s (map fst (matchAll tenDigitRx y)))"
    by (rule foldl_addPhone_keeps)
qed

lemma addPhone_dp_keeps: "x \<in> set ph \<Longrightarrow> x \<in> set (addPhone_dp ph c)"
  by (simp add: addPhone_dp_def Let_def setAdd_def)

lemma addPhone_dp_adds: "cleanPhone_dp c \<noteq> [] \<Longrightarrow> cleanPhone_dp c \<in> set (addPhone_dp ph c)"
  by (simp add: addPhone_dp_def Let_def setAdd_def)

lemma foldl_addPhone_dp_keeps: "x \<in> set ph \<Longrightarrow> x \<in> set (foldl addPhone_dp ph cs)"
  by (rule foldl_invariant[where P = "\<lambda>s. x \<in> set s"]) (simp_all add: addPhone_dp_keeps)

lemma foldl_addPhone_dp_adds:
  "c \<in> set cs \<Longrightarrow> cleanPhone_dp c \<noteq> [] \<Longrightarrow> cleanPhone_dp c \<in> set (foldl addPhone_dp ph cs)"
  by (rule foldl_member_intro[where y = c]) (simp_all add: addPhone_dp_keeps addPhone_dp_adds)

lemma keyword_scan_finds_dp:
  assumes "i < length (splitLines text)"
    and "test phoneKeywordRx_dp (toLowerCase (splitLines text ! i))"
    and "line \<in> set (window3 (splitLines text) i)"
    and "c \<in> set (map fst (matchAll digitRunRx_dp line))"
    and "cleanPhone_dp c \<noteq> []"
  shows "cleanPhone_dp c \<in> set (extractPhones_dp text)"
  unfolding extractPhones_dp_def Let_def
proof (rule foldl_member_intro[where y = i])
  show "i \<in> set [0 ..< length (splitLines text)]" using assms(1) by simp
next
  fix s
  have "cleanPhone_dp c \<in> set (foldl (\<lambda>ph line. foldl addPhone_dp ph (map fst (matchAll digitRunRx_dp line)))
               s (window3 (splitLines text) i))"
  proof (rule foldl_member_intro[where y = line])
    show "line \<in> set (window3 (splitLines text) i)" by (rule assms(3))
    show "\<And>s. cleanPhone_dp c \<in> set (foldl addPhone_dp s (map fst (matchAll digitRunRx_dp line)))"
      by (rule foldl_addPhone_dp_adds[OF assms(4,5)])
    show "\<And>s y. cleanPhone_dp c \<in> set s \<Longrightarrow>
        cleanPhone_dp c \<in> set (foldl addPhone_dp s (map fst (matchAll digitRunRx_dp y)))"
      by (rule foldl_addPhone_dp_keeps)
  qed
  then show "cleanPhone_dp c \<in> set (if test phoneKeywordRx_dp (toLowerCase (splitLines text ! i))
        then foldl (\<lambda>ph line. foldl addPhone_dp ph (map fst (matchAll digitRunRx_dp line)))
               s (window3 (splitLines text) i)
        else s)" using assms(2) by simp
next
  fix s :: "string list" and y
  assume s: "cleanPhone_dp c \<in> set s"
  have "cleanPhone_dp c \<in> set (foldl (\<lambda>ph line. foldl addPhone_dp ph (map fst (matchAll digitRunRx_dp line)))
               s (window3 (splitLines text) y))"
    by (rule foldl_invariant[where P = "\<lambda>s. cleanPhone_dp c \<in> set s", OF s])
       (simp add: foldl_addPhone_dp_keeps)
  with s show "cleanPhone_dp c \<in> set (if test phoneKeywordRx_dp (toLowerCase (splitLines text ! y))
        then foldl (\<lambda>ph line. foldl addPhone_dp ph (map fst (matchAll digitRunRx_dp line)))
               s (window3 (splitLines text) y)
        else s)" by simp
qed

text \<open>
  C6. No phone returned by either extractor has one of the fake sequences
  \<open>1234567890\<close>, \<open>0123456789\<close>, \<open>9876543210\<close>, \<open>1111111111\<close>, \<open>0000000000\<close> or a single
  repeated digit as its digit sequence, for any text; and both validators reject every
  candidate whose digits are such a sequence, whatever the candidate string around them.
\<close>

theorem extractPhones_never_fake:
  "(\<forall>x \<in> set (extractPhonesFromText text). plausibleDigits (filter isDigit x))
   \<and> (\<forall>x \<in> set (extractPhones_dp text). plausibleDigits (filter isDigit x))
   \<and> (\<not> plausibleDigits digits \<longrightarrow>
        \<not> isValidPhone phone digits \<and> \<not> isValidPhone_dp phone digits)"
  using extractPhonesFromText_ok[of "text"] extractPhones_dp_ok[of "text"]
    isValidPhone_plausible[of phone digits] isValidPhone_dp_plausible[of phone digits]
  by (auto simp: phoneOk_def)

theorem extractPhones_never_fake_witness:
  "''+919876543211'' \<in> set (extractPhonesFromText ''9876543211'')
   \<and> plausibleDigits (filter isDigit ''+919876543211'')
   \<and> ''+919876543211'' \<in> set (extractPhones_dp ''tel 9876543211'')
   \<and> \<not> plausibleDigits ''1234567890''
   \<and> \<not> isValidPhone ''+1234567890'' ''1234567890''
   \<and> \<not> isValidPhone_dp ''+1234567890'' ''1234567890''"
proof -
  have c: "cleanPhone ''9876543211'' = ''+919876543211''" by code_simp
  have l: "''9876543211'' \<in> set (take 30 (splitLines ''9876543211''))" by code_simp
  have m: "''9876543211'' \<in> set (map fst (matchAll tenDigitRx ''9876543211''))" by code_simp
  have a: "''+919876543211'' \<in> set (extractPhonesFromText ''9876543211'')"
    using header_scan_finds[OF l m] c by simp
  have c': "cleanPhone_dp '' 9876543211'' = ''+919876543211''" by code_simp
  have i: "0 < length (splitLines ''tel 9876543211'')" by code_simp
  have k: "test phoneKeywordRx_dp (toLowerCase (splitLines ''tel 9876543211'' ! 0))" by code_simp
  have w: "''tel 9876543211'' \<in> set (window3 (splitLines ''tel 9876543211'') 0)" by code_simp
  have m': "'' 9876543211'' \<in> set (map fst (matchAll digitRunRx_dp ''tel 9876543211''))" by code_simp
  have b: "''+919876543211'' \<in> set (extractPhones_dp ''tel 9876543211'')"
    using keyword_scan_finds_dp[OF i k w m'] c' by simp
  have f: "\<not> plausibleDigits ''1234567890''"
    by (simp add: plausibleDigits_def fakeSequences_def)
  from extractPhones_never_fake[of "''9876543211''" "''1234567890''" "''+1234567890''"] a b f
  show ?thesis by blast
qed

text \<open>
  C7. Every string returned by \<open>extractPhonesFromText\<close> (exported as \<open>extractPhones\<close>) is
  non-empty, begins with \<open>+\<close> and holds between 10 and 15 digits: each candidate goes
  through \<open>cleanPhone\<close>, whose non-empty results all have that shape.
\<close>

theorem extractPhones_shape:
  "\<forall>x \<in> set (extractPhonesFromText text).
     x \<noteq> [] \<and> hd x = CHR ''+''
     \<and> 10 \<le> length (filter isDigit x) \<and> length (filter isDigit x) \<le> 15"
  using extractPhonesFromText_ok[of "text"] by (simp add: phoneOk_def phoneShape_def)

theorem extractPhones_shape_witness:
  "''+919876543211'' \<in> set (extractPhonesFromText ''9876543211'')
   \<and> hd ''+919876543211'' = CHR ''+''
   \<and> length (filter isDigit ''+919876543211'') = 12"
proof -
  have c: "cleanPhone ''9876543211'' = ''+919876543211''" by code_simp
  have l: "''9876543211'' \<in> set (take 30 (splitLines ''9876543211''))" by code_simp
  have m: "''9876543211'' \<in> set (map fst (matchAll tenDigitRx ''9876543211''))" by code_simp
  have a: "''+919876543211'' \<in> set (extractPhonesFromText ''9876543211'')"
    using header_scan_finds[OF l m] c by simp
  have n: "length (filter isDigit ''+919876543211'') = 12" by code_simp
  from extractPhones_shape[of "''9876543211''"] a n show ?thesis by auto
qed


section \<open>\<open>extractContactInfo\<close>: the text handed to the extractors\<close>

subsection \<open>White space left by the cleaning\<close>

lemma trim_subset: "set (trim s) \<subseteq> set s"
proof -
  have "set (dropWhile isSpace (rev (dropWhile isSpace s))) \<subseteq> set (rev (dropWhile isSpace s))"
    by (auto dest: set_dropWhileD)
  moreover have "set (dropWhile isSpace s) \<subseteq> set s"
    by (auto dest: set_dropWhileD)
  ultimately show ?thesis by (auto simp: trim_def)
qed
lemma collapseRuns_class: "c \<in> set (collapseRuns P s) \<Longrightarrow> P c \<Longrightarrow> c = CHR '' ''"
proof (induction P s rule: collapseRuns.induct)
  case (1 P)
  then show ?case by simp
next
  case (2 P x xs)
  then show ?case by (auto split: if_splits)
qed

lemma collapseRuns_subset: "set (collapseRuns P s) \<subseteq> insert CHR '' '' (set s)"
proof (induction P s rule: collapseRuns.induct)
  case (1 P)
  then show ?case by simp
next
  case (2 P x xs)
  have "set (dropWhile P xs) \<subseteq> set xs" by (auto dest: set_dropWhileD)
  with 2 show ?case by (auto split: if_splits)
qed
lemma contactCleanText_spaces:
  assumes "c \<in> set (contactCleanText text)" and "isSpace c"
  shows "c = CHR '' ''"
proof -
  let ?Q = "\<lambda>c. isSpace c \<and> c \<noteq> CHR 0x0D \<and> c \<noteq> CHR 0x0A"
  from assms(1) have "c \<in> set (collapseRuns ?Q (collapseSpaces text))"
    using trim_subset by (auto simp: contactCleanText_def)
  then have "c = CHR '' '' \<or> c \<in> set (collapseSpaces text)"
    using collapseRuns_subset by fastforce
  then show ?thesis
    using assms(2) collapseRuns_class[of c isSpace "text"] by (auto simp: collapseSpaces_def)
qed

lemma contactCleanText_no_newline: "newline \<notin> set (contactCleanText text)"
proof
  assume "newline \<in> set (contactCleanText text)"
  moreover have "isSpace newline" by (simp add: isSpace_def newline_def)
  ultimately have "newline = CHR '' ''" by (rule contactCleanText_spaces)
  then show False by (simp add: newline_def)
qed

lemma splitChar_absent: "sep \<notin> set s \<Longrightarrow> splitChar sep s = [s]"
  by (induction s) auto

lemma splitLines_single: "newline \<notin> set t \<Longrightarrow> splitLines t = [t]"
  by (simp add: splitLines_def splitChar_absent)

subsection \<open>The cleaned text is the words of the input, joined by single spaces\<close>

lemma isSpace_space: "isSpace CHR '' ''"
  by (simp add: isSpace_def)

lemma pieces_nonempty: "pieces s \<noteq> []"
  by (induction s) (auto split: list.splits)

lemma pieces_hd_empty: "hd (pieces s) = [] \<longleftrightarrow> s = [] \<or> isSpace (hd s)"
  by (cases s) (auto split: list.splits)

lemma pieces_spacefree_all: "\<forall>p \<in> set (pieces s). \<forall>c \<in> set p. \<not> isSpace c"
  by (induction s) (auto split: list.splits)

lemma pieces_spacefree: "p \<in> set (pieces s) \<Longrightarrow> c \<in> set p \<Longrightarrow> \<not> isSpace c"
  using pieces_spacefree_all by blast

lemma wordsOf_Nil: "wordsOf [] = []"
  by (simp add: wordsOf_def)

lemma wordsOf_nonempty_imp: "wordsOf s \<noteq> [] \<Longrightarrow> s \<noteq> []"
  by (auto simp: wordsOf_Nil)

lemma wordsOf_space: "isSpace c \<Longrightarrow> wordsOf (c # cs) = wordsOf cs"
  by (simp add: wordsOf_def)

lemma wordsOf_letter:
  "\<not> isSpace c \<Longrightarrow> wordsOf (c # cs) = (c # hd (pieces cs)) # filter (\<lambda>w. w \<noteq> []) (tl (pieces cs))"
  using pieces_nonempty[of cs] by (cases "pieces cs") (auto simp: wordsOf_def)

lemma wordsOf_dropWhile: "wordsOf (dropWhile isSpace s) = wordsOf s"
  by (induction s) (auto simp: wordsOf_space)

lemma wordsOf_spacefree: "w \<in> set (wordsOf s) \<Longrightarrow> c \<in> set w \<Longrightarrow> \<not> isSpace c"
  using pieces_spacefree by (auto simp: wordsOf_def)

lemma wordsOf_no_empty: "[] \<notin> set (wordsOf s)"
  by (simp add: wordsOf_def)

lemma joinWords_Nil: "joinWords [] = []"
  by (simp add: joinWords_def)

lemma joinWords_nonempty: "ws \<noteq> [] \<Longrightarrow> [] \<notin> set ws \<Longrightarrow> joinWords ws \<noteq> []"
  by (cases ws) (auto simp: joinWords_def)

lemma dropEnd_Cons:
  "rev (dropWhile P (rev (x # xs)))
   = (if rev (dropWhile P (rev xs)) = [] \<and> P x then [] else x # rev (dropWhile P (rev xs)))"
  by (auto simp: dropWhile_append)

lemma collapseRuns_head:
  "s = [] \<or> \<not> P (hd s) \<Longrightarrow> collapseRuns P s = [] \<or> \<not> P (hd (collapseRuns P s))"
  by (cases s) auto

lemma dropWhile_head: "s = [] \<or> \<not> P (hd s) \<Longrightarrow> dropWhile P s = s"
  by (cases s) auto

lemma dropWhile_result_head: "dropWhile P s = [] \<or> \<not> P (hd (dropWhile P s))"
  using hd_dropWhile[of P s] by blast

lemma collapseRuns_twice:
  assumes "\<And>c. Q c \<Longrightarrow> P c"
  shows "collapseRuns Q (collapseRuns P s) = collapseRuns P s"
  using assms
proof (induction P s rule: collapseRuns.induct)
  case (1 P)
  then show ?case by simp
next
  case (2 P c cs)
  show ?case
  proof (cases "P c")
    case True
    let ?X = "collapseRuns P (dropWhile P cs)"
    have h: "?X = [] \<or> \<not> P (hd ?X)"
      by (rule collapseRuns_head[OF dropWhile_result_head])
    then have "?X = [] \<or> \<not> Q (hd ?X)" using 2(3) by blast
    then have d: "dropWhile Q ?X = ?X" by (rule dropWhile_head)
    have i: "collapseRuns Q ?X = ?X" using 2(1)[OF True] 2(3) by blast
    show ?thesis using True d i by simp
  next
    case False
    then have q: "\<not> Q c" using 2(3) by blast
    have i: "collapseRuns Q (collapseRuns P cs) = collapseRuns P cs"
      using 2(2)[OF False] 2(3) by blast
    show ?thesis using False q i by simp
  qed
qed

lemma concat_spaced: "W \<noteq> [] \<Longrightarrow> concat (map (\<lambda>x. CHR '' '' # x) W) = CHR '' '' # joinWords W"
  by (cases W) (auto simp: joinWords_def)

lemma wordsOf_pieces:
  "wordsOf cs = (if hd (pieces cs) \<noteq> [] then hd (pieces cs) # filter (\<lambda>w. w \<noteq> []) (tl (pieces cs))
                 else filter (\<lambda>w. w \<noteq> []) (tl (pieces cs)))"
  using pieces_nonempty[of cs] by (cases "pieces cs") (auto simp: wordsOf_def)

lemma collapse_words:
  "rev (dropWhile isSpace (rev (collapseRuns isSpace s)))
   = (if wordsOf s = [] then []
      else (if isSpace (hd s) then '' '' else []) @ joinWords (wordsOf s))"
proof (induction "isSpace" s rule: collapseRuns.induct)
  case 1
  then show ?case by (simp add: wordsOf_Nil)
next
  case (2 c cs)
  let ?E = "\<lambda>x. rev (dropWhile isSpace (rev x))"
  show ?case
  proof (cases "isSpace c")
    case True
    let ?d = "dropWhile isSpace cs"
    have w: "wordsOf (c # cs) = wordsOf ?d"
      using True by (simp add: wordsOf_space wordsOf_dropWhile)
    have ih: "?E (collapseRuns isSpace ?d)
              = (if wordsOf ?d = [] then []
                 else (if isSpace (hd ?d) then '' '' else []) @ joinWords (wordsOf ?d))"
      by (rule 2(1)[OF True])
    show ?thesis
    proof (cases "wordsOf ?d = []")
      case e: True
      show ?thesis using True e ih by (simp add: w dropEnd_Cons isSpace_space del: rev.simps)
    next
      case ne: False
      then have "?d \<noteq> []" by (rule wordsOf_nonempty_imp)
      then have "\<not> isSpace (hd ?d)" by (rule hd_dropWhile)
      with ih ne have e: "?E (collapseRuns isSpace ?d) = joinWords (wordsOf ?d)" by simp
      have j: "joinWords (wordsOf ?d) \<noteq> []"
        by (rule joinWords_nonempty[OF ne wordsOf_no_empty])
      have "?E (collapseRuns isSpace (c # cs)) = CHR '' '' # joinWords (wordsOf ?d)"
        using True e j by (simp add: dropEnd_Cons isSpace_space del: rev.simps)
      then show ?thesis using True ne by (simp add: w)
    qed
  next
    case False
    let ?p = "hd (pieces cs)" and ?W = "filter (\<lambda>w. w \<noteq> []) (tl (pieces cs))"
    have ih: "?E (collapseRuns isSpace cs)
              = (if wordsOf cs = [] then []
                 else (if isSpace (hd cs) then '' '' else []) @ joinWords (wordsOf cs))"
      by (rule 2(2)[OF False])
    have l: "?E (collapseRuns isSpace (c # cs)) = c # ?E (collapseRuns isSpace cs)"
      using False by (simp add: dropEnd_Cons del: rev.simps)
    have r: "joinWords (wordsOf (c # cs)) = c # ?p @ concat (map (\<lambda>x. CHR '' '' # x) ?W)"
      using False by (simp add: wordsOf_letter joinWords_def)
    have n: "wordsOf (c # cs) \<noteq> []" using False by (simp add: wordsOf_letter)
    have "?E (collapseRuns isSpace cs) = ?p @ concat (map (\<lambda>x. CHR '' '' # x) ?W)"
    proof (cases "?p = []")
      case pe: True
      then have w: "wordsOf cs = ?W" using wordsOf_pieces[of cs] by simp
      show ?thesis
      proof (cases "?W = []")
        case True
        then show ?thesis using ih w pe by simp
      next
        case ne: False
        then have "wordsOf cs \<noteq> []" using w by simp
        then have "cs \<noteq> []" by (rule wordsOf_nonempty_imp)
        then have "isSpace (hd cs)" using pe pieces_hd_empty[of cs] by simp
        then show ?thesis using ih w ne pe concat_spaced[OF ne] by simp
      qed
    next
      case pn: False
      then have w: "wordsOf cs = ?p # ?W" using wordsOf_pieces[of cs] by simp
      from pn have "\<not> isSpace (hd cs)" using pieces_hd_empty[of cs] by simp
      then show ?thesis using ih w by (simp add: joinWords_def)
    qed
    then show ?thesis using False n l r by simp
  qed
qed

lemma collapseRuns_dropWhile:
  assumes "P CHR '' ''"
  shows "dropWhile P (collapseRuns P s) = collapseRuns P (dropWhile P s)"
proof (cases s)
  case Nil
  then show ?thesis by simp
next
  case (Cons c cs)
  show ?thesis
  proof (cases "P c")
    case True
    let ?X = "collapseRuns P (dropWhile P cs)"
    have "?X = [] \<or> \<not> P (hd ?X)"
      by (rule collapseRuns_head[OF dropWhile_result_head])
    then have "dropWhile P ?X = ?X" by (rule dropWhile_head)
    then show ?thesis using True assms Cons by simp
  next
    case False
    then show ?thesis using Cons by simp
  qed
qed

lemma trim_collapse: "trim (collapseRuns isSpace s) = joinWords (wordsOf s)"
proof -
  let ?d = "dropWhile isSpace s"
  have "trim (collapseRuns isSpace s) = rev (dropWhile isSpace (rev (collapseRuns isSpace ?d)))"
    by (simp add: trim_def collapseRuns_dropWhile[of isSpace, OF isSpace_space])
  also have "\<dots> = (if wordsOf ?d = [] then []
      else (if isSpace (hd ?d) then '' '' else []) @ joinWords (wordsOf ?d))"
    by (rule collapse_words)
  also have "\<dots> = joinWords (wordsOf ?d)"
  proof (cases "wordsOf ?d = []")
    case True
    then show ?thesis by (simp add: joinWords_Nil)
  next
    case False
    then have "?d \<noteq> []" by (rule wordsOf_nonempty_imp)
    then have "\<not> isSpace (hd ?d)" by (rule hd_dropWhile)
    then show ?thesis using False by simp
  qed
  finally show ?thesis by (simp add: wordsOf_dropWhile)
qed

lemma contactCleanText_words: "contactCleanText text = joinWords (wordsOf text)"
proof -
  have "collapseRuns (\<lambda>c. isSpace c \<and> c \<noteq> CHR 0x0D \<and> c \<noteq> CHR 0x0A) (collapseRuns isSpace text)
        = collapseRuns isSpace text"
    by (rule collapseRuns_twice) simp
  then show ?thesis by (simp add: contactCleanText_def collapseSpaces_def trim_collapse)
qed

lemma collapseRuns_word: "\<forall>c \<in> set w. \<not> P c \<Longrightarrow> collapseRuns P (w @ r) = w @ collapseRuns P r"
  by (induction w) auto

lemma collapseRuns_spaced:
  assumes "\<forall>w \<in> set r. w \<noteq> [] \<and> (\<forall>c \<in> set w. \<not> isSpace c)"
  shows "collapseRuns isSpace (concat (map (\<lambda>x. CHR '' '' # x) r)) = concat (map (\<lambda>x. CHR '' '' # x) r)"
  using assms
proof (induction r)
  case Nil
  then show ?case by simp
next
  case (Cons v r)
  let ?K = "concat (map (\<lambda>x. CHR '' '' # x) r)"
  from Cons.prems have v: "v \<noteq> []" "\<forall>c \<in> set v. \<not> isSpace c" by auto
  then have "\<not> isSpace (hd v)" by (cases v) auto
  then have "v @ ?K = [] \<or> \<not> isSpace (hd (v @ ?K))" using v(1) by simp
  then have d: "dropWhile isSpace (v @ ?K) = v @ ?K" by (rule dropWhile_head)
  have "collapseRuns isSpace (v @ ?K) = v @ collapseRuns isSpace ?K"
    by (rule collapseRuns_word[OF v(2)])
  also have "\<dots> = v @ ?K" using Cons by simp
  finally show ?case using d by (simp add: isSpace_space)
qed

lemma collapseSpaces_joinWords:
  assumes "\<forall>w \<in> set ws. w \<noteq> [] \<and> (\<forall>c \<in> set w. \<not> isSpace c)"
  shows "collapseSpaces (joinWords ws) = joinWords ws"
proof (cases ws)
  case Nil
  then show ?thesis by (simp add: joinWords_def collapseSpaces_def)
next
  case (Cons w r)
  from assms Cons have w: "\<forall>c \<in> set w. \<not> isSpace c"
    and r: "\<forall>w \<in> set r. w \<noteq> [] \<and> (\<forall>c \<in> set w. \<not> isSpace c)" by auto
  show ?thesis
    using collapseRuns_word[OF w] collapseRuns_spaced[OF r] Cons
    by (simp add: joinWords_def collapseSpaces_def)
qed

lemma collapseSpaces_clean: "collapseSpaces (contactCleanText text) = contactCleanText text"
proof -
  have "\<forall>w \<in> set (wordsOf text). w \<noteq> [] \<and> (\<forall>c \<in> set w. \<not> isSpace c)"
    using wordsOf_no_empty[of "text"] wordsOf_spacefree[of _ "text"] by blast
  then show ?thesis unfolding contactCleanText_words by (rule collapseSpaces_joinWords)
qed

subsection \<open>The extractors on a text of one line\<close>

lemma extractEmails_single_line:
  assumes "newline \<notin> set t" and "collapseSpaces t = t"
  shows "extractEmailsFromText t = emailsOfLine t"
  unfolding extractEmailsFromText_def emailsOfLine_def Let_def
    splitLines_single[OF assms(1)] assms(2)
  by (simp add: window3_def joinLines_def)

lemma extractPhones_single_line:
  assumes "newline \<notin> set t" and "collapseSpaces t = t"
  shows "extractPhonesFromText t = phonesOfLine t"
  unfolding extractPhonesFromText_def phonesOfLine_def Let_def
    splitLines_single[OF assms(1)] assms(2)
  by (simp add: window3_def)

text \<open>
  C10. \<open>extractContactInfo\<close> hands both extractors the text \<open>contactCleanText text\<close>,
  which is the words of the input (its maximal runs of characters that are not white
  space) joined by single spaces: every run of white space between two words, newlines
  included, has become one space, and the runs at both ends are gone. That text holds no
  newline, every white-space character in it is a plain space, and collapsing white space
  again, as both extractors do first, leaves it as it is. Splitting it at newlines gives
  one line, the whole text: the line loop runs for index 0 only, the window of the
  keyword-proximity scan (\<open>window3\<close>) and the header area (the first 30 lines, joined again
  for the email scan) are that one line. Both extractors therefore return what their
  strategies return when every one of them reads that single line (\<open>emailsOfLine\<close>,
  \<open>phonesOfLine\<close>), and \<open>extractContactInfo\<close> returns the first entries of those.
\<close>

theorem extractContactInfo_single_line:
  "contactCleanText text = joinWords (wordsOf text)
   \<and> newline \<notin> set (contactCleanText text)
   \<and> (\<forall>c \<in> set (contactCleanText text). isSpace c \<longrightarrow> c = CHR '' '')
   \<and> collapseSpaces (contactCleanText text) = contactCleanText text
   \<and> splitLines (contactCleanText text) = [contactCleanText text]
   \<and> [0 ..< length (splitLines (contactCleanText text))] = [0]
   \<and> window3 (splitLines (contactCleanText text)) 0 = [contactCleanText text]
   \<and> take 30 (splitLines (contactCleanText text)) = [contactCleanText text]
   \<and> joinLines (take 30 (splitLines (contactCleanText text))) = contactCleanText text
   \<and> extractEmailsFromText (contactCleanText text) = emailsOfLine (joinWords (wordsOf text))
   \<and> extractPhonesFromText (contactCleanText text) = phonesOfLine (joinWords (wordsOf text))
   \<and> extractContactInfo text =
       \<lparr> contact_email = firstOrEmpty (emailsOfLine (joinWords (wordsOf text))),
         contact_phone = firstOrEmpty (phonesOfLine (joinWords (wordsOf text))) \<rparr>"
proof -
  let ?t = "contactCleanText text"
  have c: "?t = joinWords (wordsOf text)"
    by (rule contactCleanText_words)
  have n: "newline \<notin> set ?t"
    by (rule contactCleanText_no_newline)
  have sp: "\<forall>c \<in> set ?t. isSpace c \<longrightarrow> c = CHR '' ''"
    using contactCleanText_spaces by blast
  have i: "collapseSpaces ?t = ?t"
    by (rule collapseSpaces_clean)
  have l: "splitLines ?t = [?t]"
    by (rule splitLines_single[OF n])
  have u: "[0 ..< length (splitLines ?t)] = [0]"
    unfolding l by simp
  have w: "window3 (splitLines ?t) 0 = [?t]"
    unfolding l by (simp add: window3_def)
  have h: "take 30 (splitLines ?t) = [?t]"
    unfolding l by simp
  have j: "joinLines (take 30 (splitLines ?t)) = ?t"
    unfolding h by (simp add: joinLines_def)
  have e: "extractEmailsFromText ?t = emailsOfLine (joinWords (wordsOf text))"
    using extractEmails_single_line[OF n i] c by simp
  have p: "extractPhonesFromText ?t = phonesOfLine (joinWords (wordsOf text))"
    using extractPhones_single_line[OF n i] c by simp
  have r: "extractContactInfo text =
       \<lparr> contact_email = firstOrEmpty (emailsOfLine (joinWords (wordsOf text))),
         contact_phone = firstOrEmpty (phonesOfLine (joinWords (wordsOf text))) \<rparr>"
    unfolding extractContactInfo_def Let_def e p by (rule refl)
  from c n sp i l u w h j e p r show ?thesis by blast
qed

subsection \<open>A keyword and a number on distant lines\<close>

lemma pattern_scan_nothing:
  "\<forall>p \<in> set ps. matchAll p t = [] \<Longrightarrow>
   foldl (\<lambda>acc pattern. foldl f acc (matchAll pattern t)) acc ps = acc"
  by (induction ps arbitrary: acc) auto

lemma w_patterns: "\<forall>p \<in> set phonePatterns. matchAll p ''call 9 8 7 6 5 4 3 2 1 1'' = []"
  by code_simp

lemma w_key: "test phoneKeywordRx (toLowerCase ''call 9 8 7 6 5 4 3 2 1 1'')"
  by code_simp

lemma w_runs: "map fst (matchAll digitRunRx ''call 9 8 7 6 5 4 3 2 1 1'') = ['' 9 8 7 6 5 4 3 2 1 1'']"
  by code_simp

lemma w_clean: "cleanPhone '' 9 8 7 6 5 4 3 2 1 1'' = ''+919876543211''"
  by code_simp

lemma w_ten: "matchAll tenDigitRx ''call 9 8 7 6 5 4 3 2 1 1'' = []"
  by code_simp

lemma w_line: "phonesOfLine ''call 9 8 7 6 5 4 3 2 1 1'' = [''+919876543211'']"
  unfolding phonesOfLine_def Let_def pattern_scan_nothing[OF w_patterns] w_runs w_ten
  using w_key w_clean by (simp add: addPhone_def setAdd_def)

lemma o_collapse: "collapseSpaces fourLinesText = ''call 9 8 7 6 5 4 3 2 1 1''"
  by code_simp

lemma o_lines: "splitLines fourLinesText = [''call'', [], [], ''9 8 7 6 5 4 3 2 1 1'']"
  by code_simp

lemma o_keys: "test phoneKeywordRx (toLowerCase ''call'')" "\<not> test phoneKeywordRx (toLowerCase [])"
  "\<not> test phoneKeywordRx (toLowerCase ''9 8 7 6 5 4 3 2 1 1'')"
  by code_simp+

lemma o_runs: "matchAll digitRunRx ''call'' = []" "matchAll digitRunRx [] = []"
  by code_simp+

lemma o_ten: "matchAll tenDigitRx ''call'' = []" "matchAll tenDigitRx [] = []"
  "matchAll tenDigitRx ''9 8 7 6 5 4 3 2 1 1'' = []"
  by code_simp+

lemma o_window: "window3 [''call'', [], [], ''9 8 7 6 5 4 3 2 1 1''] 0 = [''call'', [], []]"
  by code_simp

lemma o_upt: "[0 ..< length [''call'', [], [], ''9 8 7 6 5 4 3 2 1 1'']] = [0, 1, 2, 3]"
  by code_simp

lemma o_all: "extractPhonesFromText fourLinesText = []"
  unfolding extractPhonesFromText_def Let_def o_collapse pattern_scan_nothing[OF w_patterns]
    o_lines o_upt
  using o_keys o_runs o_ten o_window by simp

text \<open>
  In \<open>fourLinesText\<close> the keyword \<open>call\<close> stands three lines above a spaced-out number.
  Read line by line, the text gives no phone: the number is outside the three-line window
  of the keyword. Through \<open>extractContactInfo\<close> the keyword and the number are on the same
  single line, and the number is returned.
\<close>

theorem extractContactInfo_single_line_witness:
  "splitLines fourLinesText = [''call'', [], [], ''9 8 7 6 5 4 3 2 1 1'']
   \<and> extractPhonesFromText fourLinesText = []
   \<and> wordsOf fourLinesText
       = [''call'', ''9'', ''8'', ''7'', ''6'', ''5'', ''4'', ''3'', ''2'', ''1'', ''1'']
   \<and> contactCleanText fourLinesText = ''call 9 8 7 6 5 4 3 2 1 1''
   \<and> CHR '' '' \<in> set ''call 9 8 7 6 5 4 3 2 1 1'' \<and> isSpace CHR '' ''
   \<and> splitLines (contactCleanText fourLinesText) = [''call 9 8 7 6 5 4 3 2 1 1'']
   \<and> extractPhonesFromText (contactCleanText fourLinesText) = [''+919876543211'']
   \<and> contact_phone (extractContactInfo fourLinesText) = ''+919876543211''"
proof -
  have k: "joinWords (wordsOf fourLinesText) = ''call 9 8 7 6 5 4 3 2 1 1''"
    by code_simp
  have m: "CHR '' '' \<in> set ''call 9 8 7 6 5 4 3 2 1 1''" by simp
  have v: "wordsOf fourLinesText
           = [''call'', ''9'', ''8'', ''7'', ''6'', ''5'', ''4'', ''3'', ''2'', ''1'', ''1'']"
    by code_simp
  note t = extractContactInfo_single_line[of fourLinesText, unfolded k w_line]
  from t have c: "contactCleanText fourLinesText = ''call 9 8 7 6 5 4 3 2 1 1''" by blast
  from t have l: "splitLines (contactCleanText fourLinesText) = [''call 9 8 7 6 5 4 3 2 1 1'']"
    unfolding c by blast
  from t have p: "extractPhonesFromText (contactCleanText fourLinesText) = [''+919876543211'']"
    by blast
  from t have "extractContactInfo fourLinesText =
       \<lparr> contact_email = firstOrEmpty (emailsOfLine ''call 9 8 7 6 5 4 3 2 1 1''),
         contact_phone = firstOrEmpty [''+919876543211''] \<rparr>" by blast
  then have r: "contact_phone (extractContactInfo fourLinesText) = ''+919876543211''"
    by (simp add: firstOrEmpty_def)
  from o_lines o_all v c m isSpace_space l p r show ?thesis by blast
qed


section \<open>Email validation\<close>

lemma splitChar_nonempty: "splitChar sep s \<noteq> []"
  by (induction s) (auto split: list.splits)

lemma length_splitChar: "length (splitChar sep s) = Suc (length (filter (\<lambda>c. c = sep) s))"
  by (induction s) (auto split: list.splits simp: splitChar_nonempty)

lemma splitChar_append_sep: "sep \<notin> set a \<Longrightarrow> splitChar sep (a @ sep # b) = a # splitChar sep b"
  by (induction a) auto

lemma last_splitChar: "last (splitChar sep s) = rev (takeWhile (\<lambda>c. c \<noteq> sep) (rev s))"
proof (induction s)
  case Nil
  then show ?case by simp
next
  case (Cons c cs)
  show ?case
  proof (cases "c = sep")
    case True
    then show ?thesis using Cons splitChar_nonempty[of sep cs]
      by (simp add: takeWhile_append)
  next
    case False
    obtain p ps where sp: "splitChar sep cs = p # ps"
      using splitChar_nonempty[of sep cs] by (cases "splitChar sep cs") auto
    show ?thesis
    proof (cases "sep \<in> set cs")
      case True
      then have "ps \<noteq> []" using length_splitChar[of sep cs] sp
        by (auto simp: filter_empty_conv)
      with False True sp Cons show ?thesis by (auto simp: takeWhile_append)
    next
      case False
      then have "splitChar sep cs = [cs]" by (induction cs) auto
      with \<open>c \<noteq> sep\<close> False show ?thesis by (auto simp: takeWhile_append)
    qed
  qed
qed

lemma count_one_decompose:
  assumes "length (filter (\<lambda>c. c = x) e) = 1"
  shows "\<exists>l d. e = l @ x # d \<and> x \<notin> set l \<and> x \<notin> set d"
proof -
  have "x \<in> set e"
  proof (rule ccontr)
    assume "x \<notin> set e"
    then have "filter (\<lambda>c. c = x) e = []" by (auto simp: filter_empty_conv)
    with assms show False by simp
  qed
  then obtain l d where e: "e = l @ x # d" and l: "x \<notin> set l"
    by (auto dest: split_list_first)
  from l have "filter (\<lambda>c. c = x) l = []" by (auto simp: filter_empty_conv)
  with assms e have "filter (\<lambda>c. c = x) d = []" by simp
  then have "x \<notin> set d" by (auto simp: filter_empty_conv)
  with e l show ?thesis by blast
qed

lemma startsWith_single: "startsWith s [c] \<longleftrightarrow> s \<noteq> [] \<and> hd s = c"
  by (cases s) (auto simp: startsWith_def)

lemma endsWith_single: "endsWith s [c] \<longleftrightarrow> s \<noteq> [] \<and> last s = c"
  by (cases s rule: rev_cases) (auto simp: endsWith_def suffix_def)

lemma includesStr_single: "includesStr s [c] \<longleftrightarrow> c \<in> set s"
  by (auto simp: includesStr_def sublist_def in_set_conv_decomp)

lemma includes_at_dot:
  assumes "a \<notin> set l" "a \<notin> set d"
  shows "includesStr (l @ a # d) [a, b] \<longleftrightarrow> d \<noteq> [] \<and> hd d = b"
proof
  assume "includesStr (l @ a # d) [a, b]"
  then obtain ps ss where "l @ a # d = ps @ a # (b # ss)"
    by (auto simp: includesStr_def sublist_def)
  with append_Cons_eq_iff[OF assms, of ps "b # ss"] have "d = b # ss"
    by simp
  then show "d \<noteq> [] \<and> hd d = b" by simp
next
  assume "d \<noteq> [] \<and> hd d = b"
  then obtain ss where "d = b # ss" by (cases d) auto
  then have "l @ a # d = l @ [a, b] @ ss" by simp
  then show "includesStr (l @ a # d) [a, b]"
    unfolding includesStr_def sublist_def by blast
qed

lemma includes_dot_at:
  assumes "a \<notin> set l" "a \<notin> set d" "b \<noteq> a"
  shows "includesStr (l @ a # d) [b, a] \<longleftrightarrow> l \<noteq> [] \<and> last l = b"
proof
  assume "includesStr (l @ a # d) [b, a]"
  then obtain ps ss where "l @ a # d = (ps @ [b]) @ a # ss"
    by (auto simp: includesStr_def sublist_def)
  with append_Cons_eq_iff[OF assms(1,2), of "ps @ [b]" ss] have "l = ps @ [b]"
    by simp
  then show "l \<noteq> [] \<and> last l = b" by simp
next
  assume "l \<noteq> [] \<and> last l = b"
  then obtain ps where "l = ps @ [b]" by (cases l rule: rev_cases) auto
  then have "l @ a # d = ps @ [b, a] @ d" by simp
  then show "includesStr (l @ a # d) [b, a]"
    unfolding includesStr_def sublist_def by blast
qed


lemma localPartChar_not_space: "localPartChar c \<Longrightarrow> \<not> isSpace c"
  by (auto simp: localPartChar_def isSpace_def isUpperAZ_def isLowerAZ_def isDigit_def)

lemma isValidEmail_parts:
  assumes l: "CHR ''@'' \<notin> set l" and d: "CHR ''@'' \<notin> set d"
  shows "isValidEmail (l @ ''@'' @ d) \<longleftrightarrow>
     emailShape l d \<and> \<not> (length l < 3 \<and> placeholderSuffix (l @ ''@'' @ d))"
proof -
  have sp: "splitChar CHR ''@'' (l @ CHR ''@'' # d) = [l, d]"
    using l d by (simp add: splitChar_append_sep splitChar_absent)
  have cnt: "length (filter (\<lambda>c. c = CHR ''@'') (l @ CHR ''@'' # d)) = 1"
    using l d by (auto simp: filter_empty_conv)
  have parts: "length (splitChar CHR ''.'' d) < 2 \<longleftrightarrow> CHR ''.'' \<notin> set d"
    by (auto simp: length_splitChar filter_empty_conv)
  have at1: "includesStr (l @ CHR ''@'' # d) ''@.'' \<longleftrightarrow> d \<noteq> [] \<and> hd d = CHR ''.''"
    by (rule includes_at_dot[OF l d])
  have at2: "includesStr (l @ CHR ''@'' # d) ''.@'' \<longleftrightarrow> l \<noteq> [] \<and> last l = CHR ''.''"
    by (rule includes_dot_at[OF l d]) simp
  have spc: "(\<exists>c \<in> set (l @ CHR ''@'' # d). isSpace c) \<longleftrightarrow>
             (\<exists>c \<in> set l. isSpace c) \<or> (\<exists>c \<in> set d. isSpace c)"
    by (auto simp: isSpace_def)
  show ?thesis
    unfolding isValidEmail_def emailShape_def placeholderSuffix_def
    apply (simp only: append_Cons append_Nil sp cnt list.case Let_def)
    using localPartChar_not_space
    apply (simp add: startsWith_single endsWith_single includesStr_single parts at1 at2 spc
        last_splitChar finalLabel_def del: set_append)
    done
qed

lemma isValidEmail_one_at: "isValidEmail e \<Longrightarrow> length (filter (\<lambda>c. c = CHR ''@'') e) = 1"
  by (auto simp: isValidEmail_def split: if_splits)

lemma isValidEmail_length: "isValidEmail e \<Longrightarrow> 5 \<le> length e \<and> length e \<le> 100"
  by (auto simp: isValidEmail_def split: if_splits)

lemma isValidEmail_no_space:
  assumes "isValidEmail e" and "c \<in> set e"
  shows "\<not> isSpace c"
proof -
  obtain l d where e: "e = l @ ''@'' @ d" and l: "CHR ''@'' \<notin> set l" and d: "CHR ''@'' \<notin> set d"
    using count_one_decompose[OF isValidEmail_one_at[OF assms(1)]] by auto
  from assms(1) have "emailShape l d"
    unfolding e using isValidEmail_parts[OF l d] by simp
  then have "\<forall>c \<in> set l. \<not> isSpace c" and "\<forall>c \<in> set d. \<not> isSpace c"
    using localPartChar_not_space by (auto simp: emailShape_def)
  moreover have "\<not> isSpace CHR ''@''" by (simp add: isSpace_def)
  ultimately show ?thesis using assms(2) e by auto
qed

lemma isValidEmail_part_lengths:
  assumes "isValidEmail (l @ ''@'' @ d)"
  shows "length l \<le> 64 \<and> length d \<le> 255"
proof -
  have "length (filter (\<lambda>c. c = CHR ''@'') l) + 1 + length (filter (\<lambda>c. c = CHR ''@'') d) = 1"
    using isValidEmail_one_at[OF assms] by simp
  then have l: "CHR ''@'' \<notin> set l" and d: "CHR ''@'' \<notin> set d"
    by (auto simp: filter_empty_conv)
  from assms have "emailShape l d" using isValidEmail_parts[OF l d] by simp
  then show ?thesis by (auto simp: emailShape_def)
qed

text \<open>
  What \<open>isValidEmail\<close> accepts. For an address \<open>local@domain\<close> (no further \<open>@\<close>),
  \<open>isValidEmail\<close> holds exactly when the address has the shape \<open>emailShape\<close> (total length
  5 to 100; local part of 1 to 64 characters of \<open>[A-Za-z0-9._%-]\<close> with no leading,
  trailing or doubled dot; domain with a dot, no doubled dot, no leading or trailing dot
  or hyphen, no white space, a final label of at least 2 characters) and it is not the
  case that the local part is shorter than 3 characters while the whole address ends
  with one of the eight placeholder strings. Any string with white space, with a number of
  \<open>@\<close> other than one, with a length outside 5 to 100, or with a local part above 64 or a
  domain above 255 characters is rejected.
\<close>

lemma isValidEmail_characterisation:
  "(CHR ''@'' \<notin> set l \<longrightarrow> CHR ''@'' \<notin> set d \<longrightarrow>
      (isValidEmail (l @ ''@'' @ d) \<longleftrightarrow>
         emailShape l d \<and> \<not> (length l < 3 \<and> placeholderSuffix (l @ ''@'' @ d))))
   \<and> ((\<exists>c \<in> set e. isSpace c) \<longrightarrow> \<not> isValidEmail e)
   \<and> (length (filter (\<lambda>c. c = CHR ''@'') e) \<noteq> 1 \<longrightarrow> \<not> isValidEmail e)
   \<and> (length e < 5 \<or> length e > 100 \<longrightarrow> \<not> isValidEmail e)
   \<and> (length l > 64 \<or> length d > 255 \<longrightarrow> \<not> isValidEmail (l @ ''@'' @ d))"
proof -
  have 1: "CHR ''@'' \<notin> set l \<longrightarrow> CHR ''@'' \<notin> set d \<longrightarrow>
      (isValidEmail (l @ ''@'' @ d) \<longleftrightarrow>
         emailShape l d \<and> \<not> (length l < 3 \<and> placeholderSuffix (l @ ''@'' @ d)))"
    using isValidEmail_parts by blast
  have 2: "(\<exists>c \<in> set e. isSpace c) \<longrightarrow> \<not> isValidEmail e"
    using isValidEmail_no_space by blast
  have 3: "length (filter (\<lambda>c. c = CHR ''@'') e) \<noteq> 1 \<longrightarrow> \<not> isValidEmail e"
    using isValidEmail_one_at by blast
  have 4: "length e < 5 \<or> length e > 100 \<longrightarrow> \<not> isValidEmail e"
    using isValidEmail_length[of e] by auto
  have 5: "length l > 64 \<or> length d > 255 \<longrightarrow> \<not> isValidEmail (l @ ''@'' @ d)"
    using isValidEmail_part_lengths[of l d] by auto
  from 1 2 3 4 5 show ?thesis by blast
qed

lemma isValidEmail_characterisation_example:
  "CHR ''@'' \<notin> set ''joe'' \<and> CHR ''@'' \<notin> set ''mycompany.com''
   \<and> emailShape ''joe'' ''mycompany.com'' \<and> placeholderSuffix ''joe@mycompany.com''
   \<and> isValidEmail ''joe@mycompany.com''
   \<and> \<not> isValidEmail ''ab@example.com''
   \<and> \<not> isValidEmail ''jo e@x.io''
   \<and> \<not> isValidEmail ''jo@e@x.io''
   \<and> \<not> isValidEmail ''a@b.''"
proof -
  have a: "CHR ''@'' \<notin> set ''joe''" "CHR ''@'' \<notin> set ''mycompany.com''"
          "CHR ''@'' \<notin> set ''ab''" "CHR ''@'' \<notin> set ''example.com''" by simp_all
  have s: "emailShape ''joe'' ''mycompany.com''" by code_simp
  have p: "placeholderSuffix ''joe@mycompany.com''" by code_simp
  have p': "placeholderSuffix (''ab'' @ ''@'' @ ''example.com'')" by code_simp
  have w: "\<exists>c \<in> set ''jo e@x.io''. isSpace c" by code_simp
  have n: "length (filter (\<lambda>c. c = CHR ''@'') ''jo@e@x.io'') \<noteq> 1" by simp
  have k: "length ''a@b.'' < 5" by simp
  have j: "\<not> length ''joe'' < 3" and j': "length ''ab'' < 3" by simp_all
  note T1 = isValidEmail_characterisation[of "''joe''" "''mycompany.com''" "''jo e@x.io''"]
  note T2 = isValidEmail_characterisation[of "''ab''" "''example.com''" "''jo@e@x.io''"]
  note T3 = isValidEmail_characterisation[of "''ab''" "''example.com''" "''a@b.''"]
  have 1: "isValidEmail (''joe'' @ ''@'' @ ''mycompany.com'')" using T1 a s j by blast
  have 2: "\<not> isValidEmail ''jo e@x.io''" using T1 w by blast
  have 3: "\<not> isValidEmail (''ab'' @ ''@'' @ ''example.com'')" using T2 a p' j' by auto
  have 4: "\<not> isValidEmail ''jo@e@x.io''" using T2 n by blast
  have 5: "\<not> isValidEmail ''a@b.''" using T3 k by blast
  from a s p 1 2 3 4 5 show ?thesis by simp
qed

text \<open>
  C8. The placeholder rule of \<open>isValidEmail\<close> tests whether the whole address ends with
  an entry of \<open>invalidDomains\<close>, not whether its domain is one: every address whose local
  part is shorter than 3 characters and whose domain ends with a placeholder string is
  rejected, whatever stands in the domain before that string. So \<open>jo@mycompany.com\<close> and
  \<open>al@contest.com\<close> are rejected, though \<open>mycompany.com\<close> and \<open>contest.com\<close> are no
  placeholder domains and both addresses have the required shape; \<open>joe@mycompany.com\<close>
  is accepted.
\<close>

theorem isValidEmail_placeholder_suffix:
  assumes "CHR ''@'' \<notin> set l" and "CHR ''@'' \<notin> set (x @ p)"
    and "p \<in> set invalidDomains" and "length l < 3"
  shows "\<not> isValidEmail (l @ ''@'' @ x @ p)"
proof -
  have "endsWith (l @ ''@'' @ x @ p) p"
    by (simp add: endsWith_def suffix_def)
  then have "placeholderSuffix (l @ ''@'' @ x @ p)"
    using assms(3) by (auto simp: placeholderSuffix_def)
  then show ?thesis
    using isValidEmail_parts[OF assms(1,2)] assms(4) by blast
qed

theorem isValidEmail_placeholder_suffix_witness:
  "CHR ''@'' \<notin> set ''jo'' \<and> CHR ''@'' \<notin> set ''mycompany.com''
   \<and> ''company.com'' \<in> set invalidDomains \<and> length ''jo'' < 3
   \<and> emailShape ''jo'' ''mycompany.com''
   \<and> ''mycompany.com'' \<notin> set invalidDomains
   \<and> \<not> isValidEmail ''jo@mycompany.com''
   \<and> isValidEmail ''joe@mycompany.com''
   \<and> emailShape ''al'' ''contest.com''
   \<and> ''contest.com'' \<notin> set invalidDomains
   \<and> \<not> isValidEmail ''al@contest.com''"
proof -
  have a: "CHR ''@'' \<notin> set ''jo''" "CHR ''@'' \<notin> set (''my'' @ ''company.com'')"
          "CHR ''@'' \<notin> set ''al''" "CHR ''@'' \<notin> set (''con'' @ ''test.com'')" by simp_all
  have i: "''company.com'' \<in> set invalidDomains" "''test.com'' \<in> set invalidDomains"
    by (simp_all add: invalidDomains_def)
  have n: "''mycompany.com'' \<notin> set invalidDomains" "''contest.com'' \<notin> set invalidDomains"
    by (simp_all add: invalidDomains_def)
  have k: "length ''jo'' < 3" "length ''al'' < 3" by simp_all
  have s: "emailShape ''jo'' ''mycompany.com''" "emailShape ''al'' ''contest.com''"
    by code_simp+
  have v: "isValidEmail ''joe@mycompany.com''" by code_simp
  have 1: "\<not> isValidEmail ''jo@mycompany.com''"
    using isValidEmail_placeholder_suffix[OF a(1) a(2) i(1) k(1)] by simp
  have 2: "\<not> isValidEmail ''al@contest.com''"
    using isValidEmail_placeholder_suffix[OF a(3) a(4) i(2) k(2)] by simp
  from a i n k s v 1 2 show ?thesis by simp
qed


section \<open>Skill extraction\<close>

lemma setAdd_dictionary:
  "set f \<subseteq> set skillKeywords \<Longrightarrow> k \<in> set skillKeywords \<Longrightarrow> set (setAdd f k) \<subseteq> set skillKeywords"
  by (auto simp: setAdd_def)

lemma addKnownSkills_dictionary:
  "set f \<subseteq> set skillKeywords \<Longrightarrow> set (addKnownSkills f skill) \<subseteq> set skillKeywords"
  unfolding addKnownSkills_def
  by (rule foldl_invariant[where P = "\<lambda>f. set f \<subseteq> set skillKeywords"])
     (simp_all add: setAdd_dictionary)

lemma addContextSkills_dictionary:
  assumes "set f \<subseteq> set skillKeywords"
  shows "set (addContextSkills f m) \<subseteq> set skillKeywords"
proof -
  have "set (foldl addKnownSkills f ps) \<subseteq> set skillKeywords" for ps
    by (rule foldl_invariant[where P = "\<lambda>f. set f \<subseteq> set skillKeywords", OF assms])
       (rule addKnownSkills_dictionary)
  with assms show ?thesis
    by (simp add: addContextSkills_def split: option.split)
qed

lemma addBulletSkills_dictionary:
  "set f \<subseteq> set skillKeywords \<Longrightarrow> set (addBulletSkills f b) \<subseteq> set skillKeywords"
  unfolding addBulletSkills_def Let_def
  by (rule foldl_invariant[where P = "\<lambda>f. set f \<subseteq> set skillKeywords"])
     (simp_all add: setAdd_dictionary)

lemma extractSkillsFromText_dictionary:
  "set (extractSkillsFromText text isJobDescription aggressive) \<subseteq> set skillKeywords"
proof -
  let ?I = "\<lambda>f. set f \<subseteq> set skillKeywords"
  define found1 where "found1 =
    foldl (\<lambda>found skill. if test (keywordRx skill) text then setAdd found skill else found)
          [] skillKeywords"
  define found2 where "found2 =
    foldl (\<lambda>found pattern. foldl addContextSkills found (matchAll pattern text))
          found1 experiencePatterns"
  have 1: "?I found1"
    unfolding found1_def
    by (rule foldl_invariant[where P = ?I]) (simp_all add: setAdd_dictionary)
  have 2: "?I found2"
    unfolding found2_def
  proof (rule foldl_invariant[where P = ?I, OF 1])
    fix s :: "string list" and pattern
    assume s: "?I s"
    show "?I (foldl addContextSkills s (matchAll pattern text))"
      by (rule foldl_invariant[where P = ?I, OF s]) (rule addContextSkills_dictionary)
  qed
  have 3: "?I (foldl addBulletSkills found2 (matchAll bulletRegex text))"
    by (rule foldl_invariant[where P = ?I, OF 2]) (rule addBulletSkills_dictionary)
  show ?thesis
    using 1 3 by (simp add: extractSkillsFromText_def Let_def found1_def found2_def)
qed

subsection \<open>A contextual phrase that reaches the result\<close>

lemma setAdd_keeps: "x \<in> set f \<Longrightarrow> x \<in> set (setAdd f k)"
  by (simp add: setAdd_def)

lemma addKnownSkills_keeps: "x \<in> set f \<Longrightarrow> x \<in> set (addKnownSkills f skill)"
  unfolding addKnownSkills_def
  by (rule foldl_invariant[where P = "\<lambda>f. x \<in> set f"]) (simp_all add: setAdd_keeps)

lemma addKnownSkills_adds:
  assumes "known \<in> set skillKeywords"
    and "includesStr (toLowerCase skill) (toLowerCase known)
         \<or> includesStr (toLowerCase known) (toLowerCase skill)"
  shows "known \<in> set (addKnownSkills f skill)"
  unfolding addKnownSkills_def
  by (rule foldl_member_intro[where y = known])
     (use assms in \<open>auto simp: setAdd_def\<close>)

lemma addContextSkills_keeps: "x \<in> set f \<Longrightarrow> x \<in> set (addContextSkills f m)"
proof -
  assume x: "x \<in> set f"
  have "x \<in> set (foldl addKnownSkills f ps)" for ps
    by (rule foldl_invariant[where P = "\<lambda>f. x \<in> set f", OF x]) (rule addKnownSkills_keeps)
  with x show ?thesis by (simp add: addContextSkills_def split: option.split)
qed

lemma addBulletSkills_keeps: "x \<in> set f \<Longrightarrow> x \<in> set (addBulletSkills f b)"
  unfolding addBulletSkills_def Let_def
  by (rule foldl_invariant[where P = "\<lambda>f. x \<in> set f"]) (simp_all add: setAdd_keeps)

lemma addContextSkills_adds:
  assumes "group m 1 = Some g" and "g \<noteq> []" and "skill \<in> set (potentialSkills g)"
    and "known \<in> set skillKeywords"
    and "includesStr (toLowerCase skill) (toLowerCase known)
         \<or> includesStr (toLowerCase known) (toLowerCase skill)"
  shows "known \<in> set (addContextSkills f m)"
proof -
  have "known \<in> set (foldl addKnownSkills f (potentialSkills g))"
  proof (rule foldl_member_intro[where y = skill])
    show "skill \<in> set (potentialSkills g)" by (rule assms(3))
    show "\<And>s. known \<in> set (addKnownSkills s skill)" by (rule addKnownSkills_adds[OF assms(4,5)])
    show "\<And>s y. known \<in> set s \<Longrightarrow> known \<in> set (addKnownSkills s y)" by (rule addKnownSkills_keeps)
  qed
  then show ?thesis using assms(1,2) by (simp add: addContextSkills_def)
qed

lemma context_scan_finds:
  assumes "pattern \<in> set experiencePatterns" and "m \<in> set (matchAll pattern text)"
    and "group m 1 = Some g" and "g \<noteq> []" and "skill \<in> set (potentialSkills g)"
    and "known \<in> set skillKeywords"
    and "includesStr (toLowerCase skill) (toLowerCase known)
         \<or> includesStr (toLowerCase known) (toLowerCase skill)"
  shows "known \<in> set (extractSkillsFromText text isJobDescription True)"
proof -
  let ?step = "\<lambda>found pattern. foldl addContextSkills found (matchAll pattern text)"
  have keep: "known \<in> set s \<Longrightarrow> known \<in> set (?step s p)" for s p
    by (rule foldl_invariant[where P = "\<lambda>f. known \<in> set f"]) (simp_all add: addContextSkills_keeps)
  have add: "known \<in> set (?step s pattern)" for s
  proof (rule foldl_member_intro[where y = m])
    show "m \<in> set (matchAll pattern text)" by (rule assms(2))
    show "\<And>s. known \<in> set (addContextSkills s m)"
      by (rule addContextSkills_adds[OF assms(3,4,5,6,7)])
    show "\<And>s y. known \<in> set s \<Longrightarrow> known \<in> set (addContextSkills s y)"
      by (rule addContextSkills_keeps)
  qed
  have 2: "known \<in> set (foldl ?step s0 experiencePatterns)" for s0
    by (rule foldl_member_intro[where y = pattern]) (simp_all add: assms(1) add keep)
  have "known \<in> set (foldl addBulletSkills (foldl ?step s0 experiencePatterns) bs)" for s0 bs
    by (rule foldl_invariant[where P = "\<lambda>f. known \<in> set f", OF 2]) (rule addBulletSkills_keeps)
  then show ?thesis by (simp add: extractSkillsFromText_def Let_def)
qed

text \<open>
  C9. Whatever the text and the mode, every skill returned by \<open>extractSkillsFromText\<close> is an
  entry of the keyword dictionary \<open>skillKeywords\<close>, in the dictionary's own spelling: the
  direct scan, the contextual patterns and the bullet scan all add the dictionary entry
  that matched, never the phrase found in the text.
\<close>

theorem extractSkills_in_dictionary:
  "\<forall>s \<in> set (extractSkillsFromText text isJobDescription aggressive). s \<in> set skillKeywords"
  using extractSkillsFromText_dictionary by blast

theorem extractSkills_in_dictionary_witness:
  "''PostgreSQL'' \<in> set (extractSkillsFromText ''knowledge of postgres and git'' False True)
   \<and> ''PostgreSQL'' \<in> set skillKeywords
   \<and> ''postgres'' \<notin> set (extractSkillsFromText ''knowledge of postgres and git'' False True)"
proof -
  have p: "experiencePatterns ! 1 \<in> set experiencePatterns"
    by (simp add: experiencePatterns_def)
  have m: "matchAll (experiencePatterns ! 1) ''knowledge of postgres and git''
           = [(''knowledge of postgres and'', [(1, ''postgres'')])]"
    by code_simp
  have g: "group (''knowledge of postgres and'', [(1, ''postgres'')]) 1 = Some ''postgres''"
    by (simp add: group_def)
  have ps: "potentialSkills ''postgres'' = [''postgres'']" by code_simp
  have k: "''PostgreSQL'' \<in> set skillKeywords" by (simp add: skillKeywords_def)
  have i: "includesStr (toLowerCase ''PostgreSQL'') (toLowerCase ''postgres'')" by code_simp
  have n: "''postgres'' \<notin> set skillKeywords" by (simp add: skillKeywords_def)
  have a: "''PostgreSQL'' \<in> set (extractSkillsFromText ''knowledge of postgres and git'' False True)"
  proof (rule context_scan_finds[OF p _ g _ _ k disjI2[OF i]])
    show "(''knowledge of postgres and'', [(1, ''postgres'')])
          \<in> set (matchAll (experiencePatterns ! 1) ''knowledge of postgres and git'')"
      unfolding m by simp
    show "''postgres'' \<noteq> []" by simp
    show "''postgres'' \<in> set (potentialSkills ''postgres'')" unfolding ps by simp
  qed
  from extractSkills_in_dictionary[of "''knowledge of postgres and git''" False True] a k n
  show ?thesis by blast
qed


section \<open>The skill match scorer\<close>

subsection \<open>The score stays within 0 and 100\<close>

lemma roundHalfEven_le:
  assumes "den > 0" and "num \<le> N * den"
  shows "roundHalfEven num den \<le> N"
proof -
  have "num div den \<le> (N * den) div den" by (rule div_le_mono[OF assms(2)])
  with assms(1) have q: "num div den \<le> N" by simp
  show ?thesis
  proof (cases "num div den = N")
    case True
    have "N * den + num mod den = num" using True div_mult_mod_eq[of num den] by simp
    with assms(2) have "num mod den = 0" by linarith
    with True assms(1) show ?thesis by (simp add: roundHalfEven_def Let_def)
  next
    case False
    with q have "num div den + 1 \<le> N" by simp
    then show ?thesis by (auto simp: roundHalfEven_def Let_def)
  qed
qed

lemma bitLength_bounds: "n > 0 \<Longrightarrow> 2 ^ (bitLength n - 1) \<le> n \<and> n < 2 ^ bitLength n"
proof (induction n rule: bitLength.induct)
  case (1 n)
  show ?case
  proof (cases "n div 2 = 0")
    case True
    with 1(2) have "n = 1" by (cases n) auto
    moreover have "bitLength 1 = 1"
      by (subst bitLength.simps, simp, subst bitLength.simps, simp)
    ultimately show ?thesis by simp
  next
    case False
    then have ih: "2 ^ (bitLength (n div 2) - 1) \<le> n div 2" "n div 2 < 2 ^ bitLength (n div 2)"
      using 1 by auto
    have pos: "bitLength (n div 2) > 0" using False by (subst bitLength.simps) simp
    have bl: "bitLength n = Suc (bitLength (n div 2))" using 1(2) by (subst bitLength.simps) simp
    have a: "(2::nat) ^ (bitLength n - 1) = 2 * 2 ^ (bitLength (n div 2) - 1)"
      using pos bl by (cases "bitLength (n div 2)") auto
    have b: "(2::nat) ^ bitLength n = 2 * 2 ^ bitLength (n div 2)" using bl by simp
    have c: "2 * (n div 2) \<le> n" by simp
    have d: "n < 2 * (n div 2) + 2" by presburger
    show ?thesis unfolding a b using ih c d by linarith
  qed
qed


lemma binaryExponent_less:
  assumes a: "a > 0" and b: "b > 0" and le: "a \<le> N * b" and N: "N < 2 ^ 52"
  shows "binaryExponent a b < 52"
proof -
  define k where "k = int (bitLength a) - int (bitLength b)"
  define T where "T = (2::nat) ^ 52"
  have lt: "a < b * T"
  proof -
    have "N < T" using N by (simp add: T_def)
    with b have "N * b < T * b" by simp
    with le have "a < T * b" by linarith
    then show ?thesis by (simp only: mult.commute)
  qed
  define c where "c = (if k \<ge> 0 then a \<ge> b * 2 ^ nat k else a * 2 ^ nat (- k) \<ge> b)"
  have be: "binaryExponent a b = (if c then k else k - 1)"
    by (simp add: binaryExponent_def Let_def c_def k_def)
  show ?thesis
  proof (cases c)
    case True
    show ?thesis
    proof (cases "k \<ge> 0")
      case False
      with be True show ?thesis by simp
    next
      case kpos: True
      with True have "b * 2 ^ nat k \<le> a" by (simp add: c_def)
      with lt have "b * 2 ^ nat k < b * T" by linarith
      then have "(2::nat) ^ nat k < 2 ^ 52" unfolding T_def by (simp only: mult_less_cancel1)
      then have "nat k < 52" by (rule power_less_imp_less_exp[rotated]) simp
      with be True kpos show ?thesis by simp
    qed
  next
    case False
    have 1: "2 ^ (bitLength a - 1) \<le> a" using bitLength_bounds[OF a] by simp
    have "b < 2 ^ bitLength b" using bitLength_bounds[OF b] by simp
    then have "b * T < 2 ^ bitLength b * T" by (simp add: T_def)
    with 1 lt have "(2::nat) ^ (bitLength a - 1) < 2 ^ bitLength b * T" by linarith
    then have "(2::nat) ^ (bitLength a - 1) < 2 ^ (bitLength b + 52)"
      unfolding T_def by (simp only: power_add)
    then have "bitLength a - 1 < bitLength b + 52"
      by (rule power_less_imp_less_exp[rotated]) simp
    then have "k \<le> 52" by (simp add: k_def)
    with be False show ?thesis by simp
  qed
qed

lemma toDouble_le:
  assumes b: "b > 0" and le: "a \<le> N * b" and N: "N < 2 ^ 52"
  shows "fst (toDouble a b) \<le> N * 2 ^ snd (toDouble a b)"
proof (cases "a = 0")
  case True
  then show ?thesis by (simp add: toDouble_def)
next
  case False
  then have a: "a > 0" by simp
  define s where "s = nat (- (binaryExponent a b - 52))"
  have neg: "\<not> binaryExponent a b - 52 \<ge> 0"
    using binaryExponent_less[OF a b le N] by simp
  have td: "toDouble a b = (roundHalfEven (a * 2 ^ s) b, s)"
    using False b neg by (simp add: toDouble_def Let_def s_def)
  have "a * 2 ^ s \<le> (N * 2 ^ s) * b" using le by (simp add: mult.commute mult.left_commute)
  from roundHalfEven_le[OF b this] show ?thesis by (simp add: td)
qed

lemma mathRound_le:
  assumes "fst y \<le> N * 2 ^ snd y"
  shows "mathRound y \<le> N"
proof -
  let ?p = "(2::nat) ^ snd y"
  have p: "?p > 0" by simp
  have "2 * fst y \<le> 2 * (N * ?p)" using assms by simp
  then have "2 * fst y + ?p < 2 * (N * ?p) + 2 * ?p" using p by linarith
  also have "\<dots> = (N + 1) * (2 * ?p)" by (simp add: algebra_simps)
  finally have "2 * fst y + ?p < (N + 1) * (2 * ?p)" .
  then have "(2 * fst y + ?p) div (2 * ?p) < N + 1" by (rule less_mult_imp_div_less)
  then show ?thesis by (simp add: mathRound_def)
qed

lemma percentage_le_100: "m \<le> n \<Longrightarrow> percentage m n \<le> 100"
proof (cases "n = 0")
  case True
  then show ?thesis by (simp add: percentage_def divDouble_def mulDouble_def toDouble_def mathRound_def)
next
  case False
  assume le: "m \<le> n"
  define x where "x = divDouble m n"
  define y where "y = mulDouble x 100"
  have x: "fst x \<le> 1 * 2 ^ snd x"
    unfolding x_def divDouble_def by (rule toDouble_le) (use False le in auto)
  have "fst x * 100 \<le> 100 * 2 ^ snd x" using x by simp
  then have y: "fst y \<le> 100 * 2 ^ snd y"
    unfolding y_def mulDouble_def by (intro toDouble_le) auto
  show ?thesis
    using mathRound_le[OF y] by (simp add: percentage_def x_def y_def)
qed

lemma percentage_zero: "percentage 0 n = 0"
  by (simp add: percentage_def divDouble_def mulDouble_def toDouble_def mathRound_def)


subsection \<open>The later copies of a skill\<close>

lemma set_firsts: "set (firsts xs) = set xs"
  by (induction xs rule: firsts.induct) auto

lemma distinct_firsts: "distinct (firsts xs)"
  by (induction xs rule: firsts.induct) (auto simp: set_firsts)

lemma length_firsts: "length (firsts xs) = card (set xs)"
  using distinct_card[OF distinct_firsts, of xs] by (simp add: set_firsts)

lemma length_firsts_le: "length (firsts xs) \<le> length xs"
  by (simp add: length_firsts card_length)

lemma length_firsts_split:
  assumes "\<And>x. x \<in> set xs \<Longrightarrow> \<not> (P x \<and> Q x)"
  shows "length (firsts (filter (\<lambda>x. P x \<or> Q x) xs))
         = length (firsts (filter P xs)) + length (firsts (filter Q xs))"
proof -
  have "set (filter (\<lambda>x. P x \<or> Q x) xs) = set (filter P xs) \<union> set (filter Q xs)" by auto
  moreover have "set (filter P xs) \<inter> set (filter Q xs) = {}" using assms by auto
  ultimately show ?thesis
    by (simp only: length_firsts) (rule card_Un_disjoint, simp_all)
qed

lemma three_filters_le:
  assumes "\<And>x. \<not> (A x \<and> B x)" and "\<And>x. \<not> (A x \<and> C x)" and "\<And>x. \<not> (B x \<and> C x)"
  shows "length (filter A xs) + length (filter B xs) + length (filter C xs) \<le> length xs"
  using assms by (induction xs) auto

subsection \<open>The three loops in closed form\<close>

lemma hit_fields:
  "matchCount (hit st r ev) = matchCount st + 1"
  "set (matchedSkills (hit st r ev)) = insert r (set (matchedSkills st))"
  "matchLog (hit st r ev) = matchLog st @ [ev]"
  by (simp_all add: hit_def)

lemma foldl_exactStep:
  "matchCount (foldl (exactStep nc) st xs) = matchCount st + length (filter (exactTier nc) xs)
   \<and> set (matchedSkills (foldl (exactStep nc) st xs))
       = set (matchedSkills st) \<union> {r \<in> set xs. exactTier nc r}
   \<and> matchLog (foldl (exactStep nc) st xs)
       = matchLog st @ map ExactMatch (filter (exactTier nc) xs)"
proof (induction xs arbitrary: st)
  case Nil
  then show ?case by simp
next
  case (Cons x xs)
  show ?case
  proof (cases "exactTier nc x")
    case True
    then have "exactStep nc st x = hit st x (ExactMatch x)"
      by (simp add: exactStep_def exactTier_def)
    with Cons[of "hit st x (ExactMatch x)"] True show ?thesis
      by (auto simp: hit_fields)
  next
    case False
    then have "exactStep nc st x = st" by (simp add: exactStep_def exactTier_def)
    with Cons[of st] False show ?thesis by auto
  qed
qed

lemma foldl_keyedStep:
  "matchCount (foldl (keyedStep ok ev) st xs)
     = matchCount st + length (firsts (filter (\<lambda>r. ok r \<and> r \<notin> set (matchedSkills st)) xs))
   \<and> set (matchedSkills (foldl (keyedStep ok ev) st xs))
       = set (matchedSkills st) \<union> {r \<in> set xs. ok r}
   \<and> matchLog (foldl (keyedStep ok ev) st xs)
       = matchLog st @ map ev (firsts (filter (\<lambda>r. ok r \<and> r \<notin> set (matchedSkills st)) xs))"
proof (induction xs arbitrary: st)
  case Nil
  then show ?case by simp
next
  case (Cons x xs)
  show ?case
  proof (cases "ok x \<and> x \<notin> set (matchedSkills st)")
    case True
    then have step: "keyedStep ok ev st x = hit st x (ev x)" by (simp add: keyedStep_def)
    have "filter (\<lambda>y. y \<noteq> x) (filter (\<lambda>r. ok r \<and> r \<notin> set (matchedSkills st)) xs)
             = filter (\<lambda>r. ok r \<and> r \<notin> set (matchedSkills (hit st x (ev x)))) xs"
      by (auto simp: hit_fields intro: filter_cong)
    with True
    have f: "firsts (filter (\<lambda>r. ok r \<and> r \<notin> set (matchedSkills st)) (x # xs))
             = x # firsts (filter (\<lambda>r. ok r \<and> r \<notin> set (matchedSkills (hit st x (ev x)))) xs)"
      by simp
    have g: "{r \<in> set (x # xs). ok r} = insert x {r \<in> set xs. ok r}" using True by auto
    show ?thesis
      unfolding foldl_Cons step f g using Cons[of "hit st x (ev x)"]
      by (simp add: hit_fields)
  next
    case False
    then have step: "keyedStep ok ev st x = st" by (auto simp: keyedStep_def)
    show ?thesis using Cons[of st] False by (auto simp: step)
  qed
qed

lemma substantialTier_find:
  "substantialTier nc r \<longleftrightarrow> find (\<lambda>c. isSubstantialMatch c r) nc \<noteq> None"
  by (auto simp: substantialTier_def find_None_iff)

lemma equivalentTier_find:
  "equivalentTier nc r \<longleftrightarrow>
     find (\<lambda>g. r \<in> set g \<and> hasEquivalent nc g) technologyEquivalents \<noteq> None"
  by (auto simp: equivalentTier_def find_None_iff)

lemma middleStep_keyed:
  "middleStep nc = keyedStep (\<lambda>r. partialTier nc r \<or> substantialTier nc r) (middleEvent nc)"
  by (rule ext, rule ext)
     (auto simp: middleStep_def keyedStep_def middleEvent_def partialTier_def
        substantialTier_find split: option.splits)

lemma equivalentStep_keyed:
  "equivalentStep nc = keyedStep (equivalentTier nc) EquivalentMatch"
  by (rule ext, rule ext)
     (auto simp: equivalentStep_def keyedStep_def equivalentTier_find split: option.splits)

lemma partialStep_keyed: "partialStep nc = keyedStep (partialTier nc) PartialMatch"
  by (rule ext, rule ext) (auto simp: partialStep_def keyedStep_def partialTier_def)



lemma substantialStep_keyed:
  "substantialStep nc = keyedStep (substantialTier nc) (substantialEvent nc)"
  by (rule ext, rule ext)
     (auto simp: substantialStep_def keyedStep_def substantialEvent_def
        substantialTier_find split: option.splits)

lemma tierEvent_exact: "firstTier nc r = Some Exact \<Longrightarrow> tierEvent nc r = ExactMatch r"
  by (auto simp: firstTier_def tierEvent_def split: if_splits)

lemma tierEvent_middle:
  "firstTier nc r = Some Partial \<or> firstTier nc r = Some Substantial \<Longrightarrow>
   tierEvent nc r = middleEvent nc r"
  by (auto simp: firstTier_def tierEvent_def middleEvent_def split: if_splits)

lemma tierEvent_equivalent:
  "firstTier nc r = Some Equivalent \<Longrightarrow> tierEvent nc r = EquivalentMatch r"
  by (auto simp: firstTier_def tierEvent_def substantialTier_find split: if_splits)

lemma matchRun_closed:
  "matchCount (matchRun nc nr) = length (matchOrder nc nr)
   \<and> matchLog (matchRun nc nr) = map (tierEvent nc) (matchOrder nc nr)"
proof -
  define st0 where "st0 = \<lparr> matchedSkills = [], matchCount = 0, matchLog = [] \<rparr>"
  define st1 where "st1 = foldl (exactStep nc) st0 nr"
  define st2 where "st2 = foldl (middleStep nc) st1 nr"
  define st3 where "st3 = foldl (equivalentStep nc) st2 nr"
  let ?mid = "\<lambda>r. partialTier nc r \<or> substantialTier nc r"
  let ?E = "filter (\<lambda>r. firstTier nc r = Some Exact) nr"
  let ?M = "filter (\<lambda>r. firstTier nc r = Some Partial \<or> firstTier nc r = Some Substantial) nr"
  let ?Q = "filter (\<lambda>r. firstTier nc r = Some Equivalent) nr"
  have run: "matchRun nc nr = st3"
    by (simp add: matchRun_def Let_def st0_def st1_def st2_def st3_def)
  have e: "filter (exactTier nc) nr = ?E"
    by (rule filter_cong) (auto simp: firstTier_def)
  have 1: "matchCount st1 = length ?E"
    "set (matchedSkills st1) = {r \<in> set nr. exactTier nc r}"
    "matchLog st1 = map ExactMatch ?E"
    using foldl_exactStep[of nc st0 nr] by (simp_all add: st1_def[symmetric] e) (simp_all add: st0_def)
  have m: "filter (\<lambda>r. ?mid r \<and> r \<notin> set (matchedSkills st1)) nr = ?M"
    by (rule filter_cong) (auto simp: 1(2) firstTier_def)
  have 2: "matchCount st2 = length ?E + length (firsts ?M)"
    "set (matchedSkills st2) = {r \<in> set nr. exactTier nc r} \<union> {r \<in> set nr. ?mid r}"
    "matchLog st2 = map ExactMatch ?E @ map (middleEvent nc) (firsts ?M)"
    using foldl_keyedStep[of ?mid "middleEvent nc" st1 nr, unfolded m]
    by (simp_all add: st2_def middleStep_keyed 1)
  have q: "filter (\<lambda>r. equivalentTier nc r \<and> r \<notin> set (matchedSkills st2)) nr = ?Q"
    by (rule filter_cong) (auto simp: 2(2) firstTier_def)
  have 3: "matchCount st3 = length ?E + length (firsts ?M) + length (firsts ?Q)"
    "matchLog st3 = map ExactMatch ?E @ map (middleEvent nc) (firsts ?M)
                    @ map EquivalentMatch (firsts ?Q)"
    using foldl_keyedStep[of "equivalentTier nc" EquivalentMatch st2 nr, unfolded q]
    by (simp_all add: st3_def equivalentStep_keyed 2)
  have ev1: "map ExactMatch ?E = map (tierEvent nc) ?E"
    by (rule map_cong) (simp_all add: tierEvent_exact)
  have ev2: "map (middleEvent nc) (firsts ?M) = map (tierEvent nc) (firsts ?M)"
  proof (rule map_cong[OF refl])
    fix r assume "r \<in> set (firsts ?M)"
    then have "r \<in> set ?M" by (simp only: set_firsts)
    then show "middleEvent nc r = tierEvent nc r" by (simp add: tierEvent_middle)
  qed
  have ev3: "map EquivalentMatch (firsts ?Q) = map (tierEvent nc) (firsts ?Q)"
  proof (rule map_cong[OF refl])
    fix r assume "r \<in> set (firsts ?Q)"
    then have "r \<in> set ?Q" by (simp only: set_firsts)
    then show "EquivalentMatch r = tierEvent nc r" by (simp add: tierEvent_equivalent)
  qed
  show ?thesis
    unfolding run by (simp add: 3 ev1 ev2 ev3 matchOrder_def)
qed

lemma matchOrder_le: "length (matchOrder nc nr) \<le> length nr"
proof -
  let ?A = "\<lambda>r. firstTier nc r = Some Exact"
  let ?B = "\<lambda>r. firstTier nc r = Some Partial \<or> firstTier nc r = Some Substantial"
  let ?C = "\<lambda>r. firstTier nc r = Some Equivalent"
  have "length (filter ?A nr) + length (filter ?B nr) + length (filter ?C nr) \<le> length nr"
    by (rule three_filters_le) auto
  moreover have "length (firsts (filter ?B nr)) \<le> length (filter ?B nr)"
    by (rule length_firsts_le)
  moreover have "length (firsts (filter ?C nr)) \<le> length (filter ?C nr)"
    by (rule length_firsts_le)
  ultimately show ?thesis by (simp add: matchOrder_def)
qed

lemma fourPassRun_count: "matchCount (fourPassRun nc nr) = length (matchOrder nc nr)"
proof -
  define st0 where "st0 = \<lparr> matchedSkills = [], matchCount = 0, matchLog = [] \<rparr>"
  define st1 where "st1 = foldl (exactStep nc) st0 nr"
  define st2 where "st2 = foldl (partialStep nc) st1 nr"
  define st3 where "st3 = foldl (substantialStep nc) st2 nr"
  define st4 where "st4 = foldl (equivalentStep nc) st3 nr"
  let ?E = "filter (\<lambda>r. firstTier nc r = Some Exact) nr"
  let ?P = "filter (\<lambda>r. firstTier nc r = Some Partial) nr"
  let ?S = "filter (\<lambda>r. firstTier nc r = Some Substantial) nr"
  let ?Q = "filter (\<lambda>r. firstTier nc r = Some Equivalent) nr"
  have run: "fourPassRun nc nr = st4"
    by (simp add: fourPassRun_def Let_def st0_def st1_def st2_def st3_def st4_def)
  have e: "filter (exactTier nc) nr = ?E"
    by (rule filter_cong) (auto simp: firstTier_def)
  have 1: "matchCount st1 = length ?E"
    "set (matchedSkills st1) = {r \<in> set nr. exactTier nc r}"
    using foldl_exactStep[of nc st0 nr] by (simp_all add: st1_def[symmetric] e) (simp_all add: st0_def)
  have p: "filter (\<lambda>r. partialTier nc r \<and> r \<notin> set (matchedSkills st1)) nr = ?P"
    by (rule filter_cong) (auto simp: 1(2) firstTier_def)
  have 2: "matchCount st2 = length ?E + length (firsts ?P)"
    "set (matchedSkills st2) = {r \<in> set nr. exactTier nc r} \<union> {r \<in> set nr. partialTier nc r}"
    using foldl_keyedStep[of "partialTier nc" PartialMatch st1 nr, unfolded p]
    by (simp_all add: st2_def partialStep_keyed 1)
  have s: "filter (\<lambda>r. substantialTier nc r \<and> r \<notin> set (matchedSkills st2)) nr = ?S"
    by (rule filter_cong) (auto simp: 2(2) firstTier_def)
  have 3: "matchCount st3 = length ?E + length (firsts ?P) + length (firsts ?S)"
    "set (matchedSkills st3) = {r \<in> set nr. exactTier nc r} \<union> {r \<in> set nr. partialTier nc r}
                               \<union> {r \<in> set nr. substantialTier nc r}"
    using foldl_keyedStep[of "substantialTier nc" "substantialEvent nc" st2 nr, unfolded s]
    by (simp_all add: st3_def substantialStep_keyed 2)
  have q: "filter (\<lambda>r. equivalentTier nc r \<and> r \<notin> set (matchedSkills st3)) nr = ?Q"
    by (rule filter_cong) (auto simp: 3(2) firstTier_def)
  have 4: "matchCount st4 = length ?E + length (firsts ?P) + length (firsts ?S) + length (firsts ?Q)"
    using foldl_keyedStep[of "equivalentTier nc" EquivalentMatch st3 nr, unfolded q]
    by (simp add: st4_def equivalentStep_keyed 3)
  have "length (firsts (filter (\<lambda>r. firstTier nc r = Some Partial \<or> firstTier nc r = Some Substantial) nr))
        = length (firsts ?P) + length (firsts ?S)"
    by (rule length_firsts_split) simp
  then show ?thesis unfolding run by (simp add: 4 matchOrder_def)
qed

subsection \<open>The score of \<open>calculateMatchPercentage\<close>\<close>

lemma calculateMatchPercentage_le_100:
  "calculateMatchPercentage candidateSkills requiredSkills \<le> 100"
  using matchOrder_le[of "normalizeSkills candidateSkills" "normalizeSkills requiredSkills"]
  by (simp add: calculateMatchPercentage_def Let_def matchRun_closed percentage_le_100)

lemma calculateMatchPercentage_fourPass:
  "calculateMatchPercentage candidateSkills requiredSkills
   = fourPassPercentage candidateSkills requiredSkills"
  by (simp add: calculateMatchPercentage_def fourPassPercentage_def Let_def matchRun_closed
      fourPassRun_count)

lemma firstTier_no_candidates: "firstTier [] r = None"
  by (simp add: firstTier_def exactTier_def partialTier_def hasAllParts_def substantialTier_def
      equivalentTier_def hasEquivalent_def)

lemma matchOrder_no_candidates: "matchOrder [] nr = []"
  by (simp add: matchOrder_def firstTier_no_candidates)

lemma percentage_23_of_40: "percentage 23 40 = 57 \<and> (2 * (100 * 23) + 40) div (2 * 40) = (58::nat)"
  by code_simp

text \<open>
  C1, as the code has it. When neither list is empty and the required list is not empty
  after normalization, \<open>calculateMatchPercentage\<close> makes three passes over the full
  normalized required list: the exact tier; then one pass that tries, for each skill not
  matched so far, the partial tier and then the substantial tier; then the technology
  equivalents. The skills it counts, in the order of its console lines, are
  \<open>matchOrder\<close>: every entry with an exact match, then the first copy of every skill whose
  first matching tier is partial or substantial, then the first copy of every skill whose
  first matching tier is the equivalents; each is counted once, with the line of its
  first matching tier. The value returned is \<open>Math.round((matchCount / n) * 100)\<close> in
  double arithmetic for that count, it lies between 0 and 100, and it is the value that
  four separate passes, one for each tier, return.
\<close>

theorem calculateMatchPercentage_three_loops:
  "(requiredSkills \<noteq> [] \<longrightarrow> candidateSkills \<noteq> [] \<longrightarrow> normalizeSkills requiredSkills \<noteq> [] \<longrightarrow>
      matchEvents candidateSkills requiredSkills
        = map (tierEvent (normalizeSkills candidateSkills))
              (matchOrder (normalizeSkills candidateSkills) (normalizeSkills requiredSkills))
      \<and> calculateMatchPercentage candidateSkills requiredSkills
          = percentage (length (matchOrder (normalizeSkills candidateSkills)
                                           (normalizeSkills requiredSkills)))
                       (length (normalizeSkills requiredSkills)))
   \<and> length (matchOrder (normalizeSkills candidateSkills) (normalizeSkills requiredSkills))
       \<le> length (normalizeSkills requiredSkills)
   \<and> calculateMatchPercentage candidateSkills requiredSkills \<le> 100
   \<and> calculateMatchPercentage candidateSkills requiredSkills
       = fourPassPercentage candidateSkills requiredSkills"
  using calculateMatchPercentage_le_100[of candidateSkills requiredSkills]
    calculateMatchPercentage_fourPass[of candidateSkills requiredSkills]
    matchOrder_le[of "normalizeSkills candidateSkills" "normalizeSkills requiredSkills"]
  by (simp add: calculateMatchPercentage_def matchEvents_def Let_def matchRun_closed)

theorem calculateMatchPercentage_three_loops_witness:
  "[JStr ''python'', JStr ''lambda''] \<noteq> [] \<and> [JStr ''Python'', JStr ''AWS Lambda''] \<noteq> []
   \<and> normalizeSkills [JStr ''python'', JStr ''lambda''] \<noteq> []
   \<and> matchEvents [JStr ''Python'', JStr ''AWS Lambda''] [JStr ''python'', JStr ''lambda'']
       = [ExactMatch ''python'', SubstantialMatch ''lambda'' ''aws lambda'']
   \<and> calculateMatchPercentage [JStr ''Python'', JStr ''AWS Lambda''] [JStr ''python'', JStr ''lambda'']
       = 100"
proof -
  have n: "normalizeSkills [JStr ''python'', JStr ''lambda''] = [''python'', ''lambda'']"
    by code_simp
  have c: "normalizeSkills [JStr ''Python'', JStr ''AWS Lambda''] = [''python'', ''aws lambda'']"
    by code_simp
  have o: "matchOrder [''python'', ''aws lambda''] [''python'', ''lambda''] = [''python'', ''lambda'']"
    by code_simp
  have e: "map (tierEvent [''python'', ''aws lambda'']) [''python'', ''lambda'']
           = [ExactMatch ''python'', SubstantialMatch ''lambda'' ''aws lambda'']"
    by code_simp
  have p: "percentage 2 2 = 100" by code_simp
  have l: "length [''python'', ''lambda''] = 2" by simp
  from calculateMatchPercentage_three_loops[of "[JStr ''python'', JStr ''lambda'']"
      "[JStr ''Python'', JStr ''AWS Lambda'']"]
  show ?thesis unfolding n c o e l p by simp
qed

text \<open>
  With the candidates \<open>aws lambda\<close> and \<open>glue aws\<close> and the required skills \<open>lambda\<close> and
  \<open>aws glue\<close>, the source prints the substantial match of \<open>lambda\<close> before the partial match
  of \<open>aws glue\<close>: the substantial tier has run for the first skill before the partial tier
  has looked at the second. Four passes, one for each tier, print the two lines in the
  other order.
\<close>

theorem tiers_interleaved_counterexample:
  "matchEvents [JStr ''aws lambda'', JStr ''glue aws''] [JStr ''lambda'', JStr ''aws glue'']
     = [SubstantialMatch ''lambda'' ''aws lambda'', PartialMatch ''aws glue'']
   \<and> fourPassEvents [JStr ''aws lambda'', JStr ''glue aws''] [JStr ''lambda'', JStr ''aws glue'']
     = [PartialMatch ''aws glue'', SubstantialMatch ''lambda'' ''aws lambda'']"
  by code_simp

text \<open>
  C4. \<open>calculateMatchPercentage\<close> returns 0 when the required list or the candidate list is
  empty, and when either is empty once the entries that are not strings are filtered
  out. The function has no failing branch: it only reads its two arrays and calls string
  methods on entries it has checked to be strings.
\<close>

theorem calculateMatchPercentage_degenerate:
  "((requiredSkills = [] \<or> candidateSkills = []
     \<or> normalizeSkills requiredSkills = [] \<or> normalizeSkills candidateSkills = [])
      \<longrightarrow> calculateMatchPercentage candidateSkills requiredSkills = 0)
   \<and> calculateMatchPercentage [] [JStr ''python''] = 0
   \<and> calculateMatchPercentage [JStr ''python''] [] = 0"
  by (auto simp: calculateMatchPercentage_def Let_def matchRun_closed matchOrder_no_candidates
      percentage_zero)

theorem calculateMatchPercentage_degenerate_witness:
  "normalizeSkills [JOther, JOther] = []
   \<and> calculateMatchPercentage [JStr ''python''] [JOther, JOther] = 0
   \<and> calculateMatchPercentage [JOther, JOther] [JStr ''python''] = 0
   \<and> calculateMatchPercentage [] [JStr ''python'', JOther] = 0"
proof -
  have n: "normalizeSkills [JOther, JOther] = []" by (simp add: normalizeSkills_def)
  from calculateMatchPercentage_degenerate[of "[JOther, JOther]" "[JStr ''python'']"]
    calculateMatchPercentage_degenerate[of "[JStr ''python'']" "[JOther, JOther]"]
    calculateMatchPercentage_degenerate[of "[JStr ''python'', JOther]" "[]"] n
  show ?thesis by simp
qed


section \<open>The experience estimator\<close>

subsection \<open>The text with two adjacent jobs\<close>

lemma adjacent_yearRange:
  "matchFirst yearRangeRx adjacentJobsText
   = Some (''2020 - Present'', [(2, ''Present''), (1, ''2020'')])"
  by code_simp

lemma parseInt_2020: "parseInt ''2020'' = Some 2020"
  by code_simp

lemma present_is_now_word: "test (False, nowWords) (toLowerCase ''Present'')"
  by code_simp

lemma adjacent_tier2:
  "extractExperienceYears now dateParse adjacentJobsText = showInt (getFullYear now - 2020)"
  by (simp add: extractExperienceYears_def adjacent_yearRange groupStr_def group_def
      parseInt_2020 present_is_now_word)

lemma adjacent_matches:
  "matchAll monthYearRangeRx adjacentJobsText
     = [(''01/2018 - 06/2020'', [(2, ''06/2020''), (1, ''01/2018'')]),
        (''07/2020 - Present'', [(2, ''Present''), (1, ''07/2020'')])]"
  "matchAll yearOnlyRangeRx adjacentJobsText
     = [(''2020 - Present'', [(2, ''Present''), (1, ''2020'')])]"
  "matchAll (monthRangeRx monthNames) adjacentJobsText = [(''Present'', [])]"
  "matchAll (monthRangeRx monthAbbrevs) adjacentJobsText = [(''Present'', [])]"
  by code_simp+

lemma adjacent_starts:
  "parseStart dateParse (trim ''01/2018'') = Some 1514764800000"
  "parseStart dateParse (trim ''07/2020'') = Some 1593561600000"
  "parseStart dateParse (trim ''2020'') = Some 1577836800000"
  by code_simp+

lemma adjacent_ends:
  "parseEnd now dateParse (toLowerCase (trim ''06/2020'')) = Some 1590969600000"
  "parseEnd now dateParse (toLowerCase (trim ''Present'')) = Some now"
proof -
  have 1: "toLowerCase (trim ''06/2020'') = ''06/2020''" by code_simp
  have 2: "toLowerCase (trim ''Present'') = ''present''" by code_simp
  have 3: "includesStr ''06/2020'' ''/''" by code_simp
  have 4: "monthSlashYear ''06/2020'' = Some 1590969600000" by code_simp
  show "parseEnd now dateParse (toLowerCase (trim ''06/2020'')) = Some 1590969600000"
    unfolding 1 by (simp add: parseEnd_def 3 4)
  show "parseEnd now dateParse (toLowerCase (trim ''Present'')) = Some now"
    unfolding 2 by (simp add: parseEnd_def)
qed

lemma adjacent_workPeriods:
  assumes "1593561600000 \<le> now"
  shows "workPeriodsOf now dateParse adjacentJobsText
         = [(1514764800000, 1590969600000), (1593561600000, now), (1577836800000, now)]"
  using assms
  by (simp add: workPeriodsOf_def datePatterns_def adjacent_matches periodOfMatch_def group_def
      adjacent_starts adjacent_ends)

lemma adjacent_history:
  assumes "1593561600000 \<le> now"
  shows "calculateExperienceFromWorkHistory now dateParse adjacentJobsText
         = yearsString ((getFullYear now - 2018) * 12 + getMonth now + 1)"
proof -
  have y: "getFullYear 1514764800000 = 2018" and m: "getMonth 1514764800000 = 0"
    by code_simp+
  have s: "sort_key fst [(1514764800000::int, 1590969600000::int), (1593561600000, now),
                         (1577836800000, now)]
           = [(1514764800000, 1590969600000), (1577836800000, now), (1593561600000, now)]"
    by simp
  have g: "mergeLoop (1514764800000, 1590969600000) [(1577836800000, now), (1593561600000, now)]
           = [(1514764800000, now)]"
    using assms by (simp add: oneMonth_def max_def)
  have h: "hd [(1514764800000::int, 1590969600000::int), (1577836800000, now), (1593561600000, now)]
           = (1514764800000, 1590969600000)"
    "tl [(1514764800000::int, 1590969600000::int), (1577836800000, now), (1593561600000, now)]
           = [(1577836800000, now), (1593561600000, now)]"
    by simp_all
  have p: "sum_list (map periodMonths [(1514764800000, now)])
           = (getFullYear now - 2018) * 12 + getMonth now + 1"
    by (simp add: periodMonths_def y m)
  show ?thesis
    unfolding calculateExperienceFromWorkHistory_def Let_def adjacent_workPeriods[OF assms] s h g p
    by simp
qed

lemma july_2020: "makeDate 2020 6 1 = 1593561600000"
  by code_simp

text \<open>
  C2, as the code has it. On the text \<open>adjacentJobsText\<close> the single-range pattern of
  \<open>extractExperienceYears\<close> matches \<open>2020 - Present\<close> inside \<open>07/2020 - Present\<close>, and the
  function returns the current calendar year minus 2020 without looking at the work
  history. \<open>calculateExperienceFromWorkHistory\<close> on the same text, for a current date from
  1 July 2020 on, finds three periods (the two jobs and, through the year pattern, 2020 to
  now), merges them into the one period from January 2018 to now, and returns the rounded
  year count of its months.
\<close>

theorem adjacent_jobs_estimate:
  "extractExperienceYears now dateParse adjacentJobsText = showInt (getFullYear now - 2020)
   \<and> (makeDate 2020 6 1 \<le> now \<longrightarrow>
        calculateExperienceFromWorkHistory now dateParse adjacentJobsText
        = yearsString ((getFullYear now - 2018) * 12 + getMonth now + 1))"
  using adjacent_tier2[of now dateParse] adjacent_history[of now dateParse]
  by (simp add: july_2020)

theorem adjacent_jobs_estimate_witness:
  "makeDate 2020 6 1 \<le> makeDate 2026 10 2
   \<and> extractExperienceYears (makeDate 2026 10 2) noDateParse adjacentJobsText = ''6''
   \<and> calculateExperienceFromWorkHistory (makeDate 2026 10 2) noDateParse adjacentJobsText = ''9''"
proof -
  have n: "makeDate 2026 10 2 = 1793577600000" by code_simp
  have l: "(1593561600000::int) \<le> 1793577600000" by simp
  have y: "getFullYear 1793577600000 = 2026" and m: "getMonth 1793577600000 = 10" by code_simp+
  have a: "showInt (2026 - 2020) = ''6''" by code_simp
  have b: "yearsString ((2026 - 2018) * 12 + 10 + 1) = ''9''" by code_simp
  from adjacent_jobs_estimate[of "makeDate 2026 10 2" noDateParse]
  show ?thesis unfolding n july_2020 y m a b using l by simp
qed

text \<open>
  On 2 November 2026 the function returns 6 for that text, where the year count of the
  merged period from January 2018 (107 months) is 9.
\<close>

theorem adjacent_jobs_counterexample:
  "extractExperienceYears (makeDate 2026 10 2) noDateParse adjacentJobsText = ''6''
   \<and> yearsString ((getFullYear (makeDate 2026 10 2) - 2018) * 12
                   + getMonth (makeDate 2026 10 2) + 1) = ''9''"
proof -
  have n: "makeDate 2026 10 2 = 1793577600000" by code_simp
  have y: "getFullYear 1793577600000 = 2026" and m: "getMonth 1793577600000 = 10" by code_simp+
  have a: "showInt 6 = ''6''" by code_simp
  have b: "yearsString 107 = ''9''" by code_simp
  show ?thesis unfolding n by (simp add: adjacent_tier2 y m a b)
qed

subsection \<open>Two periods with a gap\<close>

lemma two_periods_history:
  assumes "sort_key fst (workPeriodsOf now dateParse text) = [a, b]"
    and "fst b - snd a > oneMonth"
  shows "calculateExperienceFromWorkHistory now dateParse text
         = yearsString (periodMonths a + periodMonths b)"
proof -
  have ne: "workPeriodsOf now dateParse text \<noteq> []"
    using assms(1) by auto
  show ?thesis
    unfolding calculateExperienceFromWorkHistory_def Let_def assms(1)
    using ne assms(2) by simp
qed

text \<open>
  C3, as the code has it. When the single-range pattern of \<open>extractExperienceYears\<close> finds
  nothing in the text and the date-range scan gives two valid periods, the later one
  starting more than 30 days after the earlier one ends, the function returns the rounded
  year count of the sum of the two periods' months (the empty string when that is 0):
  the two durations added, not the span from the first start to the last end.
\<close>

theorem two_periods_estimate:
  assumes "matchFirst yearRangeRx text = None"
    and "sort_key fst (workPeriodsOf now dateParse text) = [a, b]"
    and "fst b - snd a > oneMonth"
  shows "extractExperienceYears now dateParse text
         = yearsString (periodMonths a + periodMonths b)"
  using two_periods_history[OF assms(2,3)] assms(1)
  by (simp add: extractExperienceYears_def)

theorem two_periods_estimate_witness:
  "matchFirst yearRangeRx ''01/2014 - 01/2016, 01/2018 - 01/2020'' = None
   \<and> sort_key fst (workPeriodsOf (makeDate 2026 10 2) noDateParse ''01/2014 - 01/2016, 01/2018 - 01/2020'')
       = [(makeDate 2014 0 1, makeDate 2016 0 1), (makeDate 2018 0 1, makeDate 2020 0 1)]
   \<and> makeDate 2018 0 1 - makeDate 2016 0 1 > oneMonth
   \<and> extractExperienceYears (makeDate 2026 10 2) noDateParse ''01/2014 - 01/2016, 01/2018 - 01/2020''
       = ''4''
   \<and> yearsString (periodMonths (makeDate 2014 0 1, makeDate 2020 0 1)) = ''6''"
proof -
  have t: "matchFirst yearRangeRx ''01/2014 - 01/2016, 01/2018 - 01/2020'' = None"
    by code_simp
  have w: "workPeriodsOf (makeDate 2026 10 2) noDateParse ''01/2014 - 01/2016, 01/2018 - 01/2020''
           = [(makeDate 2014 0 1, makeDate 2016 0 1), (makeDate 2018 0 1, makeDate 2020 0 1)]"
    by code_simp
  have d: "makeDate 2014 0 1 = 1388534400000" "makeDate 2016 0 1 = 1451606400000"
          "makeDate 2018 0 1 = 1514764800000" "makeDate 2020 0 1 = 1577836800000"
    by code_simp+
  have s: "sort_key fst (workPeriodsOf (makeDate 2026 10 2) noDateParse ''01/2014 - 01/2016, 01/2018 - 01/2020'')
           = [(makeDate 2014 0 1, makeDate 2016 0 1), (makeDate 2018 0 1, makeDate 2020 0 1)]"
    unfolding w d by simp
  have g: "fst (makeDate 2018 0 1, makeDate 2020 0 1) - snd (makeDate 2014 0 1, makeDate 2016 0 1)
           > oneMonth"
    unfolding d by (simp add: oneMonth_def)
  have m: "yearsString (periodMonths (makeDate 2014 0 1, makeDate 2016 0 1)
                        + periodMonths (makeDate 2018 0 1, makeDate 2020 0 1)) = ''4''"
    by code_simp
  have sp: "yearsString (periodMonths (makeDate 2014 0 1, makeDate 2020 0 1)) = ''6''"
    by code_simp
  from two_periods_estimate[OF t s g] m
  have "extractExperienceYears (makeDate 2026 10 2) noDateParse ''01/2014 - 01/2016, 01/2018 - 01/2020''
        = ''4''" by simp
  with t s g sp show ?thesis by simp
qed

text \<open>
  With the two periods written as years, \<open>2014 - 2016\<close> and \<open>2019 - 2021\<close>, the single-range
  pattern matches the first of them and the function returns 2, its end year minus its
  start year, where the two periods found by the date-range scan add up to 72 months,
  that is 6 years.
\<close>

theorem two_periods_counterexample:
  "extractExperienceYears (makeDate 2026 10 2) noDateParse ''2014 - 2016, 2019 - 2021'' = ''2''
   \<and> workPeriodsOf (makeDate 2026 10 2) noDateParse ''2014 - 2016, 2019 - 2021''
       = [(makeDate 2014 0 1, makeDate 2016 11 31), (makeDate 2019 0 1, makeDate 2021 11 31)]
   \<and> makeDate 2019 0 1 - makeDate 2016 11 31 > oneMonth
   \<and> yearsString (periodMonths (makeDate 2014 0 1, makeDate 2016 11 31)
                   + periodMonths (makeDate 2019 0 1, makeDate 2021 11 31)) = ''6''"
  by code_simp


end
